(* ===== verification/Prelude.thy ===== *)
theory Prelude
  imports Main "HOL-Library.Word" "HOL-Library.Signed_Division"
begin

unbundle bit_operations_syntax

section \<open>Shared vocabulary of the peerd model\<close>

text \<open>
  What every component shares: the outcome of a Go call (a value, a run-time panic, or a goroutine
  that waits forever), Go error values, 64-bit signed arithmetic with the wrap-around written out,
  and the generic list and arithmetic facts the component proofs use.

  A Go function \<open>func f(x) (T, error)\<close> is modelled as \<open>f :: x \<Rightarrow> go_error + T\<close> when it returns either
  a value or an error, and as a pair \<open>T \<times> go_error option\<close> when both parts are meaningful (a byte
  count with a non-nil error). A function that can panic or block has its result inside
  \<^typ>\<open>'a option\<close>-like type \<open>outcome\<close>.
\<close>

named_theorems go_int "facts on 64-bit Go integers"
named_theorems go_defs "definitions that are unfolded in component proofs"

subsection \<open>Outcomes and errors\<close>

text \<open>
  \<open>OsExit\<close> is not a panic but ends the process in the same way as far as the callers go: at once, and
  without the deferred functions.
\<close>

datatype go_panic =
    DivideByZero
  | IndexOutOfRange
  | SliceBounds
  | MakeSliceLen
  | MakeChanSize
  | NilDeref
  | TypeAssertion
  | CloseOfClosedChannel
  | AbortHandler
  | ExplicitPanic string
  | OsExit int

datatype 'a outcome = Ret 'a | Panic go_panic | Blocked

fun obind :: "'a outcome \<Rightarrow> ('a \<Rightarrow> 'b outcome) \<Rightarrow> 'b outcome" where
  "obind (Ret x) f = f x"
| "obind (Panic p) f = Panic p"
| "obind Blocked f = Blocked"

lemma obind_Ret_iff: "obind m f = Ret y \<longleftrightarrow> (\<exists>x. m = Ret x \<and> f x = Ret y)"
  by (cases m) auto

lemma obind_Panic_iff: "obind m f = Panic p \<longleftrightarrow> m = Panic p \<or> (\<exists>x. m = Ret x \<and> f x = Panic p)"
  by (cases m) auto

lemma obind_Blocked_iff: "obind m f = Blocked \<longleftrightarrow> m = Blocked \<or> (\<exists>x. m = Ret x \<and> f x = Blocked)"
  by (cases m) auto

lemma obind_RetE [elim!]:
  assumes "obind m f = Ret y"
  obtains x where "m = Ret x" and "f x = Ret y"
  using assms by (auto simp: obind_Ret_iff)

text \<open>The result of a call that also returns its states.\<close>

fun result_of :: "('r \<times> 's) outcome \<Rightarrow> 'r option" where
  "result_of (Ret (r, s)) = Some r"
| "result_of _ = None"

lemma result_ofD: "result_of m = Some r \<Longrightarrow> \<exists>s. m = Ret (r, s)"
  by (cases m) auto

lemmas obind_iffs = obind_Ret_iff obind_Panic_iff obind_Blocked_iff

text \<open>
  Error values. Sentinels of the standard library have a constructor of their own because the code
  compares against them; an error built by \<open>fmt.Errorf\<close> or \<open>errors.New\<close> is \<open>Errorf\<close> with its
  message format; \<open>OsError\<close> is any error of a file-system call; \<open>WrapErr t e\<close> is an error of the
  code's own type \<open>t\<close> around \<open>e\<close>, which compares unequal to \<open>e\<close>.
\<close>

datatype go_error =
    EOF
  | ErrUnexpectedEOF
  | ErrNotExist
  | ErrSyntax
  | ErrRange
  | OsError string
  | NetError string
  | Errorf string
  | JoinedErrors "go_error list"
  | WrapErr string go_error

type_synonym byte = "8 word"
type_synonym bytes = "byte list"
type_synonym 'a result = "go_error + 'a"

text \<open>
  An \<open>io.Writer\<close> at the end of a connection, given the bytes of all writes of a copy: the bytes it
  accepts and the error.
\<close>

type_synonym writer = "bytes \<Rightarrow> bytes \<times> go_error option"

subsection \<open>Signed 64-bit integers\<close>

text \<open>
  Go's \<open>int64\<close> (and \<open>int\<close>, which is 64 bits wide on the platforms peerd is built for) is modelled
  as \<^typ>\<open>int\<close> with every operation that can overflow wrapped into \<open>[-2^63, 2^63)\<close>.
\<close>

type_synonym int64 = int

definition in_int64 :: "int \<Rightarrow> bool" where
  "in_int64 x \<longleftrightarrow> - (2 ^ 63) \<le> x \<and> x < 2 ^ 63"

definition wrap64 :: "int \<Rightarrow> int64" where
  "wrap64 x = (x + 2 ^ 63) mod 2 ^ 64 - 2 ^ 63"

definition add64 :: "int64 \<Rightarrow> int64 \<Rightarrow> int64" where
  "add64 x y = wrap64 (x + y)"

definition sub64 :: "int64 \<Rightarrow> int64 \<Rightarrow> int64" where
  "sub64 x y = wrap64 (x - y)"

definition mul64 :: "int64 \<Rightarrow> int64 \<Rightarrow> int64" where
  "mul64 x y = wrap64 (x * y)"

text \<open>Go's \<open>/\<close> truncates towards zero and panics on a zero divisor.\<close>

definition quot64 :: "int64 \<Rightarrow> int64 \<Rightarrow> int64 outcome" where
  "quot64 x y = (if y = 0 then Panic DivideByZero else Ret (wrap64 (x sdiv y)))"

lemma wrap64_in_int64 [simp, go_int]: "in_int64 (wrap64 x)"
proof -
  have "(x + 2 ^ 63) mod 2 ^ 64 < (2::int) ^ 64" and "0 \<le> (x + 2 ^ 63) mod (2::int) ^ 64"
    by simp_all
  then show ?thesis by (simp add: in_int64_def wrap64_def)
qed

lemma wrap64_id [simp, go_int]: "in_int64 x \<Longrightarrow> wrap64 x = x"
  by (simp add: in_int64_def wrap64_def)

lemma wrap64_id_iff: "wrap64 x = x \<longleftrightarrow> in_int64 x"
  using wrap64_id wrap64_in_int64 [of x] by metis

lemma in_int64_nonneg_le: "in_int64 y \<Longrightarrow> 0 \<le> x \<Longrightarrow> x \<le> y \<Longrightarrow> in_int64 x"
  by (auto simp: in_int64_def)

lemma in_int64_0 [simp]: "in_int64 0"
  by (simp add: in_int64_def)

lemma in_int64_1 [simp]: "in_int64 1"
  by (simp add: in_int64_def)

lemmas arith64_defs [go_int] = add64_def sub64_def mul64_def

lemma sdiv_nonneg: "0 \<le> (x::int) \<Longrightarrow> 0 < y \<Longrightarrow> x sdiv y = x div y"
  by (cases "x = 0") (simp_all add: signed_divide_int_def)

lemma div_int_le_self: "0 \<le> (x::int) \<Longrightarrow> 0 < y \<Longrightarrow> x div y \<le> x"
  using zdiv_mono2 [of x 1 y] by simp

lemma quot64_nonneg:
  assumes "in_int64 x" and "0 \<le> x" and "0 < y"
  shows "quot64 x y = Ret (x div y)"
proof -
  have "0 \<le> x div y" and "x div y \<le> x"
    using assms by (simp_all add: pos_imp_zdiv_nonneg_iff div_int_le_self)
  then have "in_int64 (x div y)" using assms(1) by (rule in_int64_nonneg_le [rotated 1])
  then show ?thesis using assms by (simp add: quot64_def sdiv_nonneg)
qed

end
