(* ===== verification/Segments.thy ===== *)
theory Segments
  imports Prelude
begin

section \<open>Block arithmetic: \<open>src/pkg/math\<close>\<close>

text \<open>
  Model of \<open>compare.go\<close> and \<open>segments.go\<close>. A file is cut into blocks of \<open>step\<close> bytes;
  \<open>AlignDown\<close> finds the block of an offset and \<open>All\<close> enumerates the parts of the blocks that meet
  the range \<open>[offset, size)\<close>. The channel that \<open>All\<close> returns is the list of the segments sent on it
  before it is closed. The loop is a \<^theory_text>\<open>partial_function\<close>: its counter wraps at 64 bits, so it need
  not end, and \<open>None\<close> is the loop that never closes its channel.

  The lemmas show that the segments tile the range exactly, that each lies inside one block, and
  that the power-of-two check of \<open>NewSegments\<close> is exact on positive steps.
\<close>

subsection \<open>Data and operations\<close>

definition Max64 :: "int64 \<Rightarrow> int64 \<Rightarrow> int64" where
  "Max64 x y = (if x > y then x else y)"

definition Min64 :: "int64 \<Rightarrow> int64 \<Rightarrow> int64" where
  "Min64 x y = (if x < y then x else y)"

definition Min_int :: "int64 \<Rightarrow> int64 \<Rightarrow> int64" where
  "Min_int x y = (if x < y then x else y)"

record Segments =
  segs_offset :: int64
  segs_step :: int64
  segs_size :: int64

record Segment =
  seg_Index :: int64
  seg_Offset :: int64
  seg_Count :: int64

definition NewSegments :: "int64 \<Rightarrow> int64 \<Rightarrow> int64 \<Rightarrow> int64 \<Rightarrow> Segments result" where
  "NewSegments offset step count sz =
     (if (step AND sub64 step 1) > 0
      then Inl (Errorf ''step must be power of 2, got %d'')
      else Inr \<lparr>segs_offset = offset, segs_step = step, segs_size = Min64 (add64 offset count) sz\<rparr>)"

definition AlignDown :: "int64 \<Rightarrow> int64 \<Rightarrow> int64 outcome" where
  "AlignDown x align = obind (quot64 x align) (\<lambda>q. Ret (mul64 q align))"

partial_function (option) all_loop :: "Segments \<Rightarrow> int64 \<Rightarrow> Segment list option" where
  "all_loop r i =
     (if i < segs_size r
      then (let absOffset = Max64 i (segs_offset r);
                seg = \<lparr>seg_Index = i, seg_Offset = sub64 absOffset i,
                  seg_Count = sub64 (Min64 (add64 i (segs_step r)) (segs_size r)) absOffset\<rparr>
            in Option.bind (all_loop r (add64 i (segs_step r)))
                 (\<lambda>rest. Some (if seg_Count seg > 0 then seg # rest else rest)))
      else Some [])"

definition All_segments :: "Segments \<Rightarrow> Segment list option outcome" where
  "All_segments r = obind (AlignDown (segs_offset r) (segs_step r)) (\<lambda>i. Ret (all_loop r i))"

subsection \<open>Facts on alignment\<close>

lemma Max64_eq [simp]: "Max64 x y = max x y"
  by (simp add: Max64_def max_def)

lemma Min64_eq [simp]: "Min64 x y = min x y"
  by (simp add: Min64_def min_def)

lemma Min_int_eq [simp]: "Min_int x y = min x y"
  by (simp add: Min_int_def min_def)

lemma align_bounds:
  fixes x a :: int
  assumes "0 < a"
  shows "x div a * a \<le> x" and "x < x div a * a + a"
proof -
  have "x div a * a + x mod a = x" by simp
  moreover have "0 \<le> x mod a" and "x mod a < a" using assms by simp_all
  ultimately show "x div a * a \<le> x" and "x < x div a * a + a" by linarith+
qed

lemma align_nonneg: "0 \<le> (x::int) \<Longrightarrow> 0 < a \<Longrightarrow> 0 \<le> x div a * a"
  by (simp add: pos_imp_zdiv_nonneg_iff)

lemma align_in_int64: "in_int64 x \<Longrightarrow> 0 \<le> x \<Longrightarrow> 0 < a \<Longrightarrow> in_int64 (x div a * a)"
  by (rule in_int64_nonneg_le [OF _ align_nonneg align_bounds(1)])

lemma AlignDown_nonneg:
  assumes "in_int64 x" and "0 \<le> x" and "0 < a"
  shows "AlignDown x a = Ret (x div a * a)"
  using assms by (simp add: AlignDown_def quot64_nonneg mul64_def align_in_int64)

subsection \<open>The segments tile the range\<close>

definition seg_positions :: "Segment \<Rightarrow> int list" where
  "seg_positions s = [seg_Index s + seg_Offset s .. seg_Index s + seg_Offset s + seg_Count s - 1]"

definition in_block :: "int64 \<Rightarrow> Segment \<Rightarrow> bool" where
  "in_block step s \<longleftrightarrow> step dvd seg_Index s \<and> 0 \<le> seg_Offset s \<and> 0 < seg_Count s
     \<and> seg_Offset s + seg_Count s \<le> step"

definition no_wrap :: "Segments \<Rightarrow> bool" where
  "no_wrap r \<longleftrightarrow> 0 < segs_step r \<and> 0 \<le> segs_offset r \<and> in_int64 (segs_offset r)
     \<and> in_int64 (segs_size r + segs_step r)"

lemma all_loop_end: "segs_size r \<le> i \<Longrightarrow> all_loop r i = Some []"
  by (simp add: all_loop.simps)

lemma all_loop_step:
  assumes "no_wrap r" and "0 \<le> i" and "i < segs_size r" and "segs_offset r < i + segs_step r"
  shows "all_loop r i = Option.bind (all_loop r (i + segs_step r)) (\<lambda>rest.
     Some (if max i (segs_offset r) < segs_size r
           then \<lparr>seg_Index = i, seg_Offset = max i (segs_offset r) - i,
                  seg_Count = min (i + segs_step r) (segs_size r) - max i (segs_offset r)\<rparr> # rest
           else rest))"
proof -
  let ?a = "max i (segs_offset r)" and ?j = "i + segs_step r"
  have w: "wrap64 ?j = ?j" "wrap64 (?a - i) = ?a - i"
    "wrap64 (min ?j (segs_size r) - ?a) = min ?j (segs_size r) - ?a"
    using assms by (auto simp: no_wrap_def in_int64_def wrap64_id_iff)
  have "0 < segs_step r" using assms(1) by (simp add: no_wrap_def)
  then show ?thesis
    using assms(3,4) by (subst all_loop.simps) (auto simp: arith64_defs w Let_def cong: if_cong)
qed

lemma all_loop_tiles:
  assumes "no_wrap r" and "0 \<le> i" and "segs_step r dvd i" and "segs_offset r < i + segs_step r"
  shows "\<exists>segs. all_loop r i = Some segs
    \<and> concat (map seg_positions segs) = [max i (segs_offset r) .. segs_size r - 1]
    \<and> list_all (in_block (segs_step r)) segs"
  using assms(2-4)
proof (induction "nat (segs_size r - i)" arbitrary: i rule: less_induct)
  case less
  let ?s = "segs_step r" and ?o = "segs_offset r" and ?n = "segs_size r"
  show ?case
  proof (cases "i < ?n")
    case False
    then show ?thesis by (simp add: all_loop_end)
  next
    case True
    have s: "0 < ?s" using assms(1) by (simp add: no_wrap_def)
    then obtain rest where rest: "all_loop r (i + ?s) = Some rest"
      "concat (map seg_positions rest) = [max (i + ?s) ?o .. ?n - 1]"
      "list_all (in_block ?s) rest"
      using less.hyps [of "i + ?s"] less.prems True by (auto simp: dvd_add)
    have mx: "max (i + ?s) ?o = i + ?s" using less.prems by simp
    show ?thesis
    proof (cases "max i ?o < ?n")
      case False
      then have "?n \<le> ?o" using True by simp
      then show ?thesis
        using less.prems rest by (simp add: all_loop_step [OF assms(1) _ True] mx)
    next
      case in_range: True
      let ?seg = "\<lparr>seg_Index = i, seg_Offset = max i ?o - i, seg_Count = min (i + ?s) ?n - max i ?o\<rparr>"
      have "seg_positions ?seg @ [i + ?s .. ?n - 1] = [max i ?o .. ?n - 1]"
        using in_range s less.prems upto_split1 [of "max i ?o" "i + ?s" "?n - 1"]
        by (cases "i + ?s \<le> ?n - 1") (auto simp: seg_positions_def)
      moreover have "in_block ?s ?seg"
        using less.prems in_range s by (auto simp: in_block_def)
      ultimately show ?thesis
        using less.prems rest in_range by (simp add: all_loop_step [OF assms(1) _ True] mx)
    qed
  qed
qed

lemma All_segments_tiles:
  assumes "NewSegments offset step count sz = Inr r"
    and "0 < step" and "0 \<le> offset" and "in_int64 offset"
    and "in_int64 (offset + count)" and "in_int64 (min (offset + count) sz + step)"
  shows "\<exists>segs. All_segments r = Ret (Some segs)
    \<and> concat (map seg_positions segs) = [offset .. min (offset + count) sz - 1]
    \<and> list_all (in_block step) segs"
proof -
  have r: "r = \<lparr>segs_offset = offset, segs_step = step, segs_size = min (offset + count) sz\<rparr>"
    using assms(1,5) by (auto simp: NewSegments_def add64_def split: if_splits)
  let ?i = "offset div step * step"
  have "no_wrap r" using assms by (simp add: r no_wrap_def)
  moreover have "0 \<le> ?i" and "segs_step r dvd ?i" and "segs_offset r < ?i + segs_step r"
    using assms(2,3) align_bounds(2) by (simp_all add: r align_nonneg)
  ultimately have "\<exists>segs. all_loop r ?i = Some segs
    \<and> concat (map seg_positions segs) = [max ?i offset .. segs_size r - 1]
    \<and> list_all (in_block (segs_step r)) segs"
    using all_loop_tiles [of r ?i] by (simp add: r)
  moreover have "max ?i offset = offset" using assms(2) align_bounds(1) by (simp add: max_def)
  ultimately show ?thesis
    using assms(2-4) by (simp add: All_segments_def AlignDown_nonneg r)
qed

text \<open>A range that starts at zero is cut into whole blocks, the last one up to the end.\<close>

lemma all_loop_blocks:
  assumes "no_wrap r" and "segs_offset r = 0" and "0 \<le> i" and "all_loop r i = Some segs"
  shows "list_all (\<lambda>s. seg_Offset s = 0 \<and> 0 \<le> seg_Index s \<and> seg_Index s < segs_size r
    \<and> seg_Count s = min (segs_step r) (segs_size r - seg_Index s)) segs"
  using assms(3,4)
proof (induction "nat (segs_size r - i)" arbitrary: i segs rule: less_induct)
  case less
  have s: "0 < segs_step r" using assms(1) by (simp add: no_wrap_def)
  show ?case
  proof (cases "i < segs_size r")
    case False
    then show ?thesis using less.prems by (simp add: all_loop_end)
  next
    case True
    obtain rest where rest: "all_loop r (i + segs_step r) = Some rest"
      and segs: "segs = \<lparr>seg_Index = i, seg_Offset = 0, seg_Count = min (i + segs_step r) (segs_size r) - i\<rparr> # rest"
      using less.prems True assms(2) s by (auto simp: all_loop_step [OF assms(1) _ True] bind_eq_Some_conv max_def)
    then show ?thesis
      using less.hyps [OF _ _ rest] True less.prems(1) s by auto
  qed
qed

text \<open>
  C36: \<open>NewSegments(offset, step, count, size).All()\<close> ends and closes its channel after sending
  segments that, laid one after the other, are exactly the positions
  \<open>offset .. min (offset + count) size - 1\<close>, in order and without overlap; every segment is
  non-empty and lies inside one aligned block of \<open>step\<close> bytes. The hypotheses say that the range
  starts at a non-negative offset and that neither \<open>offset + count\<close> nor \<open>size + step\<close> overflows.
\<close>

theorem segments_tile_range:
  assumes "NewSegments offset step count sz = Inr r"
    and "0 < step" and "0 \<le> offset" and "in_int64 offset"
    and "in_int64 (offset + count)" and "in_int64 (min (offset + count) sz + step)"
  shows "\<exists>segs. All_segments r = Ret (Some segs)
    \<and> concat (map seg_positions segs) = [offset .. min (offset + count) sz - 1]
    \<and> list_all (in_block step) segs"
  using assms by (rule All_segments_tiles)

theorem segments_tile_range_witness:
  "\<exists>segs. All_segments \<lparr>segs_offset = 5, segs_step = 4, segs_size = 10\<rparr> = Ret (Some segs)
    \<and> concat (map seg_positions segs) = [5 .. 9] \<and> list_all (in_block 4) segs"
proof -
  have "NewSegments 5 4 100 10 = Inr \<lparr>segs_offset = 5, segs_step = 4, segs_size = 10\<rparr>"
    by (simp add: NewSegments_def arith64_defs in_int64_def)
  from segments_tile_range [OF this] show ?thesis by (simp add: in_int64_def)
qed

subsection \<open>The step check\<close>

lemma and_minus_one_even: "0 < (m::int) \<Longrightarrow> (2 * m) AND (2 * m - 1) = 2 * (m AND (m - 1))"
proof -
  have "(2 * m - 1) div 2 = m - 1" by presburger
  then show ?thesis by (subst and_rec) simp
qed

lemma and_minus_one_odd: "(2 * m + 1) AND (2 * m) = 2 * (m::int)"
  by (subst and_rec) simp

lemma and_minus_one_zero_iff:
  fixes n :: int
  assumes "0 < n"
  shows "n AND (n - 1) = 0 \<longleftrightarrow> (\<exists>k. n = 2 ^ k)"
  using assms
proof (induction "nat n" arbitrary: n rule: less_induct)
  case less
  show ?case
  proof (cases "even n")
    case True
    then obtain m where m: "n = 2 * m" and pos: "0 < m" using less.prems by auto
    have "n AND (n - 1) = 0 \<longleftrightarrow> (\<exists>k. m = 2 ^ k)"
      using less.hyps [of m] pos by (simp add: m and_minus_one_even)
    moreover have "(\<exists>k. m = 2 ^ k) \<longleftrightarrow> (\<exists>k. n = 2 ^ k)"
    proof
      assume "\<exists>k. m = 2 ^ k"
      then show "\<exists>k. n = 2 ^ k" by (auto simp: m intro: exI [of _ "Suc _"])
    next
      assume "\<exists>k. n = 2 ^ k"
      then obtain k where "n = 2 ^ k" ..
      then show "\<exists>k. m = 2 ^ k" using True by (cases k) (auto simp: m)
    qed
    ultimately show ?thesis by simp
  next
    case False
    then obtain m where m: "n = 2 * m + 1" by (elim oddE)
    have "n AND (n - 1) = 0 \<longleftrightarrow> m = 0" by (simp add: m and_minus_one_odd)
    also have "\<dots> \<longleftrightarrow> (\<exists>k. n = 2 ^ k)"
    proof
      assume "m = 0"
      then show "\<exists>k. n = 2 ^ k" by (auto simp: m intro: exI [of _ 0])
    next
      assume "\<exists>k. n = 2 ^ k"
      then obtain k where k: "n = 2 ^ k" ..
      then show "m = 0" using False by (cases k) (auto simp: m)
    qed
    finally show ?thesis .
  qed
qed

text \<open>
  The step check of \<open>NewSegments\<close>. A positive step is accepted exactly when it is a power of
  two; every negative step is accepted as well, because \<open>step & (step - 1)\<close> is then not positive.
\<close>

theorem NewSegments_accepts_iff:
  assumes "in_int64 step"
  shows "(\<exists>r. NewSegments offset step count sz = Inr r) \<longleftrightarrow> step \<le> 0 \<or> (\<exists>k. step = 2 ^ k)"
proof (cases "0 < step")
  case True
  then have "sub64 step 1 = step - 1" using assms by (simp add: arith64_defs in_int64_def)
  moreover have "0 \<le> step AND (step - 1)" using True by simp
  ultimately show ?thesis
    using True and_minus_one_zero_iff [OF True] by (auto simp: NewSegments_def le_less)
next
  case False
  have "step AND sub64 step 1 \<le> 0"
  proof (cases "step = - (2 ^ 63)")
    case True
    then show ?thesis by (simp add: arith64_defs wrap64_def)
  next
    case other: False
    then have "sub64 step 1 = step - 1"
      using assms False by (simp add: arith64_defs in_int64_def)
    then show ?thesis using False by (cases "step = 0") (simp_all add: less_imp_le)
  qed
  then show ?thesis using False by (simp add: NewSegments_def)
qed

theorem NewSegments_accepts_iff_witness:
  "(\<exists>r. NewSegments 0 1048576 10 10 = Inr r) \<and> \<not> (\<exists>r. NewSegments 0 3 10 10 = Inr r)
    \<and> (\<exists>r. NewSegments 0 (-3) 10 10 = Inr r)"
proof -
  have "(3::int) \<noteq> 2 ^ k" for k
  proof
    assume k: "(3::int) = 2 ^ k"
    have "odd ((2::int) ^ k)" unfolding k [symmetric] by simp
    then show False using k by (cases k) simp_all
  qed
  moreover have "\<exists>k. (1048576::int) = 2 ^ k" by (rule exI [of _ 20]) simp
  moreover have "in_int64 1048576" and "in_int64 3" and "in_int64 (-3)"
    by (simp_all add: in_int64_def)
  ultimately show ?thesis by (simp add: NewSegments_accepts_iff)
qed

text \<open>
  On a non-negative offset and a positive block size, \<open>AlignDown\<close> returns (it neither panics
  nor wraps) the greatest multiple of the block size that is not above the offset.
\<close>

theorem AlignDown_greatest_multiple:
  assumes "in_int64 x" and "0 \<le> x" and "0 < a"
  shows "\<exists>y. AlignDown x a = Ret y \<and> a dvd y \<and> y \<le> x \<and> (\<forall>z. a dvd z \<and> z \<le> x \<longrightarrow> z \<le> y)"
proof (intro exI conjI allI impI)
  show "AlignDown x a = Ret (x div a * a)" using assms by (rule AlignDown_nonneg)
  show "a dvd x div a * a" and "x div a * a \<le> x" using assms(3) align_bounds(1) by simp_all
  fix z assume z: "a dvd z \<and> z \<le> x"
  then have "z div a * a \<le> x div a * a" using assms(3) by (intro mult_right_mono zdiv_mono1) auto
  then show "z \<le> x div a * a" using z by simp
qed

theorem AlignDown_greatest_multiple_witness:
  "\<exists>y. AlignDown 29 14 = Ret y \<and> 14 dvd y \<and> y \<le> 29 \<and> (\<forall>z. 14 dvd z \<and> z \<le> 29 \<longrightarrow> z \<le> y)"
  by (rule AlignDown_greatest_multiple) (simp_all add: in_int64_def)

end
