(* ===== verification/File_System.thy ===== *)
theory File_System
  imports Prelude "HOL-Library.AList"
begin

section \<open>Files as the cache sees them\<close>

text \<open>
  The operating-system calls that \<open>src/pkg/cache/item.go\<close> makes, on an explicit file system. A
  directory maps paths to inodes and an inode has contents; an open \<open>os.File\<close> keeps its inode after
  the path is removed, and has a write offset of its own. An inode is named by the path it was
  created under and a serial number, so that a path that is removed and created again denotes a new
  inode.

  Every call may fail. The outcomes of the coming calls are a list of faults, one entry per call
  (\<open>None\<close>: the call succeeds; a call after the end of the list succeeds); a fault says how many bytes
  were transferred before it and which error is returned.
\<close>

type_synonym ino = "string \<times> nat"

datatype os_fault = OsFault nat string

record fs =
  fs_dir :: "(string \<times> ino) list"
  fs_data :: "(ino \<times> bytes) list"
  fs_next :: nat
  fs_faults :: "os_fault option list"

record osFile =
  f_name :: string
  f_ino :: ino
  f_pos :: nat

definition contents :: "fs \<Rightarrow> ino \<Rightarrow> bytes" where
  "contents fs i = (case map_of (fs_data fs) i of None \<Rightarrow> [] | Some b \<Rightarrow> b)"

definition set_contents :: "ino \<Rightarrow> bytes \<Rightarrow> fs \<Rightarrow> fs" where
  "set_contents i b fs = fs\<lparr>fs_data := AList.update i b (fs_data fs)\<rparr>"

definition next_fault :: "fs \<Rightarrow> os_fault option \<times> fs" where
  "next_fault fs = (case fs_faults fs of [] \<Rightarrow> (None, fs) | x # xs \<Rightarrow> (x, fs\<lparr>fs_faults := xs\<rparr>))"

text \<open>\<open>os.MkdirAll\<close>: directories are implicit in the paths, so only its failure matters.\<close>

definition os_MkdirAll :: "string \<Rightarrow> fs \<Rightarrow> go_error option \<times> fs" where
  "os_MkdirAll p fs =
     (case next_fault fs of (Some (OsFault n e), fs') \<Rightarrow> (Some (OsError e), fs') | (None, fs') \<Rightarrow> (None, fs'))"

text \<open>\<open>os.OpenFile(path, O_CREATE|O_RDWR)\<close>: an existing file keeps its contents.\<close>

definition os_OpenFile :: "string \<Rightarrow> fs \<Rightarrow> osFile result \<times> fs" where
  "os_OpenFile p fs =
     (case next_fault fs of
        (Some (OsFault n e), fs') \<Rightarrow> (Inl (OsError e), fs')
      | (None, fs') \<Rightarrow>
          (case map_of (fs_dir fs') p of
             Some i \<Rightarrow> (Inr \<lparr>f_name = p, f_ino = i, f_pos = 0\<rparr>, fs')
           | None \<Rightarrow>
               (let i = (p, fs_next fs')
                in (Inr \<lparr>f_name = p, f_ino = i, f_pos = 0\<rparr>,
                    set_contents i [] (fs'\<lparr>fs_dir := AList.update p i (fs_dir fs'), fs_next := Suc (fs_next fs')\<rparr>)))))"

definition os_Stat :: "osFile \<Rightarrow> fs \<Rightarrow> int64 result \<times> fs" where
  "os_Stat f fs =
     (case next_fault fs of
        (Some (OsFault n e), fs') \<Rightarrow> (Inl (OsError e), fs')
      | (None, fs') \<Rightarrow> (Inr (int (length (contents fs' (f_ino f)))), fs'))"

text \<open>\<open>file.Truncate(0)\<close>: the contents go, the write offset stays.\<close>

definition os_Truncate0 :: "osFile \<Rightarrow> fs \<Rightarrow> go_error option \<times> fs" where
  "os_Truncate0 f fs =
     (case next_fault fs of
        (Some (OsFault n e), fs') \<Rightarrow> (Some (OsError e), fs')
      | (None, fs') \<Rightarrow> (None, set_contents (f_ino f) [] fs'))"

text \<open>Writing at an offset past the end leaves a gap of zero bytes; writing nothing changes nothing.\<close>

definition write_at :: "nat \<Rightarrow> bytes \<Rightarrow> bytes \<Rightarrow> bytes" where
  "write_at pos buf b =
     (if buf = [] then b
      else take pos b @ replicate (pos - length b) 0 @ buf @ drop (pos + length buf) b)"

text \<open>\<open>file.Write(buf)\<close> at the file's offset, which it advances: count, error, file, file system.\<close>

definition os_Write :: "osFile \<Rightarrow> bytes \<Rightarrow> fs \<Rightarrow> (int64 \<times> go_error option) \<times> osFile \<times> fs" where
  "os_Write f buf fs =
     (case next_fault fs of
        (fault, fs') \<Rightarrow>
          (let done = (case fault of None \<Rightarrow> buf | Some (OsFault n e) \<Rightarrow> take n buf);
               err = (case fault of None \<Rightarrow> None | Some (OsFault n e) \<Rightarrow> Some (OsError e))
           in ((int (length done), err), f\<lparr>f_pos := f_pos f + length done\<rparr>,
               set_contents (f_ino f) (write_at (f_pos f) done (contents fs' (f_ino f))) fs')))"

text \<open>\<open>file.ReadAt(buf, off)\<close> with \<open>len(buf) = n\<close>: the bytes read; an error whenever they are fewer than \<open>n\<close>.\<close>

definition os_ReadAt :: "osFile \<Rightarrow> nat \<Rightarrow> nat \<Rightarrow> fs \<Rightarrow> (bytes \<times> go_error option) \<times> fs" where
  "os_ReadAt f n off fs =
     (case next_fault fs of
        (Some (OsFault k e), fs') \<Rightarrow> ((take (min k n) (drop off (contents fs' (f_ino f))), Some (OsError e)), fs')
      | (None, fs') \<Rightarrow>
          (let got = take n (drop off (contents fs' (f_ino f)))
           in ((got, if length got < n then Some EOF else None), fs')))"

definition os_Remove :: "string \<Rightarrow> fs \<Rightarrow> go_error option \<times> fs" where
  "os_Remove p fs =
     (case next_fault fs of
        (Some (OsFault n e), fs') \<Rightarrow> (Some (OsError e), fs')
      | (None, fs') \<Rightarrow>
          (if map_of (fs_dir fs') p = None then (Some ErrNotExist, fs')
           else (None, fs'\<lparr>fs_dir := AList.delete p (fs_dir fs')\<rparr>)))"

definition os_Close :: "osFile \<Rightarrow> fs \<Rightarrow> go_error option \<times> fs" where
  "os_Close f fs =
     (case next_fault fs of (Some (OsFault n e), fs') \<Rightarrow> (Some (OsError e), fs') | (None, fs') \<Rightarrow> (None, fs'))"

subsection \<open>Facts\<close>

lemmas os_defs [go_defs] = os_MkdirAll_def os_OpenFile_def os_Stat_def os_Truncate0_def os_Write_def
  os_ReadAt_def os_Remove_def os_Close_def

lemma contents_set_contents [simp]:
  "contents (set_contents i b fs) j = (if j = i then b else contents fs j)"
  by (simp add: contents_def set_contents_def update_conv')

lemma set_contents_frame [simp]:
  "fs_dir (set_contents i b fs) = fs_dir fs" "fs_faults (set_contents i b fs) = fs_faults fs"
  "fs_next (set_contents i b fs) = fs_next fs"
  by (simp_all add: set_contents_def)

lemma next_fault_none [simp]: "fs_faults fs = [] \<Longrightarrow> next_fault fs = (None, fs)"
  by (simp add: next_fault_def)

lemma write_at_empty: "write_at pos buf [] = (if buf = [] then [] else replicate pos 0 @ buf)"
  by (simp add: write_at_def)

lemma os_ReadAt_full: "os_ReadAt f n off fs = ((got, None), fs') \<Longrightarrow> length got = n"
  by (auto simp: os_ReadAt_def Let_def split: prod.splits option.splits os_fault.splits if_splits)

text \<open>Faults that transfer no byte, and calls that leave every file as it was.\<close>

definition whole_faults :: "fs \<Rightarrow> bool" where
  "whole_faults fs \<longleftrightarrow>
     list_all (\<lambda>x. case x of Some (OsFault n e) \<Rightarrow> n = 0 | None \<Rightarrow> True) (fs_faults fs)"

lemma contents_frame [simp]:
  "contents (fs\<lparr>fs_dir := d\<rparr>) = contents fs"
  "contents (fs\<lparr>fs_faults := x\<rparr>) = contents fs"
  "contents (fs\<lparr>fs_next := n\<rparr>) = contents fs"
  by (simp_all add: contents_def fun_eq_iff)

lemma whole_faults_frame [simp]:
  "whole_faults (fs\<lparr>fs_dir := d\<rparr>) = whole_faults fs"
  "whole_faults (fs\<lparr>fs_next := n\<rparr>) = whole_faults fs"
  "whole_faults (set_contents i b fs) = whole_faults fs"
  by (simp_all add: whole_faults_def)

definition same_files :: "fs \<Rightarrow> fs \<Rightarrow> bool" where
  "same_files fs fs' \<longleftrightarrow> fs_dir fs' = fs_dir fs \<and> fs_next fs' = fs_next fs
     \<and> contents fs' = contents fs \<and> (whole_faults fs \<longrightarrow> whole_faults fs')"

lemma same_files_refl [simp]: "same_files fs fs"
  by (simp add: same_files_def)

lemma same_files_trans: "same_files a b \<Longrightarrow> same_files b c \<Longrightarrow> same_files a c"
  by (simp add: same_files_def)

lemma next_fault_same:
  assumes "next_fault fs = (x, fs')" shows "same_files fs fs'"
  using assms by (auto simp: same_files_def whole_faults_def next_fault_def split: list.splits)

lemma next_fault_whole:
  "next_fault fs = (Some (OsFault n e), fs') \<Longrightarrow> whole_faults fs \<Longrightarrow> n = 0"
  by (auto simp: next_fault_def whole_faults_def split: list.splits)

lemma os_MkdirAll_same: "os_MkdirAll p fs = (r, fs') \<Longrightarrow> same_files fs fs'"
  by (auto simp: os_MkdirAll_def dest: next_fault_same split: prod.splits option.splits os_fault.splits)

lemma os_Close_same: "os_Close f fs = (r, fs') \<Longrightarrow> same_files fs fs'"
  by (auto simp: os_Close_def dest: next_fault_same split: prod.splits option.splits os_fault.splits)

lemma os_Stat_same:
  "os_Stat f fs = (r, fs') \<Longrightarrow> same_files fs fs'"
  "os_Stat f fs = (Inr n, fs') \<Longrightarrow> n = int (length (contents fs (f_ino f)))"
  by (auto simp: os_Stat_def same_files_def dest!: next_fault_same
      split: prod.splits option.splits os_fault.splits)

lemma os_ReadAt_same:
  "os_ReadAt f n off fs = (r, fs') \<Longrightarrow> same_files fs fs'"
  "os_ReadAt f n off fs = ((got, None), fs') \<Longrightarrow> got = take n (drop off (contents fs (f_ino f)))"
  by (auto simp: os_ReadAt_def Let_def same_files_def dest!: next_fault_same
      split: prod.splits option.splits os_fault.splits)

lemma os_ReadAt_part:
  "os_ReadAt f n off fs = ((got, e), fs') \<Longrightarrow> \<exists>k. got = take k (drop off (contents fs (f_ino f)))"
  by (auto simp: os_ReadAt_def Let_def same_files_def dest!: next_fault_same
      split: prod.splits option.splits os_fault.splits)

text \<open>A removal changes the directory only.\<close>

lemma os_Remove_data:
  assumes "os_Remove p fs = (r, fs')"
  shows "contents fs' = contents fs" and "whole_faults fs \<Longrightarrow> whole_faults fs'"
    and "fs_next fs' = fs_next fs"
    and "map_of (fs_dir fs') q = Some j \<Longrightarrow> map_of (fs_dir fs) q = Some j"
  using assms
  by (auto simp: os_Remove_def same_files_def delete_conv'
      dest!: next_fault_same
      split: prod.splits option.splits os_fault.splits if_splits)

end
