(* ===== verification/Sync_Map.thy ===== *)
theory Sync_Map
  imports Prelude "HOL-Library.AList"
begin

section \<open>The bounded map: \<open>src/pkg/cache/syncmap.go\<close>\<close>

text \<open>
  Model of \<open>SyncMap\<close>. The Go map is an association list with distinct keys. Every method runs
  under the map's mutex from its first statement to its return, so a method is one atomic state
  transformer. Go leaves the iteration order of \<open>range\<close> unspecified: \<open>Set\<close> takes the order in which
  the eviction loop would visit the keys, and the theorems hold for every such order.

  The locale \<open>lossy_map\<close> is the contract the file cache relies on (a stored value is found until it
  is overwritten or evicted, and is never confused with another key's value); \<open>SyncMap\<close> is its
  interpretation.
\<close>

subsection \<open>Data and operations\<close>

definition defaultEvictionPercentage :: int64 where
  "defaultEvictionPercentage = 5"

record 'v SyncMap =
  mapObj :: "(string \<times> 'v) list"
  capacity :: int64
  evictionPercentage :: int64

definition Get :: "'v SyncMap \<Rightarrow> string \<Rightarrow> 'v option" where
  "Get sm key = map_of (mapObj sm) key"

definition numToEvict :: "'v SyncMap \<Rightarrow> int64" where
  "numToEvict sm =
     (let n = wrap64 (mul64 (int (length (mapObj sm))) (evictionPercentage sm) sdiv 100)
      in if n \<le> 1 then 1 else n)"

fun evict_loop :: "int64 \<Rightarrow> string list \<Rightarrow> int64 \<Rightarrow> (string \<times> 'v) list \<Rightarrow> (string \<times> 'v) list" where
  "evict_loop n [] numEvicted m = m"
| "evict_loop n (k # ks) numEvicted m =
     (let m' = AList.delete k m; e = add64 numEvicted 1
      in if e \<ge> n then m' else evict_loop n ks e m')"

definition Set_entry :: "string list \<Rightarrow> string \<Rightarrow> 'v \<Rightarrow> 'v SyncMap \<Rightarrow> 'v SyncMap" where
  "Set_entry ord key entry sm =
     (let m = (if map_of (mapObj sm) key = None \<and> int (length (mapObj sm)) \<ge> capacity sm
               then evict_loop (numToEvict sm) ord 0 (mapObj sm)
               else mapObj sm)
      in sm\<lparr>mapObj := AList.update key entry m\<rparr>)"

definition Delete :: "string \<Rightarrow> 'v SyncMap \<Rightarrow> 'v SyncMap" where
  "Delete key sm = sm\<lparr>mapObj := AList.delete key (mapObj sm)\<rparr>"

definition NewSyncMap :: "int64 \<Rightarrow> 'v SyncMap" where
  "NewSyncMap maxEntries =
     \<lparr>mapObj = [], capacity = (if maxEntries \<le> 0 then 1 else maxEntries),
      evictionPercentage = defaultEvictionPercentage\<rparr>"

subsection \<open>Well-formedness\<close>

definition range_order :: "'v SyncMap \<Rightarrow> string list \<Rightarrow> bool" where
  "range_order sm ord \<longleftrightarrow> distinct ord \<and> set ord = fst ` set (mapObj sm)"

definition syncmap_ok :: "'v SyncMap \<Rightarrow> bool" where
  "syncmap_ok sm \<longleftrightarrow> distinct (map fst (mapObj sm)) \<and> 1 \<le> capacity sm \<and> capacity sm \<le> 2 ^ 56
     \<and> evictionPercentage sm = 5 \<and> int (length (mapObj sm)) \<le> capacity sm"

lemma range_order_length: "distinct (map fst (mapObj sm)) \<Longrightarrow> range_order sm ord \<Longrightarrow>
    length ord = length (mapObj sm)"
  by (metis range_order_def distinct_card length_map list.set_map)

lemma numToEvict_ok:
  assumes "syncmap_ok sm"
  shows "numToEvict sm = max 1 (int (length (mapObj sm)) * 5 div 100)"
proof -
  let ?n = "int (length (mapObj sm))"
  have n: "?n \<le> 2 ^ 56" using assms by (simp add: syncmap_ok_def)
  then have n5: "in_int64 (?n * 5)" by (simp add: in_int64_def)
  have "in_int64 (?n * 5 div 100)"
    by (rule in_int64_nonneg_le [OF n5 _ div_int_le_self]) simp_all
  with n5 show ?thesis
    using assms by (simp add: numToEvict_def syncmap_ok_def mul64_def sdiv_nonneg Let_def max_def)
qed

text \<open>What the loop leaves: the entries whose key is not among the first \<open>n\<close> keys visited.\<close>

lemma evict_loop_eq:
  assumes "0 \<le> e" and "e < n" and "in_int64 n" and "nat (n - e) \<le> length ks"
  shows "evict_loop n ks e m = filter (\<lambda>(k, v). k \<notin> set (take (nat (n - e)) ks)) m"
  using assms
proof (induction ks arbitrary: e m)
  case Nil
  then show ?case by simp
next
  case (Cons k ks)
  have e: "add64 e 1 = e + 1"
    using Cons.prems(1-3) by (simp add: add64_def in_int64_def)
  have del: "AList.delete k m = filter (\<lambda>(k', v). k' \<noteq> k) m"
    by (auto simp: AList.delete_eq intro!: filter_cong)
  show ?case
  proof (cases "n \<le> e + 1")
    case True
    then have "nat (n - e) = Suc 0" using Cons.prems(2) by simp
    then show ?thesis using True by (simp add: e del Let_def)
  next
    case False
    then have "nat (n - e) = Suc (nat (n - (e + 1)))" by simp
    moreover have "evict_loop n ks (e + 1) (AList.delete k m) =
        filter (\<lambda>(k', v). k' \<notin> set (take (nat (n - (e + 1))) ks)) (AList.delete k m)"
      using Cons.prems False by (intro Cons.IH) auto
    ultimately show ?thesis
      using False by (auto simp: e del Let_def intro!: filter_cong)
  qed
qed


lemma length_filter_keys:
  "distinct (map fst m) \<Longrightarrow> distinct ks \<Longrightarrow> set ks \<subseteq> fst ` set m \<Longrightarrow>
    length (filter (\<lambda>(k, v). k \<notin> set ks) m) = length m - length ks"
proof -
  assume m: "distinct (map fst m)" and ks: "distinct ks" "set ks \<subseteq> fst ` set m"
  have "fst ` set (filter (\<lambda>(k, v). k \<in> set ks) m) = set ks" using ks(2) by force
  moreover have "distinct (map fst (filter (\<lambda>(k, v). k \<in> set ks) m))"
    using m by (simp add: distinct_map_filter)
  ultimately have "length (filter (\<lambda>(k, v). k \<in> set ks) m) = length ks"
    using ks(1) by (metis distinct_card length_map list.set_map)
  then show ?thesis
    using sum_length_filter_compl [of "\<lambda>(k, v). k \<in> set ks" m] by (simp add: case_prod_unfold)
qed

text \<open>The entries that survive an insertion of a new key into a full map.\<close>

definition kept :: "string list \<Rightarrow> 'v SyncMap \<Rightarrow> (string \<times> 'v) list" where
  "kept ord sm = filter (\<lambda>(k, v). k \<notin> set (take (nat (numToEvict sm)) ord)) (mapObj sm)"

lemma Set_entry_full:
  assumes ok: "syncmap_ok sm" and ord: "range_order sm ord"
    and "Get sm key = None" and full: "int (length (mapObj sm)) = capacity sm"
  shows "mapObj (Set_entry ord key entry sm) = AList.update key entry (kept ord sm)"
    and "length (kept ord sm) = length (mapObj sm) - nat (numToEvict sm)"
    and "nat (numToEvict sm) \<le> length (mapObj sm)"
proof -
  let ?n = "numToEvict sm"
  have len: "length ord = length (mapObj sm)"
    using ok ord by (simp add: range_order_length syncmap_ok_def)
  have n: "1 \<le> ?n" "?n \<le> int (length (mapObj sm))" "in_int64 ?n"
    using ok full by (auto simp: numToEvict_ok syncmap_ok_def in_int64_def)
  then show "nat ?n \<le> length (mapObj sm)" by linarith
  have "evict_loop ?n ord 0 (mapObj sm) = kept ord sm"
    using n len by (subst evict_loop_eq) (auto simp: kept_def)
  then show "mapObj (Set_entry ord key entry sm) = AList.update key entry (kept ord sm)"
    using assms(3) full by (simp add: Set_entry_def Get_def)
  have "distinct ord" and "set ord = fst ` set (mapObj sm)" using ord by (simp_all add: range_order_def)
  then have "distinct (take (nat ?n) ord)" and "set (take (nat ?n) ord) \<subseteq> fst ` set (mapObj sm)"
    using set_take_subset [of "nat ?n" ord] by auto
  moreover have "length (take (nat ?n) ord) = nat ?n" using n len by simp
  ultimately show "length (kept ord sm) = length (mapObj sm) - nat ?n"
    using ok length_filter_keys [of "mapObj sm"] by (simp add: kept_def syncmap_ok_def)
qed

lemma Set_entry_room:
  "Get sm key \<noteq> None \<or> int (length (mapObj sm)) < capacity sm \<Longrightarrow>
    mapObj (Set_entry ord key entry sm) = AList.update key entry (mapObj sm)"
  by (auto simp: Set_entry_def Get_def Let_def)

lemma Set_entry_frame [simp]:
  "capacity (Set_entry ord key entry sm) = capacity sm"
  "evictionPercentage (Set_entry ord key entry sm) = evictionPercentage sm"
  by (simp_all add: Set_entry_def Let_def)

lemma length_update_if:
  "length (AList.update k v m) = (if k \<in> fst ` set m then length m else Suc (length m))"
  by (induction m) auto

lemma syncmap_cases:
  assumes "syncmap_ok sm"
  obtains (full) "Get sm key = None" "int (length (mapObj sm)) = capacity sm"
    | (room) "Get sm key \<noteq> None \<or> int (length (mapObj sm)) < capacity sm"
  using assms by (force simp: syncmap_ok_def)

lemma Set_entry_ok:
  assumes "syncmap_ok sm" and "range_order sm ord"
  shows "syncmap_ok (Set_entry ord key entry sm)"
  using assms(1)
proof (cases rule: syncmap_cases [where key = key])
  case full
  note kept = Set_entry_full [OF assms full]
  have "0 < length (mapObj sm)" using full(2) assms(1) by (auto simp: syncmap_ok_def)
  moreover have "1 \<le> nat (numToEvict sm)" using assms(1) by (simp add: numToEvict_ok)
  ultimately have "length (kept ord sm) < length (mapObj sm)" unfolding kept(2) by linarith
  then have "length (AList.update key entry (kept ord sm)) \<le> length (mapObj sm)"
    by (simp add: length_update_if)
  moreover have "distinct (map fst (kept ord sm))"
    using assms(1) by (simp add: kept_def syncmap_ok_def distinct_map_filter)
  ultimately show ?thesis
    using assms(1) by (simp add: syncmap_ok_def kept(1) distinct_update)
next
  case room
  have "int (length (AList.update key entry (mapObj sm))) \<le> capacity sm"
    using room assms(1)
    by (auto simp: syncmap_ok_def Get_def map_of_eq_None_iff length_update_if)
  then show ?thesis
    using assms(1) by (simp add: syncmap_ok_def Set_entry_room [OF room] distinct_update)
qed

lemma Delete_ok: "syncmap_ok sm \<Longrightarrow> syncmap_ok (Delete key sm)"
  using length_delete_le [of key "mapObj sm"]
  by (simp add: syncmap_ok_def Delete_def distinct_delete)

lemma NewSyncMap_ok: "maxEntries \<le> 2 ^ 56 \<Longrightarrow> syncmap_ok (NewSyncMap maxEntries)"
  by (simp add: syncmap_ok_def NewSyncMap_def defaultEvictionPercentage_def)

subsection \<open>Lookups\<close>

lemma Get_Set_same: "Get (Set_entry ord key entry sm) key = Some entry"
  by (simp add: Get_def Set_entry_def update_conv' Let_def)

lemma map_of_filter_keys:
  "map_of (filter (\<lambda>(k, v). P k) m) x = (if P x then map_of m x else None)"
  by (induction m) auto

lemma Get_Set_other:
  assumes "syncmap_ok sm" and "range_order sm ord" and "k \<noteq> key"
  shows "Get (Set_entry ord key entry sm) k = None
    \<or> Get (Set_entry ord key entry sm) k = Get sm k"
  using assms(1)
proof (cases rule: syncmap_cases [where key = key])
  case full
  then show ?thesis
    using assms(3) map_of_filter_keys [of _ "mapObj sm" k]
    by (simp add: Get_def Set_entry_full(1) [OF assms(1,2) full] update_conv' kept_def)
next
  case room
  then show ?thesis using assms(3) by (simp add: Get_def Set_entry_room [OF room] update_conv')
qed

lemma Get_Set_other_room:
  assumes "k \<noteq> key" and "Get sm key \<noteq> None \<or> int (length (mapObj sm)) < capacity sm"
  shows "Get (Set_entry ord key entry sm) k = Get sm k"
  using assms(1) by (simp add: Get_def Set_entry_room [OF assms(2)] update_conv')

lemma evict_loop_map_of: "map_of (evict_loop n ks e m) k = Some v \<Longrightarrow> map_of m k = Some v"
proof (induction ks arbitrary: e m)
  case (Cons k' ks)
  then have "map_of (AList.delete k' m) k = Some v" by (auto simp: Let_def split: if_splits)
  then show ?case by (simp add: delete_conv' split: if_splits)
qed simp

text \<open>Whatever is evicted: what is found is the new entry or was there before.\<close>

lemma Get_Set_entry_cases:
  assumes "Get (Set_entry ord key entry sm) k = Some v"
  shows "(k = key \<and> v = entry) \<or> (k \<noteq> key \<and> Get sm k = Some v)"
  using assms by (auto simp: Get_def Set_entry_def Let_def update_conv' dest: evict_loop_map_of split: if_splits)

lemma Get_Delete: "Get (Delete key sm) k = (if k = key then None else Get sm k)"
  by (simp add: Get_def Delete_def delete_conv')

subsection \<open>The contract of a lossy map\<close>

text \<open>
  \<open>lookup\<close>, \<open>store\<close> and \<open>forget\<close> over a state with invariant \<open>invar\<close>; \<open>choice\<close> is what the
  implementation leaves open (here, the iteration order), restricted by \<open>allowed\<close>.
\<close>

locale lossy_map =
  fixes lookup :: "'m \<Rightarrow> string \<Rightarrow> 'v option"
    and store :: "'choice \<Rightarrow> string \<Rightarrow> 'v \<Rightarrow> 'm \<Rightarrow> 'm"
    and forget :: "string \<Rightarrow> 'm \<Rightarrow> 'm"
    and invar :: "'m \<Rightarrow> bool"
    and allowed :: "'m \<Rightarrow> 'choice \<Rightarrow> bool"
  assumes lookup_store: "invar m \<Longrightarrow> allowed m c \<Longrightarrow> lookup (store c k v m) k = Some v"
    and lookup_store_other: "invar m \<Longrightarrow> allowed m c \<Longrightarrow> k' \<noteq> k \<Longrightarrow>
      lookup (store c k v m) k' = None \<or> lookup (store c k v m) k' = lookup m k'"
    and lookup_forget: "invar m \<Longrightarrow> lookup (forget k m) k' = (if k' = k then None else lookup m k')"
    and invar_store: "invar m \<Longrightarrow> allowed m c \<Longrightarrow> invar (store c k v m)"
    and invar_forget: "invar m \<Longrightarrow> invar (forget k m)"
begin

text \<open>Runs of operations, newest first, and the value each key was last given.\<close>

inductive run :: "'m \<Rightarrow> (string \<times> 'v option) list \<Rightarrow> 'm \<Rightarrow> bool" where
  run_start: "invar m \<Longrightarrow> run m [] m"
| run_store: "run m ops m' \<Longrightarrow> allowed m' c \<Longrightarrow> run m ((k, Some v) # ops) (store c k v m')"
| run_forget: "run m ops m' \<Longrightarrow> run m ((k, None) # ops) (forget k m')"

fun last_value :: "'m \<Rightarrow> (string \<times> 'v option) list \<Rightarrow> string \<Rightarrow> 'v option" where
  "last_value m [] k = lookup m k"
| "last_value m ((k', v) # ops) k = (if k = k' then v else last_value m ops k)"

lemma run_invar: "run m ops m' \<Longrightarrow> invar m'"
  by (induction rule: run.induct) (auto intro: invar_store invar_forget)

lemma run_lookup: "run m ops m' \<Longrightarrow> lookup m' k = None \<or> lookup m' k = last_value m ops k"
proof (induction rule: run.induct)
  case (run_store m ops m' c k' v)
  then have inv: "invar m'" by (blast dest: run_invar)
  show ?case
    using run_store lookup_store [OF inv] lookup_store_other [OF inv, of c k k' v]
    by (cases "k = k'") auto
next
  case (run_forget m ops m' k')
  then show ?case using lookup_forget run_invar by (cases "k = k'") auto
qed simp

end

interpretation sm: lossy_map Get Set_entry Delete syncmap_ok range_order
  by unfold_locales (simp_all add: Get_Set_same Get_Set_other Get_Delete Set_entry_ok Delete_ok)

text \<open>
  C37: the capacity bound. A map made by \<open>NewSyncMap\<close> holds at least one and at most \<open>capacity\<close>
  entries' room, and after any sequence of \<open>Set\<close> and \<open>Delete\<close> calls, whatever order the eviction
  loop visits the keys in, the keys are distinct and the number of entries is at most the capacity.
\<close>

theorem syncmap_capacity_bound:
  assumes "sm.run (NewSyncMap maxEntries) ops sm" and "maxEntries \<le> 2 ^ 56"
  shows "int (length (mapObj sm)) \<le> capacity sm \<and> 1 \<le> capacity sm
    \<and> distinct (map fst (mapObj sm))"
  using sm.run_invar [OF assms(1)] by (simp add: syncmap_ok_def)

theorem syncmap_capacity_bound_witness:
  "int (length (mapObj (Set_entry [''a''] ''b'' (7::int) (Set_entry [] ''a'' 3 (NewSyncMap 1)))))
    \<le> capacity (Set_entry [''a''] ''b'' (7::int) (Set_entry [] ''a'' 3 (NewSyncMap 1)))"
proof -
  let ?m0 = "NewSyncMap 1 :: int SyncMap" and ?m1 = "Set_entry [] ''a'' 3 (NewSyncMap 1) :: int SyncMap"
  have "sm.run ?m0 [] ?m0" by (rule sm.run_start) (simp add: NewSyncMap_ok)
  then have "sm.run ?m0 [(''a'', Some 3)] ?m1"
    by (rule sm.run_store) (simp add: range_order_def NewSyncMap_def)
  then have "sm.run ?m0 [(''b'', Some 7), (''a'', Some 3)] (Set_entry [''a''] ''b'' 7 ?m1)"
    by (rule sm.run_store) (simp add: range_order_def NewSyncMap_def Set_entry_def)
  from syncmap_capacity_bound [OF this] show ?thesis by simp
qed

text \<open>
  Lookups are never wrong, only incomplete. After any sequence of \<open>Set\<close> and \<open>Delete\<close> calls, a
  key that \<open>Get\<close> finds has the value it was last given (a key may be missing, because it was
  evicted), and the key set last is found.
\<close>

theorem syncmap_get_last_value:
  assumes "sm.run (NewSyncMap maxEntries) ops sm" and "maxEntries \<le> 2 ^ 56"
    and "range_order sm ord"
  shows "(Get sm k = None \<or> Get sm k = sm.last_value (NewSyncMap maxEntries) ops k)
    \<and> Get (Set_entry ord k v sm) k = Some v"
  using sm.run_lookup [OF assms(1)] Get_Set_same by auto

theorem syncmap_get_last_value_witness:
  "Get (Set_entry [] ''a'' (3::int) (NewSyncMap 10)) ''a'' = None
    \<or> Get (Set_entry [] ''a'' (3::int) (NewSyncMap 10)) ''a'' = Some 3"
proof -
  let ?m0 = "NewSyncMap 10 :: int SyncMap" and ?m1 = "Set_entry [] ''a'' 3 (NewSyncMap 10) :: int SyncMap"
  have "sm.run ?m0 [] ?m0" by (rule sm.run_start) (simp add: NewSyncMap_ok)
  then have "sm.run ?m0 [(''a'', Some 3)] ?m1"
    by (rule sm.run_store) (simp add: range_order_def NewSyncMap_def)
  from syncmap_get_last_value [OF this, of "[''a'']" "''a''"] show ?thesis
    by (simp add: range_order_def NewSyncMap_def Set_entry_def)
qed

text \<open>
  How much is evicted. Inserting a new key into a full map removes exactly
  \<open>max 1 (n * 5 / 100)\<close> of its \<open>n\<close> entries; updating a key that is present, or inserting while there
  is room, removes none and leaves every other key's value as it was.
\<close>

theorem syncmap_eviction_count:
  assumes "syncmap_ok sm" and "range_order sm ord"
  shows "if Get sm key = None \<and> int (length (mapObj sm)) = capacity sm
    then int (length (mapObj (Set_entry ord key v sm)))
           = int (length (mapObj sm)) - max 1 (int (length (mapObj sm)) * 5 div 100) + 1
    else \<forall>k. Get (Set_entry ord key v sm) k = (if k = key then Some v else Get sm k)"
proof (cases "Get sm key = None \<and> int (length (mapObj sm)) = capacity sm")
  case True
  note full = Set_entry_full [OF assms conjunct1 [OF True] conjunct2 [OF True]]
  have "key \<notin> fst ` set (kept ord sm)"
    using True by (auto simp: kept_def Get_def map_of_eq_None_iff image_iff)
  then have "length (AList.update key v (kept ord sm)) = Suc (length (kept ord sm))"
    by (simp add: length_update_if)
  then show ?thesis
    using True full assms(1) by (simp add: numToEvict_ok le_max_iff_disj)
next
  case False
  then have "Get sm key \<noteq> None \<or> int (length (mapObj sm)) < capacity sm"
    using assms(1) by (auto simp: syncmap_ok_def)
  then show ?thesis using False by (auto simp: Get_Set_same Get_Set_other_room)
qed

theorem syncmap_eviction_count_witness:
  "int (length (mapObj (Set_entry [''a'', ''b''] ''c'' (0::int)
      \<lparr>mapObj = [(''a'', 1), (''b'', 2)], capacity = 2, evictionPercentage = 5\<rparr>))) = 2"
proof -
  let ?m = "\<lparr>mapObj = [(''a'', 1), (''b'', 2::int)], capacity = 2, evictionPercentage = 5\<rparr>"
  have "syncmap_ok ?m" and "range_order ?m [''a'', ''b'']"
    by (simp_all add: syncmap_ok_def range_order_def)
  from syncmap_eviction_count [OF this, of "''c''" 0] show ?thesis by (simp add: Get_def)
qed

end
