(* ===== verification/Go_Strings.thy ===== *)
theory Go_Strings
  imports Prelude "HOL-Library.Sublist"
begin

section \<open>The string and number routines of the Go library that peerd calls\<close>

text \<open>
  Executable models of the functions of \<open>strings\<close> and \<open>strconv\<close> used by the sources, on byte
  strings (\<^typ>\<open>string\<close>). \<open>ParseInt\<close> follows the library's left-to-right digit loop, with its order of
  syntax and range errors and the value it returns beside the error. The lemmas are the round trips
  and splitting laws on which the chunk keys rely.
\<close>

subsection \<open>Package strings\<close>

definition HasPrefix :: "string \<Rightarrow> string \<Rightarrow> bool" where
  "HasPrefix s p \<longleftrightarrow> take (length p) s = p"

definition TrimPrefix :: "string \<Rightarrow> string \<Rightarrow> string" where
  "TrimPrefix s p = (if HasPrefix s p then drop (length p) s else s)"

fun Contains :: "string \<Rightarrow> string \<Rightarrow> bool" where
  "Contains [] p = (p = [])"
| "Contains (c # s) p = (HasPrefix (c # s) p \<or> Contains s p)"

text \<open>\<open>strings.Split(s, sep)\<close> for a separator of one byte.\<close>

fun Split :: "string \<Rightarrow> char \<Rightarrow> string list" where
  "Split [] sep = [[]]"
| "Split (c # s) sep =
     (if c = sep then [] # Split s sep
      else (case Split s sep of [] \<Rightarrow> [[c]] | t # ts \<Rightarrow> (c # t) # ts))"

text \<open>\<open>strings.Cut(s, sep)\<close>: the parts before and after the first separator, and whether there is one.\<close>

fun Cut :: "string \<Rightarrow> char \<Rightarrow> string \<times> string \<times> bool" where
  "Cut [] sep = ([], [], False)"
| "Cut (c # s) sep =
     (if c = sep then ([], s, True)
      else (case Cut s sep of (before, after, found) \<Rightarrow> (c # before, after, found)))"

text \<open>\<open>strings.SplitAfterN(s, sep, 2)\<close>: the first part keeps its separator.\<close>

fun SplitAfter2 :: "string \<Rightarrow> char \<Rightarrow> string list" where
  "SplitAfter2 [] sep = [[]]"
| "SplitAfter2 (c # s) sep =
     (if c = sep then [[c], s]
      else (case SplitAfter2 s sep of [] \<Rightarrow> [[c]] | t # ts \<Rightarrow> (c # t) # ts))"

fun Join :: "string list \<Rightarrow> string \<Rightarrow> string" where
  "Join [] sep = []"
| "Join [s] sep = s"
| "Join (s # ss) sep = s @ sep @ Join ss sep"

text \<open>\<open>strings.LastIndexByte\<close>: \<open>None\<close> is the result \<open>-1\<close>.\<close>

fun LastIndexByte :: "string \<Rightarrow> char \<Rightarrow> nat option" where
  "LastIndexByte [] b = None"
| "LastIndexByte (c # s) b =
     (case LastIndexByte s b of Some i \<Rightarrow> Some (Suc i) | None \<Rightarrow> (if c = b then Some 0 else None))"

subsection \<open>Package strconv\<close>

definition digit_char :: "nat \<Rightarrow> char" where
  "digit_char d = char_of (48 + d)"

definition is_digit :: "char \<Rightarrow> bool" where
  "is_digit c \<longleftrightarrow> 48 \<le> (of_char c :: nat) \<and> (of_char c :: nat) \<le> 57"

definition digit_val :: "char \<Rightarrow> nat" where
  "digit_val c = of_char c - 48"

fun format_nat :: "nat \<Rightarrow> string" where
  "format_nat n = (if n < 10 then [digit_char n] else format_nat (n div 10) @ [digit_char (n mod 10)])"

definition FormatInt :: "int64 \<Rightarrow> string" where
  "FormatInt x = (if x < 0 then CHR ''-'' # format_nat (nat (- x)) else format_nat (nat x))"

fun parse_uint :: "nat \<Rightarrow> string \<Rightarrow> nat result" where
  "parse_uint n [] = Inr n"
| "parse_uint n (c # s) =
     (if \<not> is_digit c then Inl ErrSyntax
      else if n \<ge> (2 ^ 64 - 1) div 10 + 1 then Inl ErrRange
      else (let n1 = n * 10 + digit_val c
            in if n1 > 2 ^ 64 - 1 then Inl ErrRange else parse_uint n1 s))"

definition ParseInt_unsigned :: "bool \<Rightarrow> string \<Rightarrow> int64 \<times> go_error option" where
  "ParseInt_unsigned neg s =
     (let limit = (if neg then - (2 ^ 63) else 2 ^ 63 - 1) in
      if s = [] then (0, Some ErrSyntax)
      else (case parse_uint 0 s of
          Inl ErrRange \<Rightarrow> (limit, Some ErrRange)
        | Inl e \<Rightarrow> (0, Some e)
        | Inr un \<Rightarrow>
            if \<not> neg \<and> un \<ge> 2 ^ 63 then (2 ^ 63 - 1, Some ErrRange)
            else if neg \<and> un > 2 ^ 63 then (- (2 ^ 63), Some ErrRange)
            else (if neg then - int un else int un, None)))"

definition ParseInt :: "string \<Rightarrow> int64 \<times> go_error option" where
  "ParseInt s =
     (case s of
        [] \<Rightarrow> (0, Some ErrSyntax)
      | c # t \<Rightarrow> (if c = CHR ''+'' then ParseInt_unsigned False t
                else if c = CHR ''-'' then ParseInt_unsigned True t
                else ParseInt_unsigned False s))"

abbreviation Atoi :: "string \<Rightarrow> int64 \<times> go_error option" where
  "Atoi \<equiv> ParseInt"

subsection \<open>Package path\<close>

text \<open>
  \<open>path.Clean\<close> and \<open>path.Join\<close> (\<open>filepath\<close> is the same on Unix): empty and \<open>.\<close> segments go, a
  \<open>..\<close> removes the segment before it (and is dropped at the root).
\<close>

fun clean_segs :: "bool \<Rightarrow> string list \<Rightarrow> string list \<Rightarrow> string list" where
  "clean_segs rooted acc [] = rev acc"
| "clean_segs rooted acc (s # ss) =
     (if s = [] \<or> s = ''.'' then clean_segs rooted acc ss
      else if s = ''..'' then
        (case acc of
           [] \<Rightarrow> clean_segs rooted (if rooted then [] else [''..'']) ss
         | a # as \<Rightarrow> clean_segs rooted (if a = ''..'' then ''..'' # acc else as) ss)
      else clean_segs rooted (s # acc) ss)"

definition path_Clean :: "string \<Rightarrow> string" where
  "path_Clean p =
     (if p = [] then ''.''
      else (let rooted = (hd p = CHR ''/'');
                out = Join (clean_segs rooted [] (Split p CHR ''/'')) ''/''
            in if rooted then CHR ''/'' # out else if out = [] then ''.'' else out))"

definition path_Join :: "string list \<Rightarrow> string" where
  "path_Join elems =
     (case dropWhile (\<lambda>e. e = []) elems of [] \<Rightarrow> [] | es \<Rightarrow> path_Clean (Join es ''/''))"

subsection \<open>Splitting laws\<close>

lemma Split_nonempty [simp]: "Split s sep \<noteq> []"
  by (induction s sep rule: Split.induct) (auto split: list.splits)

lemma Split_no_sep: "sep \<notin> set s \<Longrightarrow> Split s sep = [s]"
  by (induction s) auto

lemma Split_append: "sep \<notin> set a \<Longrightarrow> Split (a @ sep # b) sep = a # Split b sep"
  by (induction a) auto

lemma Split_parts_no_sep: "t \<in> set (Split s sep) \<Longrightarrow> sep \<notin> set t"
proof (induction s arbitrary: t)
  case (Cons c s)
  then show ?case by (cases "Split s sep") (auto split: if_splits)
qed simp

lemma Split_Join: "Join (Split s sep) [sep] = s"
proof (induction s)
  case (Cons c s)
  obtain t ts where "Split s sep = t # ts" by (cases "Split s sep") simp_all
  with Cons show ?case by (cases ts) auto
qed simp

lemma Split_2_iff: "Split s sep = [a, b] \<longleftrightarrow> s = a @ sep # b \<and> sep \<notin> set a \<and> sep \<notin> set b"
proof
  assume *: "Split s sep = [a, b]"
  then have "sep \<notin> set a" and "sep \<notin> set b" using Split_parts_no_sep [of _ s sep] by auto
  then show "s = a @ sep # b \<and> sep \<notin> set a \<and> sep \<notin> set b"
    using Split_Join [of s sep] * by simp
qed (simp add: Split_append Split_no_sep)

lemma Split_append_sep: "Split (a @ sep # b) sep = Split a sep @ Split b sep"
proof (induction a)
  case (Cons c a)
  obtain t ts where "Split a sep = t # ts" by (cases "Split a sep") simp_all
  with Cons show ?case by simp
qed simp

lemma Split_Join_id: "ss \<noteq> [] \<Longrightarrow> (\<And>t. t \<in> set ss \<Longrightarrow> sep \<notin> set t) \<Longrightarrow> Split (Join ss [sep]) sep = ss"
proof (induction ss "[sep]" rule: Join.induct)
  case (3 s t ts)
  then show ?case by (simp add: Split_append_sep Split_no_sep)
qed (simp_all add: Split_no_sep)

lemma Join_inj:
  assumes "Join ss [sep] = Join ts [sep]" and "ss \<noteq> []" and "ts \<noteq> []"
    and "\<And>t. t \<in> set ss \<union> set ts \<Longrightarrow> sep \<notin> set t"
  shows "ss = ts"
proof -
  have "Split (Join ss [sep]) sep = ss" by (rule Split_Join_id [OF assms(2)], rule assms(4)) simp
  moreover have "Split (Join ts [sep]) sep = ts" by (rule Split_Join_id [OF assms(3)], rule assms(4)) simp
  ultimately show ?thesis by (metis assms(1))
qed

lemma Join_Nil: "Join ss sep = [] \<Longrightarrow> t \<in> set ss \<Longrightarrow> t = []"
  by (induction ss sep rule: Join.induct) auto

text \<open>A path segment that \<open>Clean\<close> leaves alone.\<close>

definition plain_seg :: "string \<Rightarrow> bool" where
  "plain_seg s \<longleftrightarrow> s \<noteq> [] \<and> s \<noteq> ''.'' \<and> s \<noteq> ''..'' \<and> CHR ''/'' \<notin> set s"

lemma clean_segs_plain: "list_all plain_seg ys \<Longrightarrow> clean_segs r acc ys = rev acc @ ys"
  by (induction ys arbitrary: acc) (auto simp: plain_seg_def)

lemma clean_segs_append_plain:
  "list_all plain_seg ys \<Longrightarrow> clean_segs r acc (xs @ ys) = clean_segs r acc xs @ ys"
  by (induction r acc xs rule: clean_segs.induct) (auto simp: clean_segs_plain split: list.splits)

lemma clean_segs_no_sep:
  "t \<in> set (clean_segs r acc xs) \<Longrightarrow> (\<And>s. s \<in> set acc \<union> set xs \<Longrightarrow> CHR ''/'' \<notin> set s) \<Longrightarrow>
    CHR ''/'' \<notin> set t"
  by (induction r acc xs rule: clean_segs.induct) (auto split: if_splits list.splits)

lemma Join_hd: "ss \<noteq> [] \<Longrightarrow> hd ss \<noteq> [] \<Longrightarrow> Join ss sep \<noteq> [] \<and> hd (Join ss sep) = hd (hd ss)"
  by (induction ss sep rule: Join.induct) auto

lemma path_Join_plain:
  assumes "list_all plain_seg (a # ss)"
  shows "path_Join (a # ss) = Join (a # ss) ''/''"
proof -
  have ne: "dropWhile (\<lambda>e. e = []) (a # ss) = a # ss" using assms by (simp add: plain_seg_def)
  have sp: "Split (Join (a # ss) ''/'') CHR ''/'' = a # ss"
    using assms by (intro Split_Join_id) (auto simp: list_all_iff plain_seg_def)
  have hd: "Join (a # ss) ''/'' \<noteq> [] \<and> hd (Join (a # ss) ''/'') \<noteq> CHR ''/''"
    using Join_hd [of "a # ss" "''/''"] assms by (cases a) (auto simp: plain_seg_def)
  show ?thesis
    unfolding path_Join_def path_Clean_def ne using clean_segs_plain [OF assms] hd
    by (simp add: sp Let_def del: Join.simps clean_segs.simps)
qed

lemma path_Join_3:
  assumes "p \<noteq> []" and "list_all plain_seg [a, b]"
  shows "path_Join [p, a, b] =
    (let r = (hd p = CHR ''/''); segs = clean_segs r [] (Split p CHR ''/'') @ [a, b]
     in if r then CHR ''/'' # Join segs ''/'' else Join segs ''/'')"
proof -
  have ab: "a \<noteq> []" "CHR ''/'' \<notin> set a" "CHR ''/'' \<notin> set b" using assms(2) by (simp_all add: plain_seg_def)
  have "Split (p @ CHR ''/'' # a @ CHR ''/'' # b) CHR ''/'' = Split p CHR ''/'' @ [a, b]"
    using ab by (simp add: Split_append_sep Split_no_sep)
  moreover have "Join (clean_segs r [] (Split p CHR ''/'') @ [a, b]) ''/'' \<noteq> []" for r
    using ab(1) Join_Nil [of "clean_segs r [] (Split p CHR ''/'') @ [a, b]" "''/''" a] by auto
  ultimately show ?thesis
    using assms by (simp add: path_Join_def path_Clean_def clean_segs_append_plain hd_append Let_def)
qed

lemma path_Join_3_inj:
  assumes "path_Join [p, a, b] = path_Join [p, a', b']" and "p \<noteq> []"
    and "list_all plain_seg [a, b]" and "list_all plain_seg [a', b']"
  shows "a = a' \<and> b = b'"
proof -
  let ?r = "hd p = CHR ''/''"
  let ?s = "clean_segs ?r [] (Split p CHR ''/'')"
  have "Join (?s @ [a, b]) ''/'' = Join (?s @ [a', b']) ''/''"
    using assms(1) unfolding path_Join_3 [OF assms(2,3)] path_Join_3 [OF assms(2,4)]
    by (auto simp: Let_def split: if_splits)
  moreover have "CHR ''/'' \<notin> set t" if "t \<in> set ?s" for t
    using clean_segs_no_sep [OF that] Split_parts_no_sep [of _ p "CHR ''/''"] by auto
  ultimately have "?s @ [a, b] = ?s @ [a', b']"
    using assms(3,4) by (intro Join_inj [of _ "CHR ''/''"]) (auto simp: plain_seg_def)
  then show ?thesis by simp
qed

subsection \<open>Numbers\<close>

declare format_nat.simps [simp del]

lemma of_digit_char: "d < 10 \<Longrightarrow> (of_char (digit_char d) :: nat) = 48 + d"
  by (simp add: digit_char_def)

lemma is_digit_digit_char [simp]: "d < 10 \<Longrightarrow> is_digit (digit_char d)"
  by (simp add: is_digit_def of_digit_char)

lemma digit_val_digit_char [simp]: "d < 10 \<Longrightarrow> digit_val (digit_char d) = d"
  by (simp add: digit_val_def of_digit_char)

lemma digit_val_less: "is_digit c \<Longrightarrow> digit_val c < 10"
  by (auto simp: is_digit_def digit_val_def)

lemma format_nat_digits: "\<forall>c \<in> set (format_nat n). is_digit c"
proof (induction n rule: format_nat.induct)
  case (1 n)
  then show ?case by (subst format_nat.simps) auto
qed

lemma format_nat_nonempty [simp]: "format_nat n \<noteq> []"
  by (subst format_nat.simps) simp

lemma parse_uint_append:
  "parse_uint n (s @ t) = (case parse_uint n s of Inl e \<Rightarrow> Inl e | Inr m \<Rightarrow> parse_uint m t)"
  by (induction s arbitrary: n) (auto simp: Let_def)

lemma parse_uint_format_nat: "n < 2 ^ 64 \<Longrightarrow> parse_uint 0 (format_nat n) = Inr n"
proof (induction n rule: format_nat.induct)
  case (1 n)
  show ?case
  proof (cases "n < 10")
    case True
    then show ?thesis by (subst format_nat.simps) simp
  next
    case False
    have "parse_uint 0 (format_nat (n div 10)) = Inr (n div 10)"
      using "1.IH" "1.prems" False by simp
    moreover have "n div 10 < (2 ^ 64 - 1) div 10 + 1"
      using "1.prems" by (simp add: less_Suc_eq_le div_le_mono)
    moreover have "n div 10 * 10 + n mod 10 = n" by simp
    ultimately show ?thesis
      using False "1.prems" by (subst format_nat.simps) (simp add: parse_uint_append)
  qed
qed

lemma format_nat_Cons:
  assumes "format_nat n = c # s" shows "is_digit c"
  using format_nat_digits [of n] assms by simp

lemma not_digit_sign: "\<not> is_digit CHR ''+''" "\<not> is_digit CHR ''-''" "\<not> is_digit CHR ''_''"
  by (simp_all add: is_digit_def)

lemma ParseInt_format_nat: "n < 2 ^ 63 \<Longrightarrow> ParseInt (format_nat n) = (int n, None)"
proof -
  assume n: "n < 2 ^ 63"
  obtain c s where cs: "format_nat n = c # s" by (cases "format_nat n") simp_all
  then have "c \<noteq> CHR ''+''" and "c \<noteq> CHR ''-''"
    using format_nat_Cons [OF cs] not_digit_sign by auto
  then have "ParseInt (format_nat n) = ParseInt_unsigned False (format_nat n)"
    by (simp add: ParseInt_def cs)
  then show ?thesis
    using n by (simp add: ParseInt_unsigned_def parse_uint_format_nat)
qed

lemma ParseInt_FormatInt: "in_int64 x \<Longrightarrow> ParseInt (FormatInt x) = (x, None)"
proof (cases "x < 0")
  case True
  moreover assume "in_int64 x"
  ultimately have "nat (- x) \<le> 2 ^ 63" by (simp add: in_int64_def)
  then show ?thesis
    using True by (simp add: FormatInt_def ParseInt_def ParseInt_unsigned_def parse_uint_format_nat)
next
  case False
  moreover assume "in_int64 x"
  ultimately have "nat x < 2 ^ 63" by (simp add: in_int64_def)
  then show ?thesis using False by (simp add: FormatInt_def ParseInt_format_nat)
qed

lemma FormatInt_no_sep: "CHR ''_'' \<notin> set (FormatInt x)"
  using format_nat_digits not_digit_sign(3) by (auto simp: FormatInt_def)

lemma FormatInt_plain: "plain_seg (FormatInt x)"
proof -
  have d: "is_digit c \<or> c = CHR ''-''" if "c \<in> set (FormatInt x)" for c
    using that format_nat_digits by (auto simp: FormatInt_def split: if_splits)
  have "FormatInt x \<noteq> []" by (simp add: FormatInt_def)
  moreover have "\<not> is_digit CHR ''.''" and "\<not> is_digit CHR ''/''" by (simp_all add: is_digit_def)
  ultimately show ?thesis using d by (force simp: plain_seg_def)
qed

lemma FormatInt_inj: "in_int64 x \<Longrightarrow> in_int64 y \<Longrightarrow> FormatInt x = FormatInt y \<Longrightarrow> x = y"
  by (metis ParseInt_FormatInt prod.inject)

lemma ParseInt_in_int64: "in_int64 (fst (ParseInt s))"
  by (auto simp: ParseInt_def ParseInt_unsigned_def Let_def in_int64_def
      split: list.splits sum.splits go_error.splits)

text \<open>A number written without a minus sign parses to a non-negative value.\<close>

lemma ParseInt_nonneg: "CHR ''-'' \<notin> set s \<Longrightarrow> 0 \<le> fst (ParseInt s)"
  by (auto simp: ParseInt_def ParseInt_unsigned_def Let_def
      split: list.splits sum.splits go_error.splits)

subsection \<open>Evaluation\<close>

text \<open>Code equations that compare with the limits of the integer types on \<^typ>\<open>int\<close>, not on unary naturals.\<close>

lemma nat_le_int: "(2 ^ k \<le> n) = (2 ^ k \<le> int n)" "(2 ^ k < n) = (2 ^ k < int n)"
  by (metis of_nat_le_iff of_nat_numeral of_nat_power, metis of_nat_less_iff of_nat_numeral of_nat_power)

lemma parse_uint_code [code]:
  "parse_uint n [] = Inr n"
  "parse_uint n (c # s) =
     (if \<not> is_digit c then Inl ErrSyntax
      else if int n \<ge> 1844674407370955162 then Inl ErrRange
      else (let n1 = n * 10 + digit_val c
            in if int n1 > 18446744073709551615 then Inl ErrRange else parse_uint n1 s))"
  by (simp_all add: Let_def)

lemma ParseInt_unsigned_code [code]:
  "ParseInt_unsigned neg s =
     (let limit = (if neg then - (2 ^ 63) else 2 ^ 63 - 1) in
      if s = [] then (0, Some ErrSyntax)
      else (case parse_uint 0 s of
          Inl ErrRange \<Rightarrow> (limit, Some ErrRange)
        | Inl e \<Rightarrow> (0, Some e)
        | Inr un \<Rightarrow>
            if \<not> neg \<and> int un \<ge> 2 ^ 63 then (2 ^ 63 - 1, Some ErrRange)
            else if neg \<and> int un > 2 ^ 63 then (- (2 ^ 63), Some ErrRange)
            else (if neg then - int un else int un, None)))"
  unfolding ParseInt_unsigned_def nat_le_int by (rule refl)

end
