(* ===== verification/Cache_Interface.thy ===== *)
theory Cache_Interface
  imports Go_Strings
begin

section \<open>The cache interface: \<open>src/pkg/cache/interface.go\<close>\<close>

text \<open>
  The Go interface \<open>Cache\<close> as a record of its methods over a cache state \<open>'c\<close> and the world \<open>'w\<close> on
  which fetch functions act, and the contract that the files store relies on as the locale
  \<open>chunk_cache\<close>: whatever is served was fetched for this chunk, and sizes are those that were put.
  The file cache of \<open>filecache.go\<close> is its interpretation.
\<close>

type_synonym 'w fetcher = "'w \<Rightarrow> (bytes result \<times> 'w) outcome"

record ('c, 'w) Cache =
  cm_Size :: "string \<Rightarrow> 'c \<Rightarrow> int64 \<times> bool"
  cm_PutSize :: "string \<Rightarrow> int64 \<Rightarrow> 'c \<Rightarrow> bool \<times> 'c"
  cm_Exists :: "string \<Rightarrow> int64 \<Rightarrow> 'c \<Rightarrow> bool \<times> 'c"
  cm_GetOrCreate :: "string \<Rightarrow> int64 \<Rightarrow> int64 \<Rightarrow> 'w fetcher \<Rightarrow> 'c \<Rightarrow> 'w \<Rightarrow>
    ((bytes \<times> go_error option) \<times> 'c \<times> 'w) outcome"

text \<open>A fetch function that returns \<open>b\<close> whenever it returns data.\<close>

definition fetch_ok :: "bytes \<Rightarrow> 'w fetcher \<Rightarrow> bool" where
  "fetch_ok b fetch \<longleftrightarrow> (\<forall>w b' w'. fetch w = Ret (Inr b', w') \<longrightarrow> b' = b)"

text \<open>
  \<open>inv E L c\<close>: in the state \<open>c\<close> the cache holds nothing but chunks \<open>E n x\<close> and sizes \<open>L n\<close>.
\<close>

locale chunk_cache =
  fixes ops :: "('c, 'w) Cache"
    and inv :: "(string \<Rightarrow> int64 \<Rightarrow> bytes) \<Rightarrow> (string \<Rightarrow> int64) \<Rightarrow> 'c \<Rightarrow> bool"
  assumes size_inv: "inv E L c \<Longrightarrow> plain_seg n \<Longrightarrow> cm_Size ops n c = (v, True) \<Longrightarrow> v = L n"
    and put_inv: "inv E L c \<Longrightarrow> plain_seg n \<Longrightarrow> cm_PutSize ops n (L n) c = (r, c') \<Longrightarrow> inv E L c'"
    and exists_inv: "inv E L c \<Longrightarrow> cm_Exists ops n x c = (r, c') \<Longrightarrow> inv E L c'"
    and get_inv: "inv E L c \<Longrightarrow> plain_seg n \<Longrightarrow> in_int64 x \<Longrightarrow> fetch_ok (E n x) fetch \<Longrightarrow>
      cm_GetOrCreate ops n x count fetch c w = Ret (res, c', w') \<Longrightarrow> inv E L c'"
    and get_chunk: "inv E L c \<Longrightarrow> plain_seg n \<Longrightarrow> in_int64 x \<Longrightarrow> fetch_ok (E n x) fetch \<Longrightarrow>
      cm_GetOrCreate ops n x (int (length (E n x))) fetch c w = Ret ((b, None), c', w') \<Longrightarrow> b = E n x"
    and get_length: "cm_GetOrCreate ops n x count fetch c w = Ret ((b, None), c', w') \<Longrightarrow> int (length b) = count"
    and get_world: "cm_GetOrCreate ops n x count fetch c w = Ret (res, c', w') \<Longrightarrow>
      w' = w \<or> (\<exists>got. fetch w = Ret (got, w'))"
begin

text \<open>A read with a fetch for its own chunk keeps the contract and serves the chunk.\<close>

lemma get_step:
  assumes "inv E L c" and "plain_seg n" and "in_int64 x" and "fetch_ok (E n x) fetch"
    and "count = int (length (E n x))" and "cm_GetOrCreate ops n x count fetch c w = Ret ((b, err), c', w')"
  shows "inv E L c' \<and> (err = None \<longrightarrow> b = E n x)"
  using get_inv [OF assms(1-4,6)] get_chunk [OF assms(1-4)] assms(5,6) by blast

end

end
