(* ===== verification/File_Cache.thy ===== *)
theory File_Cache
  imports File_System Sync_Map Cache_Interface
begin

section \<open>The chunk cache: \<open>src/pkg/cache/item.go\<close> and \<open>filecache.go\<close>\<close>

text \<open>
  A cached chunk is an \<open>item\<close>: an open file under the cache directory. Items are heap objects, held
  by the ristretto cache and by the goroutines that use them, so the state keeps them in a table by
  identity and the ristretto cache stores identities. Ristretto is a third-party package: its \<open>Get\<close>
  and \<open>Set\<close> are fields of the cache object, and what \<open>fileCache\<close> relies on is the predicate
  \<open>ristretto_ok\<close> (a value that is found was set for that key). \<open>Set\<close> reports the identities on which
  ristretto calls \<open>OnExit\<close> while the caller waits.

  \<open>GetOrCreate\<close> runs under the lock of the cache or of the item except in four windows: between the
  first lookup and the lock of the cache, before the first \<open>Stat\<close>, between the read and the write lock
  of the item, and between the fill and the final read. Its first argument lists what other goroutines
  do in each window: ristretto evicts an item, another call fills an item (the same or any other one)
  under its lock, or creates one under the lock of the cache. Everything else is one sequential step.

  The lemmas show that a successful call never returns a slice of the wrong length, that a hit does
  not call \<open>fetch\<close>, that a chunk that is returned is the chunk that was fetched for its key (under
  the condition that no write transfers a part of its data and then fails), whatever other calls do
  in the windows, and what happens where this condition does not hold.
\<close>

subsection \<open>Items\<close>

record item =
  item_key :: string
  item_file :: "osFile option"

record 'c ristretto =
  rc_state :: 'c
  rc_get :: "string \<Rightarrow> 'c \<Rightarrow> nat option \<times> 'c"
  rc_set :: "string \<Rightarrow> nat \<Rightarrow> 'c \<Rightarrow> bool \<times> nat list \<times> 'c"

record 'c fileCache =
  fc_cache :: "'c ristretto"
  fc_meta :: "int64 SyncMap"
  fc_path :: string
  fc_items :: "(nat \<times> item) list"
  fc_next :: nat
  fc_fs :: fs
  fc_fdCnt :: int

definition wrap32 :: "int \<Rightarrow> int" where
  "wrap32 x = (x + 2 ^ 31) mod 2 ^ 32 - 2 ^ 31"

definition get_item :: "'c fileCache \<Rightarrow> nat \<Rightarrow> item" where
  "get_item c ref = (case map_of (fc_items c) ref of Some it \<Rightarrow> it | None \<Rightarrow> \<lparr>item_key = [], item_file = None\<rparr>)"

definition put_item :: "nat \<Rightarrow> item \<Rightarrow> 'c fileCache \<Rightarrow> 'c fileCache" where
  "put_item ref it c = c\<lparr>fc_items := AList.update ref it (fc_items c)\<rparr>"

text \<open>A nil \<open>*os.File\<close>: \<open>Name\<close> dereferences it, \<open>Stat\<close> returns \<open>os.ErrInvalid\<close>.\<close>

definition file_Stat :: "osFile option \<Rightarrow> fs \<Rightarrow> int64 result \<times> fs" where
  "file_Stat fo fs = (case fo of None \<Rightarrow> (Inl (OsError ''invalid argument''), fs) | Some f \<Rightarrow> os_Stat f fs)"

definition drop_item :: "nat \<Rightarrow> 'c fileCache \<Rightarrow> 'c fileCache outcome" where
  "drop_item ref c =
     (case item_file (get_item c ref) of
        None \<Rightarrow> Panic NilDeref
      | Some f \<Rightarrow>
          (let c = c\<lparr>fc_fdCnt := wrap32 (fc_fdCnt c - 1)\<rparr>;
               fs1 = snd (os_Close f (fc_fs c));
               fs2 = snd (os_Remove (f_name f) fs1)
           in Ret (put_item ref ((get_item c ref)\<lparr>item_file := None\<rparr>) (c\<lparr>fc_fs := fs2\<rparr>))))"

function read_loop :: "osFile \<Rightarrow> nat \<Rightarrow> bytes \<Rightarrow> fs \<Rightarrow> (bytes \<times> go_error option) \<times> fs" where
  "read_loop f fileSize b fs =
     (if length b < fileSize
      then (case os_ReadAt f (fileSize - length b) (length b) fs of
              ((got, None), fs') \<Rightarrow> read_loop f fileSize (b @ got) fs'
            | ((got, Some e), fs') \<Rightarrow> ((b @ got, Some e), fs'))
      else ((b, None), fs))"
  by pat_completeness auto
termination
  by (relation "measure (\<lambda>(f, n, b, fs). n - length b)") (auto dest!: os_ReadAt_full [OF sym])

definition readFromStart :: "osFile option \<Rightarrow> fs \<Rightarrow> bytes result \<times> fs" where
  "readFromStart fo fs =
     (case file_Stat fo fs of
        (Inl e, fs1) \<Rightarrow> (Inl e, fs1)
      | (Inr fileSize, fs1) \<Rightarrow>
          (case fo of
             None \<Rightarrow> (Inl (OsError ''invalid argument''), fs1)
           | Some f \<Rightarrow>
               (case read_loop f (nat fileSize) [] fs1 of
                  ((b, err), fs2) \<Rightarrow>
                    (case (if err = Some EOF then None else err) of
                       Some e \<Rightarrow> (Inl e, fs2)
                     | None \<Rightarrow> if int (length b) \<noteq> fileSize then (Inl ErrUnexpectedEOF, fs2)
                               else (Inr b, fs2)))))"

definition item_bytes :: "item \<Rightarrow> fs \<Rightarrow> (bytes \<times> fs) outcome" where
  "item_bytes it fs =
     (case readFromStart (item_file it) fs of
        (Inr b, fs') \<Rightarrow> Ret (b, fs')
      | (Inl e, fs') \<Rightarrow> (if item_file it = None then Panic NilDeref else Ret ([], fs')))"

definition writeAll :: "osFile \<Rightarrow> bytes \<Rightarrow> fs \<Rightarrow> (int64 \<times> go_error option) \<times> osFile \<times> fs" where
  "writeAll f buff fs =
     (case os_Truncate0 f fs of
        (Some e, fs1) \<Rightarrow> ((0, Some e), f, fs1)
      | (None, fs1) \<Rightarrow> os_Write f buff fs1)"

definition fill :: "nat \<Rightarrow> 'w fetcher \<Rightarrow> 'c fileCache \<Rightarrow> 'w \<Rightarrow>
    ((int64 \<times> go_error option) \<times> 'c fileCache \<times> 'w) outcome" where
  "fill ref fetch c w =
     obind (fetch w) (\<lambda>(res, w').
       case item_file (get_item c ref) of
         None \<Rightarrow> Panic NilDeref
       | Some f \<Rightarrow>
           (case res of
              Inl e \<Rightarrow> Ret ((0, Some e), c\<lparr>fc_fs := snd (os_Remove (f_name f) (fc_fs c))\<rparr>, w')
            | Inr buffer \<Rightarrow>
                (case writeAll f buffer (fc_fs c) of
                   ((n, Some e), f', fs') \<Rightarrow>
                     Ret ((0, Some e),
                       put_item ref ((get_item c ref)\<lparr>item_file := Some f'\<rparr>)
                         (c\<lparr>fc_fs := snd (os_Remove (f_name f) fs')\<rparr>), w')
                 | ((n, None), f', fs') \<Rightarrow>
                     Ret ((n, None),
                       put_item ref ((get_item c ref)\<lparr>item_file := Some f'\<rparr>) (c\<lparr>fc_fs := fs'\<rparr>), w'))))"

definition newItem :: "string \<Rightarrow> 'c fileCache \<Rightarrow> nat result \<times> 'c fileCache" where
  "newItem key c =
     (case os_MkdirAll key (fc_fs c) of
        (Some e, fs1) \<Rightarrow> (Inl e, c\<lparr>fc_fs := fs1\<rparr>)
      | (None, fs1) \<Rightarrow>
          (let c = c\<lparr>fc_fdCnt := wrap32 (fc_fdCnt c + 1)\<rparr>
           in case os_OpenFile key fs1 of
                (Inl e, fs2) \<Rightarrow> (Inl e, c\<lparr>fc_fs := fs2\<rparr>)
              | (Inr f, fs2) \<Rightarrow>
                  (Inr (fc_next c),
                   put_item (fc_next c) \<lparr>item_key = key, item_file = Some f\<rparr>
                     (c\<lparr>fc_fs := fs2, fc_next := Suc (fc_next c)\<rparr>))))"

subsection \<open>The cache\<close>

definition cache_Get :: "string \<Rightarrow> 'c fileCache \<Rightarrow> nat option \<times> 'c fileCache" where
  "cache_Get key c =
     (case rc_get (fc_cache c) key (rc_state (fc_cache c)) of
        (v, s') \<Rightarrow> (v, c\<lparr>fc_cache := (fc_cache c)\<lparr>rc_state := s'\<rparr>\<rparr>))"

definition cache_Set :: "string \<Rightarrow> nat \<Rightarrow> 'c fileCache \<Rightarrow> bool \<times> nat list \<times> 'c fileCache" where
  "cache_Set key ref c =
     (case rc_set (fc_cache c) key ref (rc_state (fc_cache c)) of
        (ok, ev, s') \<Rightarrow> (ok, ev, c\<lparr>fc_cache := (fc_cache c)\<lparr>rc_state := s'\<rparr>\<rparr>))"

fun on_exit :: "nat list \<Rightarrow> 'c fileCache \<Rightarrow> 'c fileCache outcome" where
  "on_exit [] c = Ret c"
| "on_exit (ref # ids) c = obind (drop_item ref c) (on_exit ids)"

definition getKey :: "'c fileCache \<Rightarrow> string \<Rightarrow> int64 \<Rightarrow> string" where
  "getKey c name offset = path_Join [fc_path c, name, FormatInt offset]"

definition Exists :: "string \<Rightarrow> int64 \<Rightarrow> 'c fileCache \<Rightarrow> bool \<times> 'c fileCache" where
  "Exists name offset c =
     (case cache_Get (getKey c name offset) c of
        (None, c1) \<Rightarrow> (False, c1)
      | (Some ref, c1) \<Rightarrow>
          (case file_Stat (item_file (get_item c1 ref)) (fc_fs c1) of
             (Inl e, fs') \<Rightarrow> (False, c1\<lparr>fc_fs := fs'\<rparr>)
           | (Inr n, fs') \<Rightarrow> (n > 0, c1\<lparr>fc_fs := fs'\<rparr>)))"

text \<open>The section under the lock of the cache: a second lookup, and a new item when there is none.\<close>

definition create_item :: "string \<Rightarrow> 'c fileCache \<Rightarrow> (nat result \<times> 'c fileCache) outcome" where
  "create_item key c =
     (case cache_Get key c of
        (Some ref, c1) \<Rightarrow> Ret (Inr ref, c1)
      | (None, c1) \<Rightarrow>
          (case newItem key c1 of
             (Inl e, c2) \<Rightarrow> Ret (Inl e, c2)
           | (Inr ref, c2) \<Rightarrow>
               (case cache_Set key ref c2 of
                  (ok, ev, c3) \<Rightarrow>
                    obind (on_exit ev c3) (\<lambda>c4. Ret (if ok then Inr ref else Inl ErrUnexpectedEOF, c4)))))"

text \<open>The section under the write lock of the item: a second \<open>Stat\<close>, and the fill when it is still needed.\<close>

definition refill :: "nat \<Rightarrow> int64 \<Rightarrow> 'w fetcher \<Rightarrow> 'c fileCache \<Rightarrow> 'w \<Rightarrow> (go_error option \<times> 'c fileCache \<times> 'w) outcome" where
  "refill ref count fetch c w =
     (case file_Stat (item_file (get_item c ref)) (fc_fs c) of
        (Inl e, fs1) \<Rightarrow> Ret (Some e, c\<lparr>fc_fs := fs1\<rparr>, w)
      | (Inr size2, fs1) \<Rightarrow>
          if size2 \<noteq> count
          then obind (fill ref fetch (c\<lparr>fc_fs := fs1\<rparr>) w) (\<lambda>((n, err), c2, w').
            Ret (case err of
                   Some e \<Rightarrow> Some e
                 | None \<Rightarrow> if n \<noteq> count then Some (Errorf ''fill did not retrieve expected number of bytes'') else None, c2, w'))
          else Ret (None, c\<lparr>fc_fs := fs1\<rparr>, w))"

text \<open>
  What other goroutines do in a window: an eviction, the fill section of a call for a chunk of which
  its fetch returns \<open>res\<close>, or the creation section of a call.
\<close>

datatype gap_step = Evict nat | Fill nat string int64 int64 "bytes result" | Create string int64

fun gap_run :: "gap_step list \<Rightarrow> 'c fileCache \<Rightarrow> 'c fileCache outcome" where
  "gap_run [] c = Ret c"
| "gap_run (Evict ref # gs) c = obind (drop_item ref c) (gap_run gs)"
| "gap_run (Fill ref n x count res # gs) c =
     (if map_option item_key (map_of (fc_items c) ref) = Some (getKey c n x)
      then obind (refill ref count (\<lambda>w. Ret (res, w)) c ()) (\<lambda>(err, c', _). gap_run gs c')
      else gap_run gs c)"
| "gap_run (Create n x # gs) c = obind (create_item (getKey c n x) c) (\<lambda>(r, c'). gap_run gs c')"

type_synonym gaps = "gap_step list \<times> gap_step list \<times> gap_step list \<times> gap_step list"

definition lookup_or_create :: "gap_step list \<Rightarrow> string \<Rightarrow> 'c fileCache \<Rightarrow> (nat result \<times> 'c fileCache) outcome" where
  "lookup_or_create gap key c =
     (case cache_Get key c of
        (Some ref, c1) \<Rightarrow> Ret (Inr ref, c1)
      | (None, c1) \<Rightarrow> obind (gap_run gap c1) (create_item key))"

definition finish_read :: "nat \<Rightarrow> int64 \<Rightarrow> 'c fileCache \<Rightarrow> 'w \<Rightarrow>
    ((bytes \<times> go_error option) \<times> 'c fileCache \<times> 'w) outcome" where
  "finish_read ref count c w =
     obind (item_bytes (get_item c ref) (fc_fs c)) (\<lambda>(res, fs').
       Ret ((res, if int (length res) \<noteq> count
                  then Some (Errorf ''bytes did not retrieve expected number of bytes'') else None),
            c\<lparr>fc_fs := fs'\<rparr>, w))"

definition load_item :: "gap_step list \<times> gap_step list \<Rightarrow> nat \<Rightarrow> int64 \<Rightarrow> 'w fetcher \<Rightarrow>
    'c fileCache \<Rightarrow> 'w \<Rightarrow> ((bytes \<times> go_error option) \<times> 'c fileCache \<times> 'w) outcome" where
  "load_item gaps ref count fetch c w =
     (case file_Stat (item_file (get_item c ref)) (fc_fs c) of
        (Inl e, fs1) \<Rightarrow> Ret (([], Some e), c\<lparr>fc_fs := fs1\<rparr>, w)
      | (Inr size1, fs1) \<Rightarrow>
          if size1 = count then finish_read ref count (c\<lparr>fc_fs := fs1\<rparr>) w
          else obind (gap_run (fst gaps) (c\<lparr>fc_fs := fs1\<rparr>)) (\<lambda>c2.
            obind (refill ref count fetch c2 w) (\<lambda>(err, c3, w').
              case err of
                Some e \<Rightarrow> Ret (([], Some e), c3, w')
              | None \<Rightarrow> obind (gap_run (snd gaps) c3) (\<lambda>c4. finish_read ref count c4 w'))))"

definition GetOrCreate :: "gaps \<Rightarrow> string \<Rightarrow> int64 \<Rightarrow> int64 \<Rightarrow> 'w fetcher \<Rightarrow> 'c fileCache \<Rightarrow> 'w \<Rightarrow>
    ((bytes \<times> go_error option) \<times> 'c fileCache \<times> 'w) outcome" where
  "GetOrCreate gaps name alignedOffset count fetch c w =
     (case gaps of (gap0, gap1, gaps2) \<Rightarrow>
       obind (lookup_or_create gap0 (getKey c name alignedOffset) c) (\<lambda>(r, c1).
         case r of
           Inl e \<Rightarrow> Ret (([], Some e), c1, w)
         | Inr ref \<Rightarrow> obind (gap_run gap1 c1) (\<lambda>c2. load_item gaps2 ref count fetch c2 w)))"

definition metaKey :: "string \<Rightarrow> string" where
  "metaKey name = path_Join [name, ''metainfo'']"

definition Size :: "'c fileCache \<Rightarrow> string \<Rightarrow> int64 \<times> bool" where
  "Size c name = (case Get (fc_meta c) (metaKey name) of None \<Rightarrow> (0, False) | Some v \<Rightarrow> (v, True))"

definition PutSize :: "string list \<Rightarrow> string \<Rightarrow> int64 \<Rightarrow> 'c fileCache \<Rightarrow> bool \<times> 'c fileCache" where
  "PutSize ord name len c = (True, c\<lparr>fc_meta := Set_entry ord (metaKey name) len (fc_meta c)\<rparr>)"

definition cache_Path :: string where
  "cache_Path = ''/tmp/distribution/peerd/cache''"

definition New_cache :: "'c ristretto \<Rightarrow> fs \<Rightarrow> 'c fileCache option" where
  "New_cache rc fs =
     (case os_MkdirAll cache_Path fs of
        (Some e, fs') \<Rightarrow> None
      | (None, fs') \<Rightarrow> Some \<lparr>fc_cache = rc, fc_meta = NewSyncMap 10000000, fc_path = cache_Path,
                              fc_items = [], fc_next = 0, fc_fs = fs', fc_fdCnt = 0\<rparr>)"

declare read_loop.simps [simp del]

subsection \<open>A concrete ristretto\<close>

text \<open>
  The cache with the smallest behaviour ristretto may show and that the hypotheses allow: every
  \<open>Set\<close> is accepted and nothing is evicted. It instantiates the parameter in the examples.
\<close>

definition keep_all :: "(string \<times> nat) list ristretto" where
  "keep_all = \<lparr>rc_state = [], rc_get = (\<lambda>k s. (map_of s k, s)), rc_set = (\<lambda>k v s. (True, [], (k, v) # s))\<rparr>"

definition empty_fs :: "os_fault option list \<Rightarrow> fs" where
  "empty_fs faults = \<lparr>fs_dir = [], fs_data = [], fs_next = 0, fs_faults = faults\<rparr>"

definition empty_cache :: "os_fault option list \<Rightarrow> (string \<times> nat) list fileCache" where
  "empty_cache faults = \<lparr>fc_cache = keep_all, fc_meta = NewSyncMap 10000000, fc_path = cache_Path,
     fc_items = [], fc_next = 0, fc_fs = empty_fs faults, fc_fdCnt = 0\<rparr>"

lemma New_cache_keep_all: "New_cache keep_all (empty_fs []) = Some (empty_cache [])"
  by (simp add: New_cache_def empty_cache_def empty_fs_def os_MkdirAll_def)

text \<open>A cache with one item, for chunk 0 of the file \<open>d\<close>: its contents and the file's write offset.\<close>

definition one_item :: "bytes \<Rightarrow> nat \<Rightarrow> (string \<times> nat) list fileCache" where
  "one_item b pos =
     (let key = cache_Path @ ''/d/0''
      in (empty_cache [])\<lparr>fc_cache := keep_all\<lparr>rc_state := [(key, 0)]\<rparr>,
           fc_items := [(0, \<lparr>item_key = key, item_file = Some \<lparr>f_name = key, f_ino = (key, 0), f_pos = pos\<rparr>\<rparr>)],
           fc_next := 1,
           fc_fs := \<lparr>fs_dir = [(key, (key, 0))], fs_data = [((key, 0), b)], fs_next = 1, fs_faults = []\<rparr>\<rparr>)"

lemma one_item_key: "getKey (one_item b pos) ''d'' 0 = cache_Path @ ''/d/0''"
proof -
  have "path_Join [cache_Path, ''d'', FormatInt 0] = cache_Path @ ''/d/0''" by code_simp
  then show ?thesis by (simp add: getKey_def one_item_def empty_cache_def Let_def)
qed

definition fetch_78 :: "unit fetcher" where
  "fetch_78 w = Ret (Inr [7, 8], w)"

lemma first_get: "\<exists>c'. GetOrCreate ([], [], [], []) ''d'' 0 2 fetch_78 (empty_cache []) () = Ret (([7, 8], None), c', ())"
proof -
  have "result_of (GetOrCreate ([], [], [], []) ''d'' 0 2 fetch_78 (empty_cache []) ()) = Some ([7, 8], None)"
    by code_simp
  then show ?thesis by (auto dest: result_ofD)
qed

subsection \<open>Lengths\<close>

lemma finish_read_length:
  "finish_read ref count c w = Ret ((b, None), c', w') \<Longrightarrow> int (length b) = count"
  by (auto simp: finish_read_def split: prod.splits if_splits)

lemma load_item_length:
  "load_item gaps ref count fetch c w = Ret ((b, None), c', w') \<Longrightarrow> int (length b) = count"
  by (auto simp: load_item_def dest!: finish_read_length split: prod.splits sum.splits if_splits option.splits)

text \<open>
  \<open>GetOrCreate\<close> never succeeds with a slice of the wrong length, whatever the file system, the
  ristretto cache, the evictions and the fetch function do.
\<close>

theorem GetOrCreate_length:
  assumes "GetOrCreate gaps name off count fetch c w = Ret ((b, None), c', w')"
  shows "int (length b) = count"
  using assms
  by (auto simp: GetOrCreate_def dest!: load_item_length split: prod.splits sum.splits)

theorem GetOrCreate_length_witness:
  "\<exists>c'. GetOrCreate ([], [], [], []) ''d'' 0 2 fetch_78 (empty_cache []) () = Ret (([7, 8], None), c', ())
    \<and> int (length [7 :: byte, 8]) = 2"
proof -
  obtain c' where g: "GetOrCreate ([], [], [], []) ''d'' 0 2 fetch_78 (empty_cache []) () = Ret (([7, 8], None), c', ())"
    using first_get by blast
  then show ?thesis using GetOrCreate_length [OF g] by blast
qed

subsection \<open>Distinct chunks have distinct files\<close>

lemma getKey_inj:
  assumes "fc_path c \<noteq> []" and "plain_seg n" and "plain_seg n'" and "in_int64 x" and "in_int64 y"
    and "getKey c n x = getKey c n' y"
  shows "n = n' \<and> x = y"
  using path_Join_3_inj [of "fc_path c" n "FormatInt x" n' "FormatInt y"] assms FormatInt_plain
    FormatInt_inj [of x y] by (simp add: getKey_def)

text \<open>
  Two chunks share a cache key (and so a file on disk) only if they are the same chunk: the key
  of a chunk determines its file name and offset, for names that are a single plain path segment,
  as digests are.
\<close>

theorem getKey_injective:
  assumes "fc_path c = cache_Path" and "plain_seg n" and "plain_seg n'"
    and "in_int64 x" and "in_int64 y"
  shows "getKey c n x = getKey c n' y \<longleftrightarrow> n = n' \<and> x = y"
  using getKey_inj [of c n n' x y] assms by (auto simp: cache_Path_def)

theorem getKey_injective_witness:
  "fc_path (empty_cache []) = cache_Path \<and> plain_seg ''d1'' \<and> plain_seg ''d2'' \<and> in_int64 0 \<and> in_int64 1048576
   \<and> (getKey (empty_cache []) ''d1'' 0 = getKey (empty_cache []) ''d2'' 1048576 \<longleftrightarrow> ''d1'' = ''d2'' \<and> (0 :: int64) = 1048576)"
  using getKey_injective [of "empty_cache []" "''d1''" "''d2''" 0 1048576]
  by (simp add: empty_cache_def plain_seg_def in_int64_def)

subsection \<open>Coherence\<close>

text \<open>
  \<open>E n x\<close> is the content that chunk \<open>x\<close> of file \<open>n\<close> has at its origin. A file system is coherent when
  every inode of a chunk that has the chunk's length has the chunk's content (an inode of another
  length is an unfinished or spoilt one, and \<open>GetOrCreate\<close> does not serve it).
\<close>

definition coherent_fs :: "(string \<Rightarrow> int64 \<Rightarrow> bytes) \<Rightarrow> string \<Rightarrow> fs \<Rightarrow> bool" where
  "coherent_fs E path fs \<longleftrightarrow> whole_faults fs
     \<and> (\<forall>p i. map_of (fs_dir fs) p = Some i \<longrightarrow> fst i = p)
     \<and> (\<forall>i n x. plain_seg n \<longrightarrow> in_int64 x \<longrightarrow> fst i = path_Join [path, n, FormatInt x] \<longrightarrow>
          length (contents fs i) = length (E n x) \<longrightarrow> contents fs i = E n x)"

text \<open>What ristretto promises: a value that is found under a key was set under this key.\<close>

definition ristretto_ok :: "'c ristretto \<Rightarrow> ('c \<Rightarrow> (string \<times> nat) set) \<Rightarrow> bool" where
  "ristretto_ok rc holds \<longleftrightarrow>
     (\<forall>k s v s'. rc_get rc k s = (Some v, s') \<longrightarrow> (k, v) \<in> holds s)
     \<and> (\<forall>k s v s'. rc_get rc k s = (v, s') \<longrightarrow> holds s' \<subseteq> holds s)
     \<and> (\<forall>k v s ok ev s'. rc_set rc k v s = (ok, ev, s') \<longrightarrow> holds s' \<subseteq> insert (k, v) (holds s))"

definition coherent_items :: "'c fileCache \<Rightarrow> bool" where
  "coherent_items c \<longleftrightarrow>
     (\<forall>ref it. map_of (fc_items c) ref = Some it \<longrightarrow> ref < fc_next c
        \<and> (\<forall>f. item_file it = Some f \<longrightarrow> f_name f = item_key it \<and> fst (f_ino f) = item_key it))"

definition known :: "'c fileCache \<Rightarrow> string \<Rightarrow> nat \<Rightarrow> bool" where
  "known c key ref \<longleftrightarrow> (\<exists>it. map_of (fc_items c) ref = Some it \<and> item_key it = key)"

definition cache_ok :: "(string \<Rightarrow> int64 \<Rightarrow> bytes) \<Rightarrow> 'c fileCache \<Rightarrow> bool" where
  "cache_ok E c \<longleftrightarrow> fc_path c \<noteq> [] \<and> coherent_fs E (fc_path c) (fc_fs c) \<and> coherent_items c
     \<and> (\<exists>holds. ristretto_ok (fc_cache c) holds
          \<and> (\<forall>k ref. (k, ref) \<in> holds (rc_state (fc_cache c)) \<longrightarrow> known c k ref))"

text \<open>The relation every step keeps: the same cache object, metadata and path, and items keep their key.\<close>

definition cache_step :: "'c fileCache \<Rightarrow> 'c fileCache \<Rightarrow> bool" where
  "cache_step c c' \<longleftrightarrow> fc_path c' = fc_path c \<and> fc_cache c' = fc_cache c \<and> fc_meta c' = fc_meta c
     \<and> (\<forall>k ref. known c k ref \<longrightarrow> known c' k ref)"

lemma cache_step_refl [simp]: "cache_step c c"
  by (simp add: cache_step_def)

lemma cache_step_trans: "cache_step a b \<Longrightarrow> cache_step b c \<Longrightarrow> cache_step a c"
  by (simp add: cache_step_def)

definition core_ok :: "(string \<Rightarrow> int64 \<Rightarrow> bytes) \<Rightarrow> 'c fileCache \<Rightarrow> bool" where
  "core_ok E c \<longleftrightarrow> fc_path c \<noteq> [] \<and> coherent_fs E (fc_path c) (fc_fs c) \<and> coherent_items c"

lemma cache_ok_step:
  assumes "cache_ok E c" and "cache_step c c'" and "core_ok E c'"
  shows "cache_ok E c'"
  using assms unfolding cache_ok_def cache_step_def core_ok_def by metis

lemma cache_ok_core: "cache_ok E c \<Longrightarrow> core_ok E c"
  by (simp add: cache_ok_def core_ok_def)

lemma coherent_fs_same: "coherent_fs E path fs \<Longrightarrow> same_files fs fs' \<Longrightarrow> coherent_fs E path fs'"
  by (simp add: coherent_fs_def same_files_def)

lemma coherent_fsD:
  "coherent_fs E path fs \<Longrightarrow> fst i = path_Join [path, n, FormatInt x] \<Longrightarrow> plain_seg n \<Longrightarrow> in_int64 x \<Longrightarrow>
    length (contents fs i) = length (E n x) \<Longrightarrow> contents fs i = E n x"
  unfolding coherent_fs_def by blast

lemma coherent_fs_Remove:
  assumes "coherent_fs E path fs" and "os_Remove p fs = (r, fs')"
  shows "coherent_fs E path fs'"
  using assms(1) os_Remove_data [OF assms(2)] by (simp add: coherent_fs_def)

lemma core_ok_fs:
  assumes "core_ok E c" and "coherent_fs E (fc_path c) fs'"
  shows "core_ok E (c\<lparr>fc_fs := fs'\<rparr>)" and "cache_step c (c\<lparr>fc_fs := fs'\<rparr>)"
  using assms by (simp_all add: core_ok_def cache_step_def coherent_items_def known_def)

subsubsection \<open>Reading\<close>

lemma read_loop_prefix:
  assumes "read_loop f n b fs = ((r, e), fs')" and "prefix b (contents fs (f_ino f))"
  shows "prefix r (contents fs (f_ino f)) \<and> same_files fs fs'"
  using assms
proof (induction f n b fs arbitrary: r e fs' rule: read_loop.induct)
  case (1 f n b fs)
  show ?case
  proof (cases "length b < n")
    case False
    then show ?thesis using "1.prems" by (simp add: read_loop.simps)
  next
    case True
    obtain got err fs1 where rd: "os_ReadAt f (n - length b) (length b) fs = ((got, err), fs1)"
      by (metis prod.exhaust)
    obtain k where "got = take k (drop (length b) (contents fs (f_ino f)))"
      using os_ReadAt_part [OF rd] by blast
    then have pre: "prefix (b @ got) (contents fs (f_ino f))"
      using "1.prems"(2) by (auto simp: prefix_def) (metis append_take_drop_id)
    have same: "same_files fs fs1" using rd by (rule os_ReadAt_same(1))
    show ?thesis
    proof (cases err)
      case None
      have "read_loop f n (b @ got) fs1 = ((r, e), fs')"
        using "1.prems"(1) True by (simp add: read_loop.simps [of f n b] rd None)
      then show ?thesis
        using "1.IH" [OF True rd [symmetric] _ None] pre same
        by (auto simp: same_files_def)
    next
      case (Some x)
      then show ?thesis
        using "1.prems"(1) True pre same by (auto simp: read_loop.simps [of f n b] rd)
    qed
  qed
qed

lemma file_Stat_Some [simp]: "file_Stat (Some f) fs = os_Stat f fs"
  by (simp add: file_Stat_def)

lemma file_Stat_same: "file_Stat fo fs = (r, fs') \<Longrightarrow> same_files fs fs'"
  by (auto simp: file_Stat_def dest: os_Stat_same(1) split: option.splits)

lemma readFromStart_same: "readFromStart fo fs = (r, fs') \<Longrightarrow> same_files fs fs'"
  by (auto simp: readFromStart_def dest!: os_Stat_same(1) file_Stat_same read_loop_prefix intro: same_files_trans
      split: prod.splits sum.splits option.splits if_splits)

lemma readFromStart_Inr:
  assumes "readFromStart fo fs = (Inr b, fs')"
  obtains f where "fo = Some f" and "b = contents fs (f_ino f)"
proof -
  obtain f n fs1 e fs2 where f: "fo = Some f" and st: "os_Stat f fs = (Inr n, fs1)"
    and rd: "read_loop f (nat n) [] fs1 = ((b, e), fs2)" and len: "int (length b) = n"
    using assms
    by (auto simp: readFromStart_def file_Stat_def split: prod.splits sum.splits option.splits if_splits)
  have "contents fs1 = contents fs" using os_Stat_same(1) [OF st] by (simp add: same_files_def)
  then have "prefix b (contents fs (f_ino f))" using read_loop_prefix [OF rd] by simp
  moreover have "length b = length (contents fs (f_ino f))" using len os_Stat_same(2) [OF st] by simp
  ultimately have "b = contents fs (f_ino f)" by (auto simp: prefix_def)
  with f show ?thesis by (rule that)
qed

lemma finish_read_ok:
  assumes "finish_read ref count c w = Ret ((b, err), c', w')" and "core_ok E c"
  shows "core_ok E c' \<and> cache_step c c'"
    and "err = None \<Longrightarrow> known c (getKey c n x) ref \<Longrightarrow> plain_seg n \<Longrightarrow> in_int64 x \<Longrightarrow>
      count = int (length (E n x)) \<Longrightarrow> b = E n x"
proof -
  obtain fs' where rd: "item_bytes (get_item c ref) (fc_fs c) = Ret (b, fs')"
    and c': "c' = c\<lparr>fc_fs := fs'\<rparr>" and err: "err = None \<Longrightarrow> int (length b) = count"
    using assms(1) by (auto simp: finish_read_def split: prod.splits if_splits)
  have "same_files (fc_fs c) fs'"
    using rd by (auto simp: item_bytes_def dest: readFromStart_same split: prod.splits sum.splits if_splits)
  then have "coherent_fs E (fc_path c) fs'"
    using assms(2) by (auto simp: core_ok_def intro: coherent_fs_same)
  then show "core_ok E c' \<and> cache_step c c'" using assms(2) core_ok_fs c' by blast
  assume ok: "err = None" and kn: "known c (getKey c n x) ref" and n: "plain_seg n" "in_int64 x"
    and count: "count = int (length (E n x))"
  have len: "length b = length (E n x)" using err [OF ok] count by simp
  show "b = E n x"
  proof (cases "b = []")
    case True
    then show ?thesis using len by simp
  next
    case False
    then obtain fs2 where "readFromStart (item_file (get_item c ref)) (fc_fs c) = (Inr b, fs2)"
      using rd by (auto simp: item_bytes_def split: prod.splits sum.splits if_splits)
    then obtain f where f: "item_file (get_item c ref) = Some f" "b = contents (fc_fs c) (f_ino f)"
      by (rule readFromStart_Inr)
    then have "fst (f_ino f) = getKey c n x"
      using kn assms(2) by (auto simp: known_def core_ok_def coherent_items_def get_item_def)
    then show ?thesis
      using assms(2) n len f(2) by (auto simp: core_ok_def getKey_def intro: coherent_fsD)
  qed
qed

subsubsection \<open>Writing\<close>

lemma coherent_fs_set:
  assumes "coherent_fs E path fs"
    and "\<And>n x. plain_seg n \<Longrightarrow> in_int64 x \<Longrightarrow> fst i = path_Join [path, n, FormatInt x] \<Longrightarrow>
      length b = length (E n x) \<Longrightarrow> b = E n x"
  shows "coherent_fs E path (set_contents i b fs)"
  using assms unfolding coherent_fs_def by (auto simp del: split_paired_All)

lemma coherent_fs_set_Nil: "coherent_fs E path fs \<Longrightarrow> coherent_fs E path (set_contents i [] fs)"
  by (rule coherent_fs_set) simp_all

lemma key_inj:
  assumes "path_Join [path, n, FormatInt x] = path_Join [path, n', FormatInt y]" and "path \<noteq> []"
    and "plain_seg n" and "plain_seg n'" and "in_int64 x" and "in_int64 y"
  shows "n' = n \<and> y = x"
  using path_Join_3_inj [OF assms(1,2)] assms FormatInt_plain FormatInt_inj by simp

lemma writeAll_ok:
  assumes wr: "writeAll f (E n x) fs = ((k, e), f', fs')" and co: "coherent_fs E path fs"
    and path: "path \<noteq> []" and f: "fst (f_ino f) = path_Join [path, n, FormatInt x]"
    and n: "plain_seg n" "in_int64 x"
  shows "coherent_fs E path fs' \<and> f_name f' = f_name f \<and> f_ino f' = f_ino f"
proof -
  obtain r fs1 where tr: "os_Truncate0 f fs = (r, fs1)" by (cases "os_Truncate0 f fs")
  have co1: "coherent_fs E path fs1"
    using tr co by (auto simp: os_Truncate0_def dest!: next_fault_same intro: coherent_fs_same coherent_fs_set_Nil
        split: prod.splits option.splits os_fault.splits)
  show ?thesis
  proof (cases r)
    case (Some err)
    then show ?thesis using wr tr co1 by (simp add: writeAll_def)
  next
    case None
    obtain fault fs2 where nf: "next_fault fs1 = (fault, fs2)" by (cases "next_fault fs1")
    have same: "same_files fs1 fs2" using nf by (rule next_fault_same)
    have "contents fs1 (f_ino f) = []"
      using tr None by (auto simp: os_Truncate0_def split: prod.splits option.splits os_fault.splits)
    then have empty: "contents fs2 (f_ino f) = []" using same by (simp add: same_files_def)
    define buf where "buf = (case fault of None \<Rightarrow> E n x | Some (OsFault m err) \<Rightarrow> take m (E n x))"
    have buf: "buf = E n x \<or> buf = []"
      using nf co1 next_fault_whole [of fs1]
      by (auto simp: buf_def coherent_fs_def split: option.splits os_fault.splits)
    have fs': "fs' = set_contents (f_ino f) (write_at (f_pos f) buf []) fs2"
      and f': "f_name f' = f_name f" "f_ino f' = f_ino f"
      using wr tr None nf empty by (auto simp: writeAll_def os_Write_def Let_def buf_def)
    have "coherent_fs E path fs'"
      unfolding fs'
    proof (rule coherent_fs_set)
      show "coherent_fs E path fs2" using co1 same by (rule coherent_fs_same)
      fix n' y assume *: "plain_seg n'" "in_int64 y" "fst (f_ino f) = path_Join [path, n', FormatInt y]"
        "length (write_at (f_pos f) buf []) = length (E n' y)"
      have "path_Join [path, n, FormatInt x] = path_Join [path, n', FormatInt y]" using *(3) f by metis
      then have "n' = n \<and> y = x" using path n(1) *(1) n(2) *(2) by (rule key_inj)
      then show "write_at (f_pos f) buf [] = E n' y"
        using *(4) buf by (auto simp: write_at_empty split: if_splits)
    qed
    then show ?thesis using f' by simp
  qed
qed

lemma get_item_known: "known c key ref \<Longrightarrow> map_of (fc_items c) ref = Some (get_item c ref) \<and> item_key (get_item c ref) = key"
  by (auto simp: known_def get_item_def)

lemma put_item_ok:
  assumes "core_ok E c" and "known c key ref" and "item_key it = key"
    and "\<And>f. item_file it = Some f \<Longrightarrow> f_name f = key \<and> fst (f_ino f) = key"
  shows "core_ok E (put_item ref it c) \<and> cache_step c (put_item ref it c)"
  using assms
  by (auto simp: core_ok_def put_item_def coherent_items_def cache_step_def known_def update_conv')

lemma item_file_ok:
  "core_ok E c \<Longrightarrow> known c key ref \<Longrightarrow> item_file (get_item c ref) = Some f \<Longrightarrow>
    f_name f = key \<and> fst (f_ino f) = key"
  using get_item_known [of c key ref] by (auto simp: core_ok_def coherent_items_def)

lemma drop_item_ok:
  assumes "core_ok E c" and "drop_item ref c = Ret c'"
  shows "core_ok E c' \<and> cache_step c c'"
proof -
  obtain f where f: "item_file (get_item c ref) = Some f"
    using assms(2) by (auto simp: drop_item_def split: option.splits)
  obtain r1 fs1 where cl: "os_Close f (fc_fs c) = (r1, fs1)" by (cases "os_Close f (fc_fs c)")
  obtain r2 fs2 where rm: "os_Remove (f_name f) fs1 = (r2, fs2)" by (cases "os_Remove (f_name f) fs1")
  let ?c1 = "c\<lparr>fc_fdCnt := wrap32 (fc_fdCnt c - 1), fc_fs := fs2\<rparr>"
  have "known c (item_key (get_item c ref)) ref"
    using f by (auto simp: known_def get_item_def split: option.splits)
  then have kn: "known ?c1 (item_key (get_item c ref)) ref" by (simp add: known_def)
  have "coherent_fs E (fc_path c) fs2"
    using assms(1) os_Close_same [OF cl] rm by (auto simp: core_ok_def intro: coherent_fs_same coherent_fs_Remove)
  then have "core_ok E ?c1" using assms(1) by (simp add: core_ok_def coherent_items_def)
  moreover have "cache_step c ?c1" by (simp add: cache_step_def known_def)
  moreover have "c' = put_item ref ((get_item c ref)\<lparr>item_file := None\<rparr>) ?c1"
    using assms(2) f cl rm by (simp add: drop_item_def get_item_def)
  ultimately show ?thesis
    using put_item_ok [OF _ kn, of E "(get_item c ref)\<lparr>item_file := None\<rparr>"] by (auto intro: cache_step_trans)
qed

lemma on_exit_ok:
  assumes "core_ok E c" and "on_exit refs c = Ret c'"
  shows "core_ok E c' \<and> cache_step c c'"
  using assms
proof (induction refs arbitrary: c)
  case (Cons ref refs)
  from Cons.prems(2) obtain c1 where c1: "drop_item ref c = Ret c1" "on_exit refs c1 = Ret c'" by auto
  note step = drop_item_ok [OF Cons.prems(1) c1(1)]
  then show ?case using Cons.IH [OF _ c1(2)] by (blast intro: cache_step_trans)
qed simp

subsubsection \<open>Creating, filling and loading\<close>

lemma os_OpenFile_ok:
  assumes "os_OpenFile p fs = (r, fs')" and "coherent_fs E path fs"
  shows "coherent_fs E path fs'" and "r = Inr f \<Longrightarrow> f_name f = p \<and> fst (f_ino f) = p"
proof -
  obtain x fs1 where nf: "next_fault fs = (x, fs1)" by (cases "next_fault fs")
  have co: "coherent_fs E path fs1" using assms(2) next_fault_same [OF nf] by (rule coherent_fs_same)
  have dir: "fst i = p" if "map_of (fs_dir fs1) p = Some i" for i
    using co that unfolding coherent_fs_def by blast
  have new: "coherent_fs E path (set_contents (p, k) [] (fs1\<lparr>fs_dir := AList.update p (p, k) (fs_dir fs1), fs_next := m\<rparr>))"
    for k m
  proof (rule coherent_fs_set_Nil)
    show "coherent_fs E path (fs1\<lparr>fs_dir := AList.update p (p, k) (fs_dir fs1), fs_next := m\<rparr>)"
      using co by (auto simp: coherent_fs_def update_conv' contents_def whole_faults_def)
  qed
  show "coherent_fs E path fs'"
    using assms(1) nf co new
    by (auto simp: os_OpenFile_def Let_def split: option.splits os_fault.splits)
  show "r = Inr f \<Longrightarrow> f_name f = p \<and> fst (f_ino f) = p"
    using assms(1) nf dir by (auto simp: os_OpenFile_def Let_def split: option.splits os_fault.splits)
qed

lemma newItem_ok:
  assumes "core_ok E c" and "newItem key c = (r, c')"
  shows "core_ok E c' \<and> cache_step c c'" and "r = Inr ref \<Longrightarrow> known c' key ref"
proof -
  obtain m fs1 where mk: "os_MkdirAll key (fc_fs c) = (m, fs1)" by (cases "os_MkdirAll key (fc_fs c)")
  obtain ro fs2 where op: "os_OpenFile key fs1 = (ro, fs2)" by (cases "os_OpenFile key fs1")
  have co1: "coherent_fs E (fc_path c) fs1"
    using assms(1) os_MkdirAll_same [OF mk] by (auto simp: core_ok_def intro: coherent_fs_same)
  note op_ok = os_OpenFile_ok [OF op co1]
  have items: "ref' < fc_next c" if "map_of (fc_items c) ref' = Some it" for ref' it
    using that assms(1) by (auto simp: core_ok_def coherent_items_def)
  have fresh: "map_of (fc_items c) (fc_next c) = None"
    using items [of "fc_next c"] by (cases "map_of (fc_items c) (fc_next c)") auto
  show "core_ok E c' \<and> cache_step c c'"
    using assms mk op co1 op_ok fresh
    by (auto simp: newItem_def core_ok_def cache_step_def coherent_items_def known_def put_item_def Let_def
        update_conv' less_Suc_eq split: option.splits sum.splits if_splits)
  show "r = Inr ref \<Longrightarrow> known c' key ref"
    using assms(2) mk op
    by (auto simp: newItem_def known_def put_item_def Let_def update_conv' split: option.splits sum.splits)
qed

lemma fill_ok:
  assumes "core_ok E c" and "fill ref fetch c w = Ret ((k, err), c', w')"
    and "known c (getKey c n x) ref" and "plain_seg n" and "in_int64 x" and "fetch_ok (E n x) fetch"
  shows "core_ok E c' \<and> cache_step c c'"
proof -
  obtain res f where fe: "fetch w = Ret (res, w')" and f: "item_file (get_item c ref) = Some f"
    using assms(2) by (auto simp: fill_def split: option.splits sum.splits prod.splits)
  have key: "f_name f = getKey c n x" "fst (f_ino f) = getKey c n x"
    using item_file_ok [OF assms(1,3) f] by simp_all
  have co: "coherent_fs E (fc_path c) (fc_fs c)" and path: "fc_path c \<noteq> []"
    using assms(1) by (simp_all add: core_ok_def)
  have remove: "coherent_fs E (fc_path c) (snd (os_Remove p fs'))" if "coherent_fs E (fc_path c) fs'" for p fs'
    using coherent_fs_Remove [OF that] by (metis prod.collapse)
  show ?thesis
  proof (cases res)
    case (Inl e)
    then show ?thesis
      using assms(1,2) fe f remove [OF co] core_ok_fs [OF assms(1)] by (auto simp: fill_def)
  next
    case (Inr buffer)
    then have "buffer = E n x" using assms(6) fe by (auto simp: fetch_ok_def)
    moreover obtain m e f' fs' where wr: "writeAll f buffer (fc_fs c) = ((m, e), f', fs')"
      by (metis prod.exhaust)
    ultimately have wok: "coherent_fs E (fc_path c) fs' \<and> f_name f' = f_name f \<and> f_ino f' = f_ino f"
      using writeAll_ok [of f E n x "fc_fs c" m e f' fs' "fc_path c"] co path key assms(4,5)
      by (simp add: getKey_def)
    define fs2 where "fs2 = (if e = None then fs' else snd (os_Remove (f_name f) fs'))"
    have "coherent_fs E (fc_path c) fs2" using wok remove by (simp add: fs2_def)
    then have c1: "core_ok E (c\<lparr>fc_fs := fs2\<rparr>)" "cache_step c (c\<lparr>fc_fs := fs2\<rparr>)"
      using core_ok_fs [OF assms(1)] by blast+
    moreover have "known (c\<lparr>fc_fs := fs2\<rparr>) (getKey c n x) ref" using assms(3) by (simp add: known_def)
    moreover have "c' = put_item ref ((get_item c ref)\<lparr>item_file := Some f'\<rparr>) (c\<lparr>fc_fs := fs2\<rparr>)"
      using assms(2) fe f Inr wr by (cases e) (auto simp: fill_def fs2_def)
    ultimately show ?thesis
      using put_item_ok [of E "c\<lparr>fc_fs := fs2\<rparr>" "getKey c n x" ref "(get_item c ref)\<lparr>item_file := Some f'\<rparr>"]
        get_item_known [OF assms(3)] wok key
      by (auto intro: cache_step_trans)
  qed
qed

lemma getKey_step: "cache_step c c' \<Longrightarrow> getKey c' n x = getKey c n x"
  by (simp add: cache_step_def getKey_def)

lemma known_step: "cache_step c c' \<Longrightarrow> known c k ref \<Longrightarrow> known c' k ref"
  by (simp add: cache_step_def)

lemma stat_step:
  assumes "core_ok E c" and "file_Stat fo (fc_fs c) = (r, fs')"
  shows "core_ok E (c\<lparr>fc_fs := fs'\<rparr>) \<and> cache_step c (c\<lparr>fc_fs := fs'\<rparr>)"
  using assms core_ok_fs [OF assms(1)] file_Stat_same [OF assms(2)]
  by (meson coherent_fs_same core_ok_def)

lemma finish_read_step:
  assumes "finish_read ref count c w = Ret ((b, err), c', w')" and "core_ok E c"
    and "known c (getKey c n x) ref" and "plain_seg n" and "in_int64 x"
  shows "core_ok E c' \<and> cache_step c c' \<and> (err = None \<longrightarrow> count = int (length (E n x)) \<longrightarrow> b = E n x)"
  using finish_read_ok [OF assms(1,2)] assms(3-5) by blast

text \<open>The relation that the steps of all goroutines keep: the same path and metadata, and items keep their key.\<close>

definition later :: "'c fileCache \<Rightarrow> 'c fileCache \<Rightarrow> bool" where
  "later c c' \<longleftrightarrow> fc_path c' = fc_path c \<and> fc_meta c' = fc_meta c \<and> (\<forall>k ref. known c k ref \<longrightarrow> known c' k ref)"

lemma later_refl [simp]: "later c c"
  by (simp add: later_def)

lemma later_trans: "later a b \<Longrightarrow> later b c \<Longrightarrow> later a c"
  by (simp add: later_def)

lemma later_known: "later c c' \<Longrightarrow> known c (getKey c n x) ref \<Longrightarrow> known c' (getKey c' n x) ref"
  by (simp add: later_def getKey_def)

lemma kept: "cache_ok E c \<Longrightarrow> core_ok E c' \<and> cache_step c c' \<Longrightarrow> cache_ok E c' \<and> later c c'"
  using cache_ok_step [of E c c'] by (auto simp: later_def cache_step_def)

lemma stat_kept:
  assumes "cache_ok E c" and "file_Stat fo (fc_fs c) = (r, fs')"
  shows "cache_ok E (c\<lparr>fc_fs := fs'\<rparr>) \<and> later c (c\<lparr>fc_fs := fs'\<rparr>)"
  using kept [OF assms(1)] stat_step [OF cache_ok_core [OF assms(1)] assms(2)] by blast

lemma finish_read_kept:
  assumes "finish_read ref count c w = Ret ((b, err), c', w')" and "cache_ok E c"
    and "known c (getKey c n x) ref" and "plain_seg n" and "in_int64 x"
  shows "cache_ok E c' \<and> later c c' \<and> (err = None \<longrightarrow> count = int (length (E n x)) \<longrightarrow> b = E n x)"
  using finish_read_step [OF assms(1) cache_ok_core [OF assms(2)] assms(3-5)] kept [OF assms(2)] by blast

lemma refill_ok:
  assumes ok: "cache_ok E c" and run: "refill ref count fetch c w = Ret (err, c', w')"
    and kn: "known c (getKey c n x) ref" and n: "plain_seg n" "in_int64 x" and fe: "fetch_ok (E n x) fetch"
  shows "cache_ok E c' \<and> later c c'"
proof -
  obtain r1 fs1 where st: "file_Stat (item_file (get_item c ref)) (fc_fs c) = (r1, fs1)"
    by (cases "file_Stat (item_file (get_item c ref)) (fc_fs c)")
  let ?c1 = "c\<lparr>fc_fs := fs1\<rparr>"
  note s1 = stat_kept [OF ok st]
  have fill: "cache_ok E d \<and> later c d" if "fill ref fetch ?c1 w = Ret ((k, e), d, v)" for k e d v
    using fill_ok [where E = E and n = n and x = x, OF _ that _ n fe] kept [of E ?c1 d] s1 later_known [of c ?c1 n x ref] kn cache_ok_core
      later_trans [of c ?c1 d] by blast
  show ?thesis
  proof (cases r1)
    case (Inl e)
    then show ?thesis using run st s1 by (auto simp: refill_def)
  next
    case (Inr size)
    then show ?thesis using run st s1 fill by (cases "size = count") (auto simp: refill_def)
  qed
qed

subsubsection \<open>The whole operation\<close>

lemma cache_Get_ok:
  assumes "cache_ok E c" and "cache_Get key c = (v, c')"
  shows "cache_ok E c' \<and> later c c' \<and> (\<forall>ref. v = Some ref \<longrightarrow> known c' key ref)"
proof -
  obtain holds where h: "ristretto_ok (fc_cache c) holds"
      "\<And>k ref. (k, ref) \<in> holds (rc_state (fc_cache c)) \<Longrightarrow> known c k ref"
    using assms(1) by (auto simp: cache_ok_def)
  obtain s' where g: "rc_get (fc_cache c) key (rc_state (fc_cache c)) = (v, s')"
    and c': "c' = c\<lparr>fc_cache := (fc_cache c)\<lparr>rc_state := s'\<rparr>\<rparr>"
    using assms(2) by (auto simp: cache_Get_def split: prod.splits)
  have r: "ristretto_ok ((fc_cache c)\<lparr>rc_state := s'\<rparr>) holds" using h(1) by (simp add: ristretto_ok_def)
  have sub: "holds s' \<subseteq> holds (rc_state (fc_cache c))" and
    found: "\<And>ref. v = Some ref \<Longrightarrow> (key, ref) \<in> holds (rc_state (fc_cache c))"
    using h(1) g unfolding ristretto_ok_def by blast+
  have kn: "known c' k ref = known c k ref" for k ref by (simp add: c' known_def)
  have "cache_ok E c'"
    using assms(1) r sub h(2) kn unfolding cache_ok_def c' coherent_items_def
    by (auto intro!: exI [of _ holds] simp del: split_paired_All)
  moreover have "later c c'" using kn by (simp add: c' later_def)
  ultimately show ?thesis using found h(2) kn by simp
qed

lemma cache_Set_ok:
  assumes "cache_ok E c" and "cache_Set key ref c = (ok, ev, c')" and "known c key ref"
  shows "cache_ok E c' \<and> later c c' \<and> known c' key ref"
proof -
  obtain holds where h: "ristretto_ok (fc_cache c) holds"
      "\<And>k ref. (k, ref) \<in> holds (rc_state (fc_cache c)) \<Longrightarrow> known c k ref"
    using assms(1) by (auto simp: cache_ok_def)
  obtain s' where g: "rc_set (fc_cache c) key ref (rc_state (fc_cache c)) = (ok, ev, s')"
    and c': "c' = c\<lparr>fc_cache := (fc_cache c)\<lparr>rc_state := s'\<rparr>\<rparr>"
    using assms(2) by (auto simp: cache_Set_def split: prod.splits)
  have r: "ristretto_ok ((fc_cache c)\<lparr>rc_state := s'\<rparr>) holds" using h(1) by (simp add: ristretto_ok_def)
  have sub: "holds s' \<subseteq> insert (key, ref) (holds (rc_state (fc_cache c)))"
    using h(1) g unfolding ristretto_ok_def by blast
  have kn: "known c' k ref' = known c k ref'" for k ref' by (simp add: c' known_def)
  have "cache_ok E c'"
    using assms(1,3) r sub h(2) kn unfolding cache_ok_def c' coherent_items_def
    by (auto intro!: exI [of _ holds] simp del: split_paired_All)
  moreover have "later c c'" using kn by (simp add: c' later_def)
  ultimately show ?thesis using assms(3) kn by simp
qed

lemma create_item_ok:
  assumes ok: "cache_ok E c" and cr: "create_item key c = Ret (r, c')"
  shows "cache_ok E c' \<and> later c c' \<and> (\<forall>ref. r = Inr ref \<longrightarrow> known c' key ref)"
proof -
  obtain v c1 where g: "cache_Get key c = (v, c1)" by (cases "cache_Get key c")
  note k1 = cache_Get_ok [OF ok g]
  show ?thesis
  proof (cases v)
    case (Some ref)
    then show ?thesis using cr g k1 by (auto simp: create_item_def)
  next
    case None
    obtain rn c2 where nw: "newItem key c1 = (rn, c2)" by (cases "newItem key c1")
    note n1 = newItem_ok [where E = E, OF _ nw]
    have ok2: "cache_ok E c2 \<and> later c c2"
      using kept [of E c1 c2] n1(1) k1 cache_ok_core later_trans by blast
    show ?thesis
    proof (cases rn)
      case (Inl e)
      then show ?thesis using cr g None nw ok2 by (auto simp: create_item_def)
    next
      case (Inr ref)
      obtain b ev c3 where st: "cache_Set key ref c2 = (b, ev, c3)" by (metis prod.exhaust)
      then have c': "on_exit ev c3 = Ret c'" and r: "r = Inr ref \<or> (\<exists>e. r = Inl e)"
        using cr g None nw Inr by (auto simp: create_item_def split: if_splits)
      have "known c2 key ref" using n1(2) k1 cache_ok_core Inr by blast
      then have ok3: "cache_ok E c3 \<and> later c2 c3 \<and> known c3 key ref" using cache_Set_ok [OF _ st] ok2 by blast
      have step: "core_ok E c' \<and> cache_step c3 c'" using on_exit_ok [OF _ c'] ok3 cache_ok_core by blast
      then have "cache_ok E c' \<and> later c3 c'" using kept ok3 by blast
      then show ?thesis using ok2 ok3 r later_trans [of c c2 c3] later_trans [of c c3 c'] by (auto simp: later_def)
    qed
  qed
qed

text \<open>The other goroutines fetch what the origin has, as this one does.\<close>

definition gap_ok :: "(string \<Rightarrow> int64 \<Rightarrow> bytes) \<Rightarrow> gap_step \<Rightarrow> bool" where
  "gap_ok E g = (case g of Fill ref n x count res \<Rightarrow> plain_seg n \<and> in_int64 x \<and> (case res of Inr b \<Rightarrow> b = E n x | Inl e \<Rightarrow> True) | _ \<Rightarrow> True)"

definition gaps_ok :: "(string \<Rightarrow> int64 \<Rightarrow> bytes) \<Rightarrow> gaps \<Rightarrow> bool" where
  "gaps_ok E gaps = (case gaps of (g0, g1, g2, g3) \<Rightarrow> list_all (gap_ok E) (g0 @ g1 @ g2 @ g3))"

lemma gap_run_ok:
  assumes "cache_ok E c" and "gap_run gs c = Ret c'" and "list_all (gap_ok E) gs"
  shows "cache_ok E c' \<and> later c c'"
  using assms
proof (induction gs arbitrary: c)
  case (Cons g gs)
  have rest: ?case if "gap_run gs c1 = Ret c'" and "cache_ok E c1 \<and> later c c1" for c1
    using Cons.IH [OF _ that(1)] that(2) Cons.prems(3) later_trans by auto
  show ?case
  proof (cases g)
    case (Evict ref)
    then obtain c1 where c1: "drop_item ref c = Ret c1" "gap_run gs c1 = Ret c'" using Cons.prems(2) by auto
    show ?thesis
      using kept [OF Cons.prems(1)] drop_item_ok [OF cache_ok_core [OF Cons.prems(1)] c1(1)] by (intro rest [OF c1(2)]) blast
  next
    case (Fill ref n x count res)
    show ?thesis
    proof (cases "map_option item_key (map_of (fc_items c) ref) = Some (getKey c n x)")
      case True
      then obtain e c1 u where c1: "refill ref count (\<lambda>w. Ret (res, w)) c () = Ret (e, c1, u)" "gap_run gs c1 = Ret c'"
        using Cons.prems(2) Fill by auto
      have "known c (getKey c n x) ref" using True by (auto simp: known_def)
      moreover have "fetch_ok (E n x) (\<lambda>w :: unit. Ret (res, w))" using Cons.prems(3) Fill by (auto simp: gap_ok_def fetch_ok_def)
      ultimately show ?thesis
        using refill_ok [where E = E and n = n and x = x, OF Cons.prems(1) c1(1)] Cons.prems(3) Fill
        by (intro rest [OF c1(2)]) (simp add: gap_ok_def)
    next
      case False
      then have "gap_run gs c = Ret c'" using Cons.prems(2) Fill by (auto split: if_splits)
      from rest [OF this] show ?thesis using Cons.prems(1) by simp
    qed
  next
    case (Create n x)
    then obtain r c1 where c1: "create_item (getKey c n x) c = Ret (r, c1)" "gap_run gs c1 = Ret c'" using Cons.prems(2) by auto
    then show ?thesis using create_item_ok [OF Cons.prems(1) c1(1)] by (intro rest [OF c1(2)]) blast
  qed
qed simp

lemma load_item_ok:
  assumes ok: "cache_ok E c" and ld: "load_item gaps ref count fetch c w = Ret ((b, err), c', w')"
    and gaps: "list_all (gap_ok E) (fst gaps @ snd gaps)"
    and kn: "known c (getKey c n x) ref" and n: "plain_seg n" "in_int64 x" and fe: "fetch_ok (E n x) fetch"
  shows "cache_ok E c' \<and> later c c' \<and> (err = None \<longrightarrow> count = int (length (E n x)) \<longrightarrow> b = E n x)"
proof -
  obtain r1 fs1 where st1: "file_Stat (item_file (get_item c ref)) (fc_fs c) = (r1, fs1)"
    by (cases "file_Stat (item_file (get_item c ref)) (fc_fs c)")
  let ?c1 = "c\<lparr>fc_fs := fs1\<rparr>"
  note s1 = stat_kept [OF ok st1]
  have finish: ?thesis if "finish_read ref count d v = Ret ((b, err), c', w')" "cache_ok E d" "later c d" for d v
    using finish_read_kept [OF that(1,2), of n x] later_known [OF that(3) kn] n later_trans [OF that(3)] by auto
  show ?thesis
  proof (cases r1)
    case (Inl e)
    then show ?thesis using ld st1 s1 by (auto simp: load_item_def)
  next
    case r1: (Inr size1)
    show ?thesis
    proof (cases "size1 = count")
      case True
      then show ?thesis using finish [of ?c1 w] ld st1 s1 r1 by (simp add: load_item_def)
    next
      case ne: False
      then obtain c2 e c3 v where c2: "gap_run (fst gaps) ?c1 = Ret c2" and c3: "refill ref count fetch c2 w = Ret (e, c3, v)"
        and rest: "(case e of Some x \<Rightarrow> Ret (([], Some x), c3, v) | None \<Rightarrow> obind (gap_run (snd gaps) c3) (\<lambda>c4. finish_read ref count c4 v))
          = Ret ((b, err), c', w')"
        using ld st1 r1 by (auto simp: load_item_def)
      have s2: "cache_ok E c2 \<and> later c c2" using gap_run_ok [OF _ c2] s1 gaps later_trans by auto
      then have s3: "cache_ok E c3 \<and> later c c3"
        using refill_ok [where E = E and n = n and x = x, OF _ c3 _ n fe] later_known [of c c2 n x ref] kn later_trans by blast
      show ?thesis
      proof (cases e)
        case (Some x)
        then show ?thesis using rest s3 by auto
      next
        case None
        then obtain c4 where c4: "gap_run (snd gaps) c3 = Ret c4" "finish_read ref count c4 v = Ret ((b, err), c', w')" using rest by auto
        then show ?thesis using finish [OF c4(2)] gap_run_ok [OF _ c4(1)] s3 gaps later_trans by auto
      qed
    qed
  qed
qed

lemma lookup_or_create_ok:
  assumes ok: "cache_ok E c" and lc: "lookup_or_create gap key c = Ret (r, c')" and "list_all (gap_ok E) gap"
  shows "cache_ok E c' \<and> later c c' \<and> (\<forall>ref. r = Inr ref \<longrightarrow> known c' key ref)"
proof -
  obtain v c1 where g: "cache_Get key c = (v, c1)" by (cases "cache_Get key c")
  note k1 = cache_Get_ok [OF ok g]
  show ?thesis
  proof (cases v)
    case (Some ref)
    then show ?thesis using lc g k1 by (auto simp: lookup_or_create_def)
  next
    case None
    then obtain c2 where c2: "gap_run gap c1 = Ret c2" "create_item key c2 = Ret (r, c')" using lc g by (auto simp: lookup_or_create_def)
    then have "cache_ok E c2 \<and> later c c2" using gap_run_ok [OF _ c2(1) assms(3)] k1 later_trans by blast
    then show ?thesis using create_item_ok [OF _ c2(2)] later_trans by blast
  qed
qed

lemma GetOrCreate_ok:
  assumes ok: "cache_ok E c" and n: "plain_seg n" "in_int64 x" and fe: "fetch_ok (E n x) fetch" and gaps: "gaps_ok E gaps"
    and run: "GetOrCreate gaps n x count fetch c w = Ret ((b, err), c', w')"
  shows "cache_ok E c' \<and> fc_path c' = fc_path c \<and> fc_meta c' = fc_meta c
    \<and> (err = None \<longrightarrow> count = int (length (E n x)) \<longrightarrow> b = E n x)"
proof -
  obtain g0 g1 gs where g: "gaps = (g0, g1, gs)" by (metis prod.exhaust)
  have gok: "list_all (gap_ok E) g0" "list_all (gap_ok E) g1" "list_all (gap_ok E) (fst gs @ snd gs)"
    using gaps by (cases gs, simp add: g gaps_ok_def)+
  obtain r c1 where lc: "lookup_or_create g0 (getKey c n x) c = Ret (r, c1)"
    using run by (auto simp: GetOrCreate_def g)
  note k1 = lookup_or_create_ok [OF ok lc gok(1)]
  show ?thesis
  proof (cases r)
    case (Inl e)
    then show ?thesis using run lc k1 by (auto simp: GetOrCreate_def g later_def)
  next
    case (Inr ref)
    then obtain c2 where c2: "gap_run g1 c1 = Ret c2" and ld: "load_item gs ref count fetch c2 w = Ret ((b, err), c', w')"
      using run lc by (auto simp: GetOrCreate_def g)
    have s2: "cache_ok E c2 \<and> later c1 c2" using gap_run_ok [OF _ c2 gok(2)] k1 by blast
    have "known c1 (getKey c1 n x) ref" using k1 Inr by (simp add: later_def getKey_def)
    then have "known c2 (getKey c2 n x) ref" using later_known s2 by blast
    then have "cache_ok E c' \<and> later c2 c' \<and> (err = None \<longrightarrow> count = int (length (E n x)) \<longrightarrow> b = E n x)"
      using load_item_ok [where E = E and n = n and x = x, OF _ ld gok(3) _ n fe] s2 by blast
    then show ?thesis using s2 k1 by (simp add: later_def)
  qed
qed

subsection \<open>A new cache\<close>

lemma keep_all_ok: "ristretto_ok keep_all set"
  by (auto simp: ristretto_ok_def keep_all_def dest: map_of_SomeD)

lemma New_cache_ok:
  assumes "New_cache rc fs = Some c" and "fs_dir fs = []" and "fs_data fs = []" and "whole_faults fs"
    and "ristretto_ok rc holds" and "holds (rc_state rc) = {}"
  shows "cache_ok E c"
proof -
  obtain fs' where mk: "os_MkdirAll cache_Path fs = (None, fs')" and c: "fc_fs c = fs'" "fc_path c = cache_Path"
      "fc_items c = []" "fc_cache c = rc"
    using assms(1) by (auto simp: New_cache_def split: prod.splits option.splits)
  have same: "same_files fs fs'" using mk by (rule os_MkdirAll_same)
  have "contents fs' i = []" for i using same assms(3) by (cases i) (simp add: same_files_def contents_def fun_eq_iff)
  then have "coherent_fs E cache_Path fs'"
    using same assms(2,4) by (auto simp: coherent_fs_def same_files_def)
  then show ?thesis using c assms(5,6) by (auto simp: cache_ok_def cache_Path_def coherent_items_def)
qed

subsection \<open>Histories of the cache\<close>

text \<open>
  The states of a cache that is created on an empty directory and used through its methods, with
  every fetch function returning the chunk's content whenever it returns data, and any evictions.
\<close>

inductive reachable :: "'w itself \<Rightarrow> (string \<Rightarrow> int64 \<Rightarrow> bytes) \<Rightarrow> 'c fileCache \<Rightarrow> bool"
  for T :: "'w itself" and E :: "string \<Rightarrow> int64 \<Rightarrow> bytes" where
  created: "\<lbrakk>New_cache rc fs = Some c; fs_dir fs = []; fs_data fs = []; whole_faults fs;
     ristretto_ok rc holds; holds (rc_state rc) = {}\<rbrakk> \<Longrightarrow> reachable T E c"
| got: "\<lbrakk>reachable T E c; plain_seg n; in_int64 x; fetch_ok (E n x) fetch; gaps_ok E gaps;
     GetOrCreate gaps n x count fetch c (w :: 'w) = Ret (r, c', w')\<rbrakk> \<Longrightarrow> reachable T E c'"
| checked: "\<lbrakk>reachable T E c; Exists n x c = (r, c')\<rbrakk> \<Longrightarrow> reachable T E c'"
| sized: "\<lbrakk>reachable T E c; PutSize ord n len c = (r, c')\<rbrakk> \<Longrightarrow> reachable T E c'"
| evicted: "\<lbrakk>reachable T E c; on_exit refs c = Ret c'\<rbrakk> \<Longrightarrow> reachable T E c'"

lemma Exists_ok:
  assumes "cache_ok E c" and "Exists n x c = (r, c')"
  shows "cache_ok E c' \<and> fc_path c' = fc_path c \<and> fc_meta c' = fc_meta c"
proof -
  obtain v c1 where g: "cache_Get (getKey c n x) c = (v, c1)" by (cases "cache_Get (getKey c n x) c")
  note k = cache_Get_ok [OF assms(1) g]
  have "cache_ok E (c1\<lparr>fc_fs := fs'\<rparr>)" if "file_Stat fo (fc_fs c1) = (st, fs')" for fo st fs'
    using stat_step [OF _ that] k cache_ok_core cache_ok_step by blast
  then show ?thesis
    using assms(2) g k by (cases v) (auto simp: Exists_def later_def split: prod.splits sum.splits)
qed

lemma PutSize_ok:
  "cache_ok E c \<Longrightarrow> cache_ok E (snd (PutSize ord n len c))"
  by (auto simp: PutSize_def cache_ok_def coherent_items_def known_def)

lemma reachable_ok: "reachable T E c \<Longrightarrow> cache_ok E c"
proof (induction rule: reachable.induct)
  case (created rc fs c holds)
  then show ?case by (rule New_cache_ok)
next
  case (got c n x fetch gaps count w r c' w')
  then show ?case using GetOrCreate_ok [of E c n x fetch gaps count w "fst r" "snd r" c' w'] by simp
next
  case (checked c n x r c')
  then show ?case using Exists_ok by blast
next
  case (sized c ord n len r c')
  then show ?case using PutSize_ok [of E c ord n len] by simp
next
  case (evicted c refs c')
  then show ?case using on_exit_ok [OF _ evicted(2)] cache_ok_core cache_ok_step by blast
qed

text \<open>
  C5: after any history in which no write stores only a part of its data, whatever was fetched, failed,
  evicted or refilled on the way, and whatever other calls and evictions do in the windows of this call,
  a call of \<open>GetOrCreate\<close> for a chunk of the chunk's length that succeeds returns the chunk's content.
  File-system calls may fail at any point; a write that fails after it has stored a part of its data is
  excluded, because there the claim is false: \<open>GetOrCreate_serves_zeros_after_partial_writes\<close>.
\<close>

theorem GetOrCreate_serves_origin_content:
  assumes "reachable TYPE('w) E c" and "plain_seg n" and "in_int64 x" and "fetch_ok (E n x) fetch"
    and "gaps_ok E gaps" and "GetOrCreate gaps n x (int (length (E n x))) fetch c (w :: 'w) = Ret ((b, None), c', w')"
  shows "b = E n x"
  using GetOrCreate_ok [OF reachable_ok [OF assms(1)] assms(2-6)] by simp

lemma empty_cache_reachable: "reachable T E (empty_cache [])"
  by (rule reachable.created [OF New_cache_keep_all _ _ _ keep_all_ok])
    (simp_all add: empty_fs_def whole_faults_def keep_all_def)

theorem GetOrCreate_serves_origin_content_witness:
  "\<exists>c'. reachable TYPE(unit) (\<lambda>n x. [7, 8]) (empty_cache []) \<and> plain_seg ''d'' \<and> in_int64 0 \<and> fetch_ok [7, 8] fetch_78
    \<and> GetOrCreate ([], [], [], []) ''d'' 0 2 fetch_78 (empty_cache []) () = Ret (([7, 8], None), c', ())
    \<and> [7, 8] = (\<lambda>(n :: string) (x :: int64). [7 :: byte, 8]) ''d'' 0"
proof -
  have r: "reachable TYPE(unit) (\<lambda>n x. [7, 8]) (empty_cache [])" by (rule empty_cache_reachable)
  have d: "plain_seg ''d''" "in_int64 0" by (simp_all add: plain_seg_def)
  have f: "fetch_ok [7, 8] fetch_78" by (simp add: fetch_ok_def fetch_78_def)
  obtain c' where g: "GetOrCreate ([], [], [], []) ''d'' 0 2 fetch_78 (empty_cache []) () = Ret (([7, 8], None), c', ())"
    using first_get by blast
  show ?thesis
    using GetOrCreate_serves_origin_content [OF r d, of fetch_78 "([], [], [], [])" "()" "[7, 8]" c' "()"] r d f g
    by (auto simp: gaps_ok_def)
qed

subsection \<open>The file cache implements the interface\<close>

text \<open>
  The scheduler's choices are part of the state of the interface: what other goroutines do in the
  windows of the coming \<open>GetOrCreate\<close> calls, and in which order the coming \<open>PutSize\<close> calls visit the
  metadata when they evict (an exhausted list means empty windows, and the map's own order).
\<close>

record 'c cacheState =
  cs_gaps :: "gaps list"
  cs_orders :: "string list list"
  cs_cache :: "'c fileCache"

definition next_gaps :: "'c cacheState \<Rightarrow> gaps" where
  "next_gaps s = (case cs_gaps s of [] \<Rightarrow> ([], [], [], []) | g # _ \<Rightarrow> g)"

definition next_order :: "'c cacheState \<Rightarrow> string list" where
  "next_order s = (case cs_orders s of [] \<Rightarrow> map fst (mapObj (fc_meta (cs_cache s))) | ord # _ \<Rightarrow> ord)"

definition fileCache_ops :: "('c cacheState, 'w) Cache" where
  "fileCache_ops = \<lparr>
     cm_Size = (\<lambda>n s. Size (cs_cache s) n),
     cm_PutSize = (\<lambda>n len s. case PutSize (next_order s) n len (cs_cache s) of
        (r, c) \<Rightarrow> (r, s\<lparr>cs_orders := tl (cs_orders s), cs_cache := c\<rparr>)),
     cm_Exists = (\<lambda>n x s. case Exists n x (cs_cache s) of (r, c) \<Rightarrow> (r, s\<lparr>cs_cache := c\<rparr>)),
     cm_GetOrCreate = (\<lambda>n x count fetch s w.
        obind (GetOrCreate (next_gaps s) n x count fetch (cs_cache s) w) (\<lambda>(r, c, w').
          Ret (r, s\<lparr>cs_gaps := tl (cs_gaps s), cs_cache := c\<rparr>, w')))\<rparr>"

definition sizes_ok :: "(string \<Rightarrow> int64) \<Rightarrow> int64 SyncMap \<Rightarrow> bool" where
  "sizes_ok L m \<longleftrightarrow> (\<forall>n v. plain_seg n \<longrightarrow> Get m (metaKey n) = Some v \<longrightarrow> v = L n)"

definition state_ok :: "(string \<Rightarrow> int64 \<Rightarrow> bytes) \<Rightarrow> (string \<Rightarrow> int64) \<Rightarrow> 'c cacheState \<Rightarrow> bool" where
  "state_ok E L s \<longleftrightarrow> cache_ok E (cs_cache s) \<and> sizes_ok L (fc_meta (cs_cache s)) \<and> list_all (gaps_ok E) (cs_gaps s)"

lemma next_gaps_ok: "list_all (gaps_ok E) (cs_gaps s) \<Longrightarrow> gaps_ok E (next_gaps s) \<and> list_all (gaps_ok E) (tl (cs_gaps s))"
  by (cases "cs_gaps s") (auto simp: next_gaps_def gaps_ok_def)

lemma metaKey_plain: "plain_seg n \<Longrightarrow> metaKey n = n @ ''/metainfo''"
  using path_Join_plain [of n "[''metainfo'']"] by (simp add: metaKey_def plain_seg_def)

lemma sizes_ok_Set:
  assumes "sizes_ok L m" and "plain_seg n"
  shows "sizes_ok L (Set_entry ord (metaKey n) (L n) m)"
  unfolding sizes_ok_def
proof (intro allI impI)
  fix n' v assume n': "plain_seg n'" and g: "Get (Set_entry ord (metaKey n) (L n) m) (metaKey n') = Some v"
  show "v = L n'"
    using Get_Set_entry_cases [OF g] assms n' by (auto simp: sizes_ok_def metaKey_plain)
qed

lemma refill_world:
  "refill ref count fetch c w = Ret (e, c', w') \<Longrightarrow> w' = w \<or> (\<exists>res. fetch w = Ret (res, w'))"
  by (auto simp: refill_def fill_def split: prod.splits sum.splits if_splits option.splits)

lemma load_item_world:
  "load_item gaps ref count fetch c w = Ret (r, c', w') \<Longrightarrow> w' = w \<or> (\<exists>res. fetch w = Ret (res, w'))"
  by (auto simp: load_item_def finish_read_def dest!: refill_world split: prod.splits sum.splits if_splits option.splits)

lemma GetOrCreate_world:
  "GetOrCreate gaps n x count fetch c w = Ret (r, c', w') \<Longrightarrow> w' = w \<or> (\<exists>res. fetch w = Ret (res, w'))"
  by (auto simp: GetOrCreate_def dest!: load_item_world split: prod.splits sum.splits)

interpretation fc: chunk_cache fileCache_ops state_ok
proof unfold_locales
  fix E L s n v
  show "state_ok E L s \<Longrightarrow> plain_seg n \<Longrightarrow> cm_Size fileCache_ops n s = (v, True) \<Longrightarrow> v = L n"
    by (auto simp: fileCache_ops_def Size_def state_ok_def sizes_ok_def split: option.splits)
next
  fix E L and s :: "'a cacheState" and n r s'
  assume "state_ok E L s" "plain_seg n" "cm_PutSize fileCache_ops n (L n) s = (r, s')"
  then show "state_ok E L s'"
    using PutSize_ok [of E "cs_cache s" "next_order s" n "L n"]
    by (auto simp: fileCache_ops_def state_ok_def PutSize_def intro: sizes_ok_Set)
next
  fix E L and s :: "'a cacheState" and n x r s'
  assume "state_ok E L s" "cm_Exists fileCache_ops n x s = (r, s')"
  then show "state_ok E L s'"
    using Exists_ok [of E "cs_cache s" n x]
    by (auto simp: fileCache_ops_def state_ok_def split: prod.splits)
next
  fix E L and s :: "'a cacheState" and n x and fetch :: "'b fetcher" and count w r s' w'
  assume *: "state_ok E L s" "plain_seg n" "in_int64 x" "fetch_ok (E n x) fetch"
    "cm_GetOrCreate fileCache_ops n x count fetch s w = Ret (r, s', w')"
  then show "state_ok E L s'"
    using GetOrCreate_ok [of E "cs_cache s" n x fetch "next_gaps s" count w "fst r" "snd r" _ w'] next_gaps_ok [of E s]
    by (auto simp: fileCache_ops_def state_ok_def)
next
  fix E L and s :: "'a cacheState" and n x and fetch :: "'b fetcher" and w b s' w'
  assume *: "state_ok E L s" "plain_seg n" "in_int64 x" "fetch_ok (E n x) fetch"
    "cm_GetOrCreate fileCache_ops n x (int (length (E n x))) fetch s w = Ret ((b, None), s', w')"
  then show "b = E n x"
    using GetOrCreate_ok [of E "cs_cache s" n x fetch "next_gaps s" "int (length (E n x))" w b None _ w'] next_gaps_ok [of E s]
    by (auto simp: fileCache_ops_def state_ok_def)
next
  fix n x count and fetch :: "'b fetcher" and s :: "'a cacheState" and w b s' w'
  assume "cm_GetOrCreate fileCache_ops n x count fetch s w = Ret ((b, None), s', w')"
  then show "int (length b) = count"
    by (auto simp: fileCache_ops_def GetOrCreate_def dest!: load_item_length split: prod.splits sum.splits)
next
  fix n x count and fetch :: "'b fetcher" and s :: "'a cacheState" and w r s' w'
  assume "cm_GetOrCreate fileCache_ops n x count fetch s w = Ret (r, s', w')"
  then show "w' = w \<or> (\<exists>res. fetch w = Ret (res, w'))"
    by (auto simp: fileCache_ops_def dest!: GetOrCreate_world)
qed

subsection \<open>Calls without faults\<close>

definition calm :: "'c fileCache \<Rightarrow> bool" where
  "calm c \<longleftrightarrow> fs_faults (fc_fs c) = []"

lemma os_calm:
  assumes "fs_faults fs = []"
  shows "os_Stat f fs = (Inr (int (length (contents fs (f_ino f)))), fs)"
    and "os_MkdirAll p fs = (None, fs)" and "os_Truncate0 f fs = (None, set_contents (f_ino f) [] fs)"
    and "os_Write f b fs = ((int (length b), None), f\<lparr>f_pos := f_pos f + length b\<rparr>,
      set_contents (f_ino f) (write_at (f_pos f) b (contents fs (f_ino f))) fs)"
    and "fs_faults (snd (os_Remove p fs)) = []"
  using assms by (simp_all add: os_defs Let_def)

lemma readFromStart_calm:
  assumes "fs_faults fs = []"
  shows "readFromStart (Some f) fs = (Inr (contents fs (f_ino f)), fs)"
proof (cases "contents fs (f_ino f) = []")
  case True
  then show ?thesis using assms by (simp add: readFromStart_def os_calm read_loop.simps)
next
  case False
  then have "read_loop f (length (contents fs (f_ino f))) [] fs = ((contents fs (f_ino f), None), fs)"
    using assms by (simp add: read_loop.simps os_ReadAt_def Let_def)
  then show ?thesis using assms by (simp add: readFromStart_def os_calm)
qed

lemma finish_read_calm:
  assumes "calm c" and "item_file (get_item c ref) = Some f"
  shows "finish_read ref count c w = Ret ((contents (fc_fs c) (f_ino f),
    if int (length (contents (fc_fs c) (f_ino f))) \<noteq> count
    then Some (Errorf ''bytes did not retrieve expected number of bytes'') else None), c, w)"
  using assms readFromStart_calm [of "fc_fs c" f] by (simp add: finish_read_def item_bytes_def calm_def)

text \<open>The state after a write of \<open>b\<close> to the item \<open>ref\<close>, whose file is \<open>f\<close>.\<close>

definition filled :: "nat \<Rightarrow> osFile \<Rightarrow> bytes \<Rightarrow> 'c fileCache \<Rightarrow> 'c fileCache" where
  "filled ref f b c = put_item ref ((get_item c ref)\<lparr>item_file := Some (f\<lparr>f_pos := f_pos f + length b\<rparr>)\<rparr>)
     (c\<lparr>fc_fs := set_contents (f_ino f) (write_at (f_pos f) b []) (set_contents (f_ino f) [] (fc_fs c))\<rparr>)"

lemma get_item_put_item [simp]:
  "get_item (put_item ref it c) r = (if r = ref then it else get_item c r)"
  by (simp add: get_item_def put_item_def update_conv')

lemma put_item_frame [simp]:
  "fc_fs (put_item ref it c) = fc_fs c" "fc_cache (put_item ref it c) = fc_cache c"
  "fc_path (put_item ref it c) = fc_path c" "fc_next (put_item ref it c) = fc_next c"
  by (simp_all add: put_item_def)

lemma filled_simps [simp]:
  "fc_cache (filled ref f b c) = fc_cache c" "fc_path (filled ref f b c) = fc_path c"
  "calm (filled ref f b c) = calm c"
  "item_file (get_item (filled ref f b c) ref) = Some (f\<lparr>f_pos := f_pos f + length b\<rparr>)"
  "contents (fc_fs (filled ref f b c)) (f_ino f) = write_at (f_pos f) b []"
  by (simp_all add: filled_def calm_def)

lemma load_item_calm:
  assumes "calm c" and "item_file (get_item c ref) = Some f"
  shows "int (length (contents (fc_fs c) (f_ino f))) = count \<Longrightarrow>
      load_item gaps ref count fetch c w = Ret ((contents (fc_fs c) (f_ino f), None), c, w)"
    and "int (length (contents (fc_fs c) (f_ino f))) \<noteq> count \<Longrightarrow> fetch w = Ret (Inl e, w') \<Longrightarrow> fst gaps = [] \<Longrightarrow>
      load_item gaps ref count fetch c w =
        Ret (([], Some e), c\<lparr>fc_fs := snd (os_Remove (f_name f) (fc_fs c))\<rparr>, w')"
    and "int (length (contents (fc_fs c) (f_ino f))) \<noteq> count \<Longrightarrow> fetch w = Ret (Inr b, w') \<Longrightarrow> fst gaps = [] \<Longrightarrow>
      load_item gaps ref count fetch c w =
        (if int (length b) \<noteq> count
         then Ret (([], Some (Errorf ''fill did not retrieve expected number of bytes'')), filled ref f b c, w')
         else obind (gap_run (snd gaps) (filled ref f b c)) (\<lambda>c5. finish_read ref count c5 w'))"
  using assms
  by (simp_all add: load_item_def refill_def calm_def os_calm finish_read_calm Let_def fill_def writeAll_def filled_def)

lemma GetOrCreate_found:
  assumes "cache_Get (getKey c n x) c = (Some ref, c1)"
  shows "GetOrCreate (g0, [], gaps) n x count fetch c w = load_item gaps ref count fetch c1 w"
  using assms by (simp add: GetOrCreate_def lookup_or_create_def)

lemma cache_Get_frame:
  assumes "cache_Get key c = (v, c1)"
  shows "calm c1 = calm c" and "get_item c1 ref = get_item c ref" and "fc_fs c1 = fc_fs c"
    and "fc_path c1 = fc_path c" and "fc_items c1 = fc_items c" and "fc_next c1 = fc_next c"
    and "rc_get (fc_cache c1) = rc_get (fc_cache c)" and "rc_set (fc_cache c1) = rc_set (fc_cache c)"
  using assms by (auto simp: cache_Get_def calm_def get_item_def split: prod.splits)

text \<open>
  A hit is served from the file: when the chunk's item is found and its file has the requested
  length, the file's bytes are returned and \<open>fetch\<close> is not called (it may be any function here, and
  the world it acts on is unchanged).
\<close>

theorem GetOrCreate_hit:
  assumes "cache_Get (getKey c n x) c = (Some ref, c1)" and "calm c"
    and "item_file (get_item c ref) = Some f" and "int (length (contents (fc_fs c) (f_ino f))) = count"
  shows "GetOrCreate (g0, [], gaps) n x count fetch c w = Ret ((contents (fc_fs c) (f_ino f), None), c1, w)"
  using assms load_item_calm(1) [of c1 ref f count gaps fetch w] cache_Get_frame [OF assms(1)]
  by (simp add: GetOrCreate_found)

theorem GetOrCreate_hit_witness:
  "cache_Get (getKey (one_item [7, 8] 2) ''d'' 0) (one_item [7, 8] 2) = (Some 0, one_item [7, 8] 2)
   \<and> calm (one_item [7, 8] 2)
   \<and> GetOrCreate ([], [], [], []) ''d'' 0 2 (\<lambda>w. Panic NilDeref) (one_item [7, 8] 2) () = Ret (([7, 8], None), one_item [7, 8] 2, ())"
proof -
  have g: "cache_Get (getKey (one_item [7, 8] 2) ''d'' 0) (one_item [7, 8] 2) = (Some 0, one_item [7, 8] 2)"
    by (simp add: one_item_key cache_Get_def) (simp add: one_item_def keep_all_def Let_def)
  then show ?thesis
    using GetOrCreate_hit [OF g, of "\<lparr>f_name = cache_Path @ ''/d/0'', f_ino = (cache_Path @ ''/d/0'', 0), f_pos = 2\<rparr>" 2
        "[]" "([], [])" "\<lambda>w. Panic NilDeref" "()"]
    by (simp add: one_item_def calm_def get_item_def contents_def Let_def)
qed

text \<open>A chunk's item, as every later lookup finds it.\<close>

definition cached :: "'c fileCache \<Rightarrow> string \<Rightarrow> int64 \<Rightarrow> nat \<Rightarrow> osFile \<Rightarrow> bool" where
  "cached c n x ref f \<longleftrightarrow> calm c
     \<and> rc_get (fc_cache c) (getKey c n x) (rc_state (fc_cache c)) = (Some ref, rc_state (fc_cache c))
     \<and> item_file (get_item c ref) = Some f"

lemma cached_filled:
  assumes "cached c n x ref f"
  shows "cached (filled ref f b c) n x ref (f\<lparr>f_pos := f_pos f + length b\<rparr>)"
  using assms by (simp add: cached_def getKey_def)

lemma GetOrCreate_cached:
  assumes "cached c n x ref f"
  shows "GetOrCreate (g0, [], gaps) n x count fetch c w = load_item gaps ref count fetch c w"
  using assms by (cases c) (simp add: cached_def GetOrCreate_found cache_Get_def getKey_def)


definition at_state :: "'c \<Rightarrow> 'c fileCache \<Rightarrow> 'c fileCache" where
  "at_state s c = c\<lparr>fc_cache := (fc_cache c)\<lparr>rc_state := s\<rparr>\<rparr>"

lemma at_state_simps [simp]:
  "fc_fs (at_state s c) = fc_fs c" "calm (at_state s c) = calm c" "get_item (at_state s c) ref = get_item c ref"
  "getKey (at_state s c) n x = getKey c n x" "fc_path (at_state s c) = fc_path c"
  by (simp_all add: at_state_def calm_def get_item_def getKey_def)











subsection \<open>Where the cache fails\<close>

text \<open>
  An item whose file was written to but does not have the chunk's length: a write failed part of the
  way, or a fetch returned another number of bytes.
\<close>

definition spoilt :: "'c fileCache \<Rightarrow> string \<Rightarrow> int64 \<Rightarrow> int64 \<Rightarrow> bool" where
  "spoilt c n x count \<longleftrightarrow> (\<exists>ref f. cached c n x ref f \<and> f_pos f > 0
     \<and> int (length (contents (fc_fs c) (f_ino f))) \<noteq> count)"

text \<open>The results of \<open>k\<close> successive calls for one chunk.\<close>

primrec get_calls :: "nat \<Rightarrow> string \<Rightarrow> int64 \<Rightarrow> int64 \<Rightarrow> 'w fetcher \<Rightarrow> 'c fileCache \<Rightarrow> 'w \<Rightarrow>
    (bytes \<times> go_error option) list outcome" where
  "get_calls 0 n x count fetch c w = Ret []"
| "get_calls (Suc k) n x count fetch c w =
     obind (GetOrCreate ([], [], [], []) n x count fetch c w) (\<lambda>(r, c', w').
       obind (get_calls k n x count fetch c' w') (\<lambda>rs. Ret (r # rs)))"

lemma spoilt_step:
  assumes "spoilt c n x count" and "fetch w = Ret (Inr b, w1)" and "int (length b) = count" and "count > 0"
  shows "\<exists>r e c'. GetOrCreate ([], [], [], []) n x count fetch c w = Ret ((r, Some e), c', w1) \<and> spoilt c' n x count"
proof -
  obtain ref f where it: "cached c n x ref f" "f_pos f > 0" "int (length (contents (fc_fs c) (f_ino f))) \<noteq> count"
    using assms(1) by (auto simp: spoilt_def)
  let ?c = "filled ref f b c" and ?f = "f\<lparr>f_pos := f_pos f + length b\<rparr>"
  have ne: "int (length (contents (fc_fs ?c) (f_ino f))) \<noteq> count"
    using assms(3,4) it(2) by (auto simp: write_at_empty)
  have "GetOrCreate ([], [], [], []) n x count fetch c w
      = Ret ((contents (fc_fs ?c) (f_ino f), Some (Errorf ''bytes did not retrieve expected number of bytes'')), ?c, w1)"
    using it assms(2,3) ne load_item_calm(3) [of c ref f count fetch w b w1 "([], [])"]
      finish_read_calm [of ?c ref ?f count w1] GetOrCreate_cached [OF it(1), of "[]" "([], [])" count fetch w]
    by (simp add: cached_def)
  moreover have "spoilt ?c n x count"
    unfolding spoilt_def using cached_filled [OF it(1), of b] it(2) ne
    by (intro exI [of _ ref] exI [of _ ?f]) simp
  ultimately show ?thesis by blast
qed

text \<open>
  C38: a chunk whose file was once written in part is never served again while its item is cached:
  \<open>writeAll\<close> truncates the file and does not seek to its start, so the complete data of the next
  fetch lands behind a gap and the length check fails, in every one of any number of calls.
\<close>

theorem GetOrCreate_never_recovers:
  assumes "spoilt c n x count" and "\<And>w. \<exists>w'. fetch w = Ret (Inr b, w')" and "int (length b) = count" and "count > 0"
  shows "\<exists>rs. get_calls k n x count fetch c w = Ret rs \<and> length rs = k \<and> list_all (\<lambda>r. snd r \<noteq> None) rs"
  using assms(1)
proof (induction k arbitrary: c w)
  case (Suc k)
  obtain w1 where "fetch w = Ret (Inr b, w1)" using assms(2) by blast
  then obtain r e c' where "GetOrCreate ([], [], [], []) n x count fetch c w = Ret ((r, Some e), c', w1)"
      and "spoilt c' n x count"
    using spoilt_step [OF Suc.prems _ assms(3,4), of fetch w w1] by metis
  moreover from this(2) obtain rs where "get_calls k n x count fetch c' w1 = Ret rs" "length rs = k"
      "list_all (\<lambda>r. snd r \<noteq> None) rs"
    using Suc.IH [of c' w1] by blast
  ultimately show ?case by simp
qed simp

lemma one_item_cached:
  "cached (one_item b pos) ''d'' 0 0 \<lparr>f_name = cache_Path @ ''/d/0'', f_ino = (cache_Path @ ''/d/0'', 0), f_pos = pos\<rparr>"
  unfolding cached_def one_item_key by (simp add: one_item_def calm_def get_item_def keep_all_def Let_def)

lemma one_item_contents [simp]: "contents (fc_fs (one_item b pos)) (cache_Path @ ''/d/0'', 0) = b"
  by (simp add: one_item_def contents_def Let_def)

theorem GetOrCreate_never_recovers_witness:
  "spoilt (one_item [7] 1) ''d'' 0 2
   \<and> (\<exists>rs. get_calls 5 ''d'' 0 2 fetch_78 (one_item [7] 1) () = Ret rs \<and> length rs = 5 \<and> list_all (\<lambda>r. snd r \<noteq> None) rs)"
proof -
  have sp: "spoilt (one_item [7] 1) ''d'' 0 2"
    unfolding spoilt_def by (intro exI conjI, rule one_item_cached) simp_all
  then show ?thesis
    using GetOrCreate_never_recovers [OF sp, of fetch_78 "[7, 8]" 5 "()"] by (simp add: fetch_78_def)
qed

text \<open>
  C39: an eviction between the fill and the final read crashes the process: the item's file is nil
  by then, the read fails, and the error message asks the nil file for its name.
\<close>

theorem GetOrCreate_eviction_window_panics:
  assumes "cached c n x ref f" and "int (length (contents (fc_fs c) (f_ino f))) \<noteq> int (length b)"
    and "fetch w = Ret (Inr b, w1)"
  shows "GetOrCreate ([], [], [], [Evict ref]) n x (int (length b)) fetch c w = Panic NilDeref"
  using assms load_item_calm(3) [of c ref f "int (length b)" fetch w b w1 "([], [Evict ref])"]
    GetOrCreate_cached [OF assms(1), of "[]" "([], [Evict ref])" "int (length b)" fetch w]
  by (simp add: cached_def drop_item_def Let_def finish_read_def item_bytes_def
      readFromStart_def file_Stat_def)

theorem GetOrCreate_eviction_window_panics_witness:
  "calm (one_item [] 0) \<and> GetOrCreate ([], [], [], [Evict 0]) ''d'' 0 2 fetch_78 (one_item [] 0) () = Panic NilDeref"
  using GetOrCreate_eviction_window_panics [OF one_item_cached, of "[]" 0 "[7, 8]" fetch_78 "()" "()"]
    one_item_cached [of "[]" 0]
  by (simp add: fetch_78_def cached_def)

definition partial_write :: "os_fault option list" where
  "partial_write = [None, None, None, Some (OsFault 1 ''no space left on device''), None]"

text \<open>
  Two failed writes make a spoilt chunk look complete. The chunk is two bytes long; two writes
  transfer one byte each and fail; the third call finds a file of two bytes and serves a zero byte
  followed by the chunk's first byte, without an error.
\<close>

theorem GetOrCreate_serves_zeros_after_partial_writes:
  "get_calls 3 ''d'' 0 2 (\<lambda>w. Ret (Inr [7, 8], Suc w)) (empty_cache ([None, None] @ partial_write @ partial_write)) 0
   = Ret [([], Some (OsError ''no space left on device'')), ([], Some (OsError ''no space left on device'')), ([0, 7], None)]"
  by code_simp

end
