(* ===== verification/Request_Context.thy ===== *)
theory Request_Context
  imports Go_Strings "HOL-Library.AList"
begin

section \<open>Requests and their context: \<open>src/pkg/context/context.go\<close>\<close>

text \<open>
  Model of the request context and of the header conventions between peers. \<open>http.Header\<close> is an
  association list from names to value lists; \<open>Get\<close>, \<open>Set\<close> and \<open>Del\<close> use the canonical form of a
  name, as the library does. A \<open>Context\<close> wraps a gin context; what the sources read and write of
  it is the request, the path parameters, the query parameters and the per-request key/value map,
  and these are the fields of the record. The host name (\<open>os.Hostname\<close>) and a fresh identifier
  (\<open>uuid.New\<close>) are arguments. Of the request logger, which is a value of that map, the model has the
  fields that it adds to every line; what is logged is left out.
\<close>

subsection \<open>HTTP headers\<close>

definition is_lower :: "char \<Rightarrow> bool" where
  "is_lower c \<longleftrightarrow> 97 \<le> (of_char c :: nat) \<and> (of_char c :: nat) \<le> 122"

definition is_upper :: "char \<Rightarrow> bool" where
  "is_upper c \<longleftrightarrow> 65 \<le> (of_char c :: nat) \<and> (of_char c :: nat) \<le> 90"

definition to_upper :: "char \<Rightarrow> char" where
  "to_upper c = (if is_lower c then char_of ((of_char c :: nat) - 32) else c)"

definition to_lower :: "char \<Rightarrow> char" where
  "to_lower c = (if is_upper c then char_of ((of_char c :: nat) + 32) else c)"

definition is_token_char :: "char \<Rightarrow> bool" where
  "is_token_char c \<longleftrightarrow> is_lower c \<or> is_upper c \<or> is_digit c \<or> c \<in> set ''!#$%&*+-.^_|~'' \<or> of_char c \<in> {39, 96::nat}"

fun canonical_loop :: "bool \<Rightarrow> string \<Rightarrow> string" where
  "canonical_loop upper [] = []"
| "canonical_loop upper (c # s) =
     (if upper then to_upper c else to_lower c) # canonical_loop (c = CHR ''-'') s"

definition CanonicalHeaderKey :: "string \<Rightarrow> string" where
  "CanonicalHeaderKey s = (if list_all is_token_char s then canonical_loop True s else s)"

type_synonym Header = "(string \<times> string list) list"

definition Header_Get :: "Header \<Rightarrow> string \<Rightarrow> string" where
  "Header_Get h key =
     (case map_of h (CanonicalHeaderKey key) of None \<Rightarrow> [] | Some [] \<Rightarrow> [] | Some (v # _) \<Rightarrow> v)"

definition Header_Set :: "string \<Rightarrow> string \<Rightarrow> Header \<Rightarrow> Header" where
  "Header_Set key val h = AList.update (CanonicalHeaderKey key) [val] h"

definition Header_Del :: "string \<Rightarrow> Header \<Rightarrow> Header" where
  "Header_Del key h = AList.delete (CanonicalHeaderKey key) h"

lemma Header_Get_Set:
  "Header_Get (Header_Set k v h) k' =
    (if CanonicalHeaderKey k' = CanonicalHeaderKey k then v else Header_Get h k')"
  by (simp add: Header_Get_def Header_Set_def update_conv')

subsection \<open>Requests and contexts\<close>

record Request =
  req_Method :: string
  req_Path :: string
  req_RawQuery :: string
  req_Header :: Header

datatype ctx_value = CtxString string | CtxRefType string | CtxLogger

record Context =
  ctx_Request :: Request
  ctx_Params :: "(string \<times> string) list"
  ctx_Query :: "(string \<times> string) list"
  ctx_Keys :: "(string \<times> ctx_value) list"

definition ctx_Set :: "string \<Rightarrow> ctx_value \<Rightarrow> Context \<Rightarrow> Context" where
  "ctx_Set key v c = c\<lparr>ctx_Keys := AList.update key v (ctx_Keys c)\<rparr>"

definition ctx_Get :: "Context \<Rightarrow> string \<Rightarrow> ctx_value option" where
  "ctx_Get c key = map_of (ctx_Keys c) key"

definition GetString :: "Context \<Rightarrow> string \<Rightarrow> string" where
  "GetString c key = (case ctx_Get c key of Some (CtxString s) \<Rightarrow> s | _ \<Rightarrow> [])"

definition Param :: "Context \<Rightarrow> string \<Rightarrow> string" where
  "Param c key = (case map_of (ctx_Params c) key of Some s \<Rightarrow> s | None \<Rightarrow> [])"

definition Query :: "Context \<Rightarrow> string \<Rightarrow> string" where
  "Query c key = (case map_of (ctx_Query c) key of Some s \<Rightarrow> s | None \<Rightarrow> [])"

lemma ctx_Get_Set: "ctx_Get (ctx_Set k v c) k' = (if k' = k then Some v else ctx_Get c k')"
  by (simp add: ctx_Get_def ctx_Set_def update_conv')

lemma ctx_Set_frame [simp]:
  "ctx_Request (ctx_Set k v c) = ctx_Request c"
  "ctx_Params (ctx_Set k v c) = ctx_Params c"
  "ctx_Query (ctx_Set k v c) = ctx_Query c"
  by (simp_all add: ctx_Set_def)

lemma GetString_Set: "GetString (ctx_Set k v c) k' =
    (if k' = k then (case v of CtxString s \<Rightarrow> s | _ \<Rightarrow> []) else GetString c k')"
  by (simp add: GetString_def ctx_Get_Set)

subsection \<open>Context keys and header names\<close>

definition CorrelationIdCtxKey :: string where "CorrelationIdCtxKey = ''correlation_id''"
definition DigestCtxKey :: string where "DigestCtxKey = ''digest''"
definition FileChunkCtxKey :: string where "FileChunkCtxKey = ''file_chunk''"
definition BlobUrlCtxKey :: string where "BlobUrlCtxKey = ''blob_url''"
definition BlobRangeCtxKey :: string where "BlobRangeCtxKey = ''blob_range''"
definition NamespaceCtxKey :: string where "NamespaceCtxKey = ''namespace''"
definition ReferenceCtxKey :: string where "ReferenceCtxKey = ''reference''"
definition RefTypeCtxKey :: string where "RefTypeCtxKey = ''ref_type''"
definition LoggerCtxKey :: string where "LoggerCtxKey = ''logger''"
definition P2PHeaderKey :: string where "P2PHeaderKey = ''X-MS-Peerd-RequestFromPeer''"
definition CorrelationHeaderKey :: string where "CorrelationHeaderKey = ''X-MS-Peerd-CorrelationId''"
definition NodeHeaderKey :: string where "NodeHeaderKey = ''X-MS-Peerd-Node''"

lemmas ctx_key_defs = CorrelationIdCtxKey_def DigestCtxKey_def FileChunkCtxKey_def BlobUrlCtxKey_def
  BlobRangeCtxKey_def NamespaceCtxKey_def ReferenceCtxKey_def RefTypeCtxKey_def LoggerCtxKey_def

lemma header_keys_canonical:
  "CanonicalHeaderKey P2PHeaderKey = ''X-Ms-Peerd-Requestfrompeer''"
  "CanonicalHeaderKey CorrelationHeaderKey = ''X-Ms-Peerd-Correlationid''"
  "CanonicalHeaderKey NodeHeaderKey = ''X-Ms-Peerd-Node''"
  "CanonicalHeaderKey ''Range'' = ''Range''"
  by code_simp+

subsection \<open>Operations\<close>

definition IsRequestFromAPeer :: "Context \<Rightarrow> bool" where
  "IsRequestFromAPeer c \<longleftrightarrow> Header_Get (req_Header (ctx_Request c)) P2PHeaderKey = ''true''"

definition FillCorrelationId :: "string \<Rightarrow> Context \<Rightarrow> Context" where
  "FillCorrelationId uuid c =
     (let correlationId = Header_Get (req_Header (ctx_Request c)) CorrelationHeaderKey;
          correlationId = (if correlationId = [] then uuid else correlationId)
      in ctx_Set CorrelationIdCtxKey (CtxString correlationId) c)"

definition SetOutboundHeaders :: "string \<Rightarrow> Context \<Rightarrow> Header \<Rightarrow> Header" where
  "SetOutboundHeaders NodeName c h =
     (let h = Header_Set P2PHeaderKey ''true'' h;
          h = Header_Set CorrelationHeaderKey (GetString c CorrelationIdCtxKey) h
      in Header_Set NodeHeaderKey NodeName h)"

text \<open>
  The logger of a request: whether it is the one that was stored in the context, instead of one that
  discards its lines, and its fields. The URL is printed by the standard library, and gin tells the address of the client.
\<close>

definition Logger :: "(Request \<Rightarrow> string) \<Rightarrow> (Request \<Rightarrow> string) \<Rightarrow> Context \<Rightarrow> (bool \<times> (string \<times> string) list) outcome" where
  "Logger urlString clientIP c =
     obind (case ctx_Get c LoggerCtxKey of None \<Rightarrow> Ret False | Some CtxLogger \<Rightarrow> Ret True | Some v \<Rightarrow> Panic TypeAssertion) (\<lambda>l.
       Ret (l, [(''correlationid'', GetString c CorrelationIdCtxKey), (''url'', urlString (ctx_Request c)),
         (''range'', Header_Get (req_Header (ctx_Request c)) ''Range''), (''requestfrompeer'', if IsRequestFromAPeer c then ''true'' else ''false''),
         (''clientip'', clientIP (ctx_Request c)), (''clientname'', Header_Get (req_Header (ctx_Request c)) NodeHeaderKey)]))"

text \<open>No other key of the context interferes with it.\<close>

lemma Logger_Set:
  "k \<noteq> LoggerCtxKey \<Longrightarrow> k \<noteq> CorrelationIdCtxKey \<Longrightarrow> Logger urlString clientIP (ctx_Set k v c) = Logger urlString clientIP c"
  by (simp add: Logger_def ctx_Get_Set GetString_Set IsRequestFromAPeer_def)

definition BlobUrl :: "Context \<Rightarrow> string" where
  "BlobUrl c = TrimPrefix (Param c ''url'') ''/'' @ ''?'' @ req_RawQuery (ctx_Request c)"

definition RangeStartIndex :: "string \<Rightarrow> int64 result" where
  "RangeStartIndex rangeValue =
     (if rangeValue = [] then Inl (Errorf ''no range header'')
      else (case Split rangeValue CHR ''='' of
          [unit, spec] \<Rightarrow>
            if unit \<noteq> ''bytes'' then Inl (Errorf ''invalid range format'')
            else (case Split spec CHR ''-'' of
                [start, stop] \<Rightarrow>
                  (case Atoi start of (startIndex, None) \<Rightarrow> Inr startIndex | (_, Some e) \<Rightarrow> Inl e)
              | _ \<Rightarrow> Inl (Errorf ''invalid range format''))
        | _ \<Rightarrow> Inl (Errorf ''invalid range format'')))"

subsection \<open>Range headers\<close>

lemma case_two_Inr_iff:
  "(case xs of [a, b] \<Rightarrow> f a b | _ \<Rightarrow> Inl e) = Inr n \<longleftrightarrow> (\<exists>a b. xs = [a, b] \<and> f a b = Inr n)"
  by (auto split: list.splits)

lemma case_value_Inr_iff:
  "(case p of (x, None) \<Rightarrow> Inr x | (x, Some e) \<Rightarrow> Inl e) = Inr n \<longleftrightarrow> p = (n, None)"
  by (auto split: prod.splits option.splits)

lemma RangeStartIndex_Inr_iff:
  "RangeStartIndex s = Inr n \<longleftrightarrow>
     (\<exists>a b. s = ''bytes='' @ a @ CHR ''-'' # b \<and> CHR ''='' \<notin> set (a @ b) \<and> CHR ''-'' \<notin> set (a @ b)
        \<and> Atoi a = (n, None))"
proof -
  have *: "RangeStartIndex s = Inr n \<longleftrightarrow> (\<exists>spec. Split s CHR ''='' = [''bytes'', spec]
      \<and> (\<exists>a b. Split spec CHR ''-'' = [a, b] \<and> Atoi a = (n, None)))"
    by (cases "s = []")
      (auto simp: RangeStartIndex_def case_two_Inr_iff case_value_Inr_iff split: if_splits)
  show ?thesis (is "_ \<longleftrightarrow> ?rhs")
  proof
    assume "RangeStartIndex s = Inr n"
    then obtain spec a b where "Split s CHR ''='' = [''bytes'', spec]" "Split spec CHR ''-'' = [a, b]"
      and n: "Atoi a = (n, None)" unfolding * by blast
    then have "s = ''bytes='' @ spec" "CHR ''='' \<notin> set spec" "spec = a @ CHR ''-'' # b" "CHR ''-'' \<notin> set (a @ b)"
      by (simp_all add: Split_2_iff)
    with n show ?rhs by (intro exI [of _ a] exI [of _ b]) simp
  next
    assume ?rhs
    then obtain a b where s: "s = ''bytes='' @ a @ CHR ''-'' # b" "CHR ''='' \<notin> set (a @ b)"
      "CHR ''-'' \<notin> set (a @ b)" and n: "Atoi a = (n, None)" by blast
    then have "Split s CHR ''='' = [''bytes'', a @ CHR ''-'' # b]" "Split (a @ CHR ''-'' # b) CHR ''-'' = [a, b]"
      by (simp_all add: Split_append Split_no_sep)
    with n show "RangeStartIndex s = Inr n" unfolding * by blast
  qed
qed

lemma RangeStartIndex_nonneg:
  assumes "RangeStartIndex s = Inr n" shows "0 \<le> n" and "in_int64 n"
proof -
  obtain a where a: "CHR ''-'' \<notin> set a" "Atoi a = (n, None)"
    using assms by (auto simp: RangeStartIndex_Inr_iff)
  show "0 \<le> n" using ParseInt_nonneg [OF a(1)] a(2) by simp
  show "in_int64 n" using ParseInt_in_int64 [of a] a(2) by simp
qed

definition range_header :: "int64 \<Rightarrow> int64 \<Rightarrow> string" where
  "range_header start stop = ''bytes='' @ FormatInt start @ ''-'' @ FormatInt stop"

lemma FormatInt_nonneg_chars: "0 \<le> x \<Longrightarrow> c \<in> set (FormatInt x) \<Longrightarrow> is_digit c"
  using format_nat_digits by (auto simp: FormatInt_def)

lemma RangeStartIndex_range_header:
  assumes "in_int64 start" and "0 \<le> start" and "0 \<le> stop"
  shows "RangeStartIndex (range_header start stop) = Inr start"
proof -
  have "\<not> is_digit CHR ''=''" by (simp add: is_digit_def)
  then have "CHR ''='' \<notin> set (FormatInt start @ FormatInt stop)"
    "CHR ''-'' \<notin> set (FormatInt start @ FormatInt stop)"
    using assms FormatInt_nonneg_chars not_digit_sign by fastforce+
  then show ?thesis
    unfolding RangeStartIndex_Inr_iff range_header_def using ParseInt_FormatInt [OF assms(1)]
    by (intro exI [of _ "FormatInt start"] exI [of _ "FormatInt stop"]) simp
qed

text \<open>
  Which range headers are accepted, and with which start. \<open>RangeStartIndex\<close> succeeds exactly on
  \<open>bytes=<start>-<end>\<close> with one \<open>=\<close>, one \<open>-\<close> and a start that \<open>strconv.Atoi\<close> accepts (the
  end is not looked at), so suffix ranges and multiple ranges are errors; the start it returns is
  never negative and fits in 64 bits.
\<close>

theorem RangeStartIndex_correct:
  "(RangeStartIndex s = Inr n \<longleftrightarrow>
     (\<exists>a b. s = ''bytes='' @ a @ CHR ''-'' # b \<and> CHR ''='' \<notin> set (a @ b) \<and> CHR ''-'' \<notin> set (a @ b)
        \<and> Atoi a = (n, None)))
   \<and> (case RangeStartIndex s of Inr m \<Rightarrow> 0 \<le> m \<and> in_int64 m | Inl _ \<Rightarrow> True)"
  using RangeStartIndex_nonneg [of s] by (auto simp: RangeStartIndex_Inr_iff split: sum.splits)

subsection \<open>The mark of a peer request\<close>

lemma SetOutboundHeaders_Get:
  "Header_Get (SetOutboundHeaders NodeName c h) P2PHeaderKey = ''true''"
  "Header_Get (SetOutboundHeaders NodeName c h) CorrelationHeaderKey = GetString c CorrelationIdCtxKey"
  "Header_Get (SetOutboundHeaders NodeName c h) NodeHeaderKey = NodeName"
  "Header_Get (SetOutboundHeaders NodeName c h) ''Range'' = Header_Get h ''Range''"
  by (simp_all add: SetOutboundHeaders_def Header_Get_Set header_keys_canonical)

text \<open>
  Whoever receives a request that went through \<open>SetOutboundHeaders\<close> sees it as coming from a
  peer, and fills in the same correlation id as the sender's (when the sender has one), whatever
  headers the request had before.
\<close>

theorem outbound_request_recognised:
  assumes "req_Header (ctx_Request c') = SetOutboundHeaders NodeName c h"
  shows "IsRequestFromAPeer c'
    \<and> (GetString c CorrelationIdCtxKey \<noteq> [] \<longrightarrow>
        GetString (FillCorrelationId uuid c') CorrelationIdCtxKey = GetString c CorrelationIdCtxKey)"
  using assms
  by (simp add: IsRequestFromAPeer_def FillCorrelationId_def SetOutboundHeaders_Get GetString_Set)

theorem outbound_request_recognised_witness:
  "IsRequestFromAPeer \<lparr>ctx_Request = \<lparr>req_Method = ''GET'', req_Path = [], req_RawQuery = [],
      req_Header = SetOutboundHeaders ''node1'' \<lparr>ctx_Request = \<lparr>req_Method = ''GET'', req_Path = [],
        req_RawQuery = [], req_Header = []\<rparr>, ctx_Params = [], ctx_Query = [],
        ctx_Keys = [(CorrelationIdCtxKey, CtxString ''id'')]\<rparr> []\<rparr>,
      ctx_Params = [], ctx_Query = [], ctx_Keys = []\<rparr>"
  using outbound_request_recognised [of "\<lparr>ctx_Request = \<lparr>req_Method = ''GET'', req_Path = [], req_RawQuery = [],
      req_Header = SetOutboundHeaders ''node1'' \<lparr>ctx_Request = \<lparr>req_Method = ''GET'', req_Path = [],
        req_RawQuery = [], req_Header = []\<rparr>, ctx_Params = [], ctx_Query = [],
        ctx_Keys = [(CorrelationIdCtxKey, CtxString ''id'')]\<rparr> []\<rparr>,
      ctx_Params = [], ctx_Query = [], ctx_Keys = []\<rparr>"] by simp

end
