(* ===== verification/Go_Url.thy ===== *)
theory Go_Url
  imports Go_Strings
begin

section \<open>URLs: what the code uses of \<open>net/url\<close>\<close>

text \<open>
  \<open>url.Parse\<close> of the Go standard library, followed clause by clause (scheme, query, authority,
  port, percent-encoding), because the code turns its errors into errors of its own: a peer address,
  a blob address or an image reference that does not parse is refused. \<open>RawPath\<close> and \<open>OmitHost\<close>,
  which only matter for printing unusual addresses, are left out.
\<close>

record URL =
  u_Scheme :: string
  u_Opaque :: string
  u_User :: "string option"
  u_Host :: string
  u_Path :: string
  u_RawQuery :: string
  u_ForceQuery :: bool
  u_Fragment :: string

definition empty_URL :: URL where
  "empty_URL = \<lparr>u_Scheme = [], u_Opaque = [], u_User = None, u_Host = [], u_Path = [], u_RawQuery = [],
     u_ForceQuery = False, u_Fragment = []\<rparr>"

definition is_alpha :: "char \<Rightarrow> bool" where
  "is_alpha c \<longleftrightarrow> (97 \<le> (of_char c :: nat) \<and> (of_char c :: nat) \<le> 122) \<or> (65 \<le> (of_char c :: nat) \<and> (of_char c :: nat) \<le> 90)"

definition is_ctl :: "char \<Rightarrow> bool" where
  "is_ctl c \<longleftrightarrow> (of_char c :: nat) < 32 \<or> (of_char c :: nat) = 127"

definition ascii_lower :: "char \<Rightarrow> char" where
  "ascii_lower c = (if 65 \<le> (of_char c :: nat) \<and> (of_char c :: nat) \<le> 90 then char_of (of_char c + 32 :: nat) else c)"

subsection \<open>Percent-encoding\<close>

datatype encoding = encodePath | encodeHost | encodeZone | encodeUserPassword | encodeFragment

definition unhex :: "char \<Rightarrow> nat option" where
  "unhex c =
     (let n = (of_char c :: nat) in
      if 48 \<le> n \<and> n \<le> 57 then Some (n - 48)
      else if 97 \<le> n \<and> n \<le> 102 then Some (n - 87)
      else if 65 \<le> n \<and> n \<le> 70 then Some (n - 55)
      else None)"

definition host_char :: "char \<Rightarrow> bool" where
  "host_char c \<longleftrightarrow> is_alpha c \<or> is_digit c \<or> c \<in> set ''!$&()*+,;=:[]<>-_.~'' \<or> c = CHR 34 \<or> c = CHR 39"

definition escape_allowed :: "encoding \<Rightarrow> char \<Rightarrow> char \<Rightarrow> nat \<Rightarrow> bool" where
  "escape_allowed mode h l v \<longleftrightarrow>
     (case mode of
        encodeHost \<Rightarrow> (case unhex h of Some d \<Rightarrow> d \<ge> 8 | None \<Rightarrow> False) \<or> [h, l] = ''25''
      | encodeZone \<Rightarrow> [h, l] = ''25'' \<or> v = 32 \<or> host_char (char_of v)
      | _ \<Rightarrow> True)"

fun unescape :: "encoding \<Rightarrow> string \<Rightarrow> string result" where
  "unescape mode [] = Inr []"
| "unescape mode (c # s) =
     (if c = CHR 37 then
        (case s of
           h # l # t \<Rightarrow>
             (case (unhex h, unhex l) of
                (Some a, Some b) \<Rightarrow>
                  (if escape_allowed mode h l (16 * a + b)
                   then (case unescape mode t of Inl e \<Rightarrow> Inl e | Inr r \<Rightarrow> Inr (char_of (16 * a + b) # r))
                   else Inl (Errorf ''invalid URL escape''))
              | _ \<Rightarrow> Inl (Errorf ''invalid URL escape''))
         | _ \<Rightarrow> Inl (Errorf ''invalid URL escape''))
      else if (mode = encodeHost \<or> mode = encodeZone) \<and> (of_char c :: nat) < 128 \<and> \<not> host_char c
      then Inl (Errorf ''invalid character in host name'')
      else (case unescape mode s of Inl e \<Rightarrow> Inl e | Inr r \<Rightarrow> Inr (c # r)))"

subsection \<open>The parts of a URL\<close>

fun scheme_loop :: "string \<Rightarrow> string \<Rightarrow> (string \<times> string) option" where
  "scheme_loop acc [] = None"
| "scheme_loop acc (c # s) =
     (if is_alpha c then scheme_loop (acc @ [c]) s
      else if is_digit c \<or> c \<in> set ''+-.'' then (if acc = [] then None else scheme_loop (acc @ [c]) s)
      else if c = CHR '':'' then Some (acc, s)
      else None)"

text \<open>\<open>getScheme\<close>: scheme and rest; no scheme is \<open>("", rawURL)\<close>, a leading colon is an error.\<close>

definition getScheme :: "string \<Rightarrow> (string \<times> string) result" where
  "getScheme raw =
     (case scheme_loop [] raw of
        None \<Rightarrow> Inr ([], raw)
      | Some ([], rest) \<Rightarrow> Inl (Errorf ''missing protocol scheme'')
      | Some (sch, rest) \<Rightarrow> Inr (sch, rest))"

definition validOptionalPort :: "string \<Rightarrow> bool" where
  "validOptionalPort port \<longleftrightarrow> port = [] \<or> (hd port = CHR '':'' \<and> list_all is_digit (tl port))"

fun IndexStr :: "string \<Rightarrow> string \<Rightarrow> nat option" where
  "IndexStr s sub = (if HasPrefix s sub then Some 0 else case s of [] \<Rightarrow> None | _ # t \<Rightarrow> map_option Suc (IndexStr t sub))"

definition parseHost :: "string \<Rightarrow> string result" where
  "parseHost host =
     (if HasPrefix host ''['' then
        (case LastIndexByte host CHR '']'' of
           None \<Rightarrow> Inl (Errorf ''missing bracket in host'')
         | Some i \<Rightarrow>
             (if \<not> validOptionalPort (drop (Suc i) host) then Inl (Errorf ''invalid port after host'')
              else (case IndexStr (take i host) ''%25'' of
                      Some z \<Rightarrow>
                        (case (unescape encodeHost (take z host), unescape encodeZone (drop z (take i host)),
                               unescape encodeHost (drop i host)) of
                           (Inr a, Inr b, Inr c) \<Rightarrow> Inr (a @ b @ c)
                         | (Inl e, _, _) \<Rightarrow> Inl e
                         | (_, Inl e, _) \<Rightarrow> Inl e
                         | (_, _, Inl e) \<Rightarrow> Inl e)
                    | None \<Rightarrow> unescape encodeHost host)))
      else (case LastIndexByte host CHR '':'' of
              Some i \<Rightarrow> (if validOptionalPort (drop i host) then unescape encodeHost host
                        else Inl (Errorf ''invalid port after host''))
            | None \<Rightarrow> unescape encodeHost host))"

definition validUserinfo :: "string \<Rightarrow> bool" where
  "validUserinfo s \<longleftrightarrow> list_all (\<lambda>c. is_alpha c \<or> is_digit c \<or> c \<in> set ''-._:~!$&()*+,;=%@'' \<or> c = CHR 39) s"

definition parseAuthority :: "string \<Rightarrow> (string option \<times> string) result" where
  "parseAuthority authority =
     (case LastIndexByte authority CHR ''@'' of
        None \<Rightarrow> (case parseHost authority of Inl e \<Rightarrow> Inl e | Inr h \<Rightarrow> Inr (None, h))
      | Some i \<Rightarrow>
          (case parseHost (drop (Suc i) authority) of
             Inl e \<Rightarrow> Inl e
           | Inr h \<Rightarrow>
               (let userinfo = take i authority in
                if \<not> validUserinfo userinfo then Inl (Errorf ''net/url: invalid userinfo'')
                else (case unescape encodeUserPassword userinfo of
                        Inl e \<Rightarrow> Inl e | Inr u \<Rightarrow> Inr (Some u, h)))))"

definition cut_path :: "string \<Rightarrow> string \<times> string" where
  "cut_path s = (takeWhile (\<lambda>c. c \<noteq> CHR ''/'') s, dropWhile (\<lambda>c. c \<noteq> CHR ''/'') s)"

definition url_finish :: "string \<Rightarrow> URL \<Rightarrow> URL result" where
  "url_finish path u = (case unescape encodePath path of Inl e \<Rightarrow> Inl e | Inr p \<Rightarrow> Inr (u\<lparr>u_Path := p\<rparr>))"

text \<open>The path part, the query, and whether the URL ends with its only \<open>?\<close>.\<close>

definition split_query :: "string \<Rightarrow> string \<times> string \<times> bool" where
  "split_query s =
     (if s \<noteq> [] \<and> last s = CHR ''?'' \<and> CHR ''?'' \<notin> set (butlast s) then (butlast s, [], True)
      else (case Cut s CHR ''?'' of (rest, query, _) \<Rightarrow> (rest, query, False)))"

definition url_parse :: "string \<Rightarrow> URL result" where
  "url_parse raw =
     (if list_ex is_ctl raw then Inl (Errorf ''net/url: invalid control character in URL'')
      else if raw = ''*'' then Inr (empty_URL\<lparr>u_Path := ''*''\<rparr>)
      else (case getScheme raw of
        Inl e \<Rightarrow> Inl e
      | Inr (sch, rest0) \<Rightarrow>
          (case split_query rest0 of
             (rest, query, force) \<Rightarrow>
               (let u = empty_URL\<lparr>u_Scheme := map ascii_lower sch, u_RawQuery := query, u_ForceQuery := force\<rparr>
                in if \<not> HasPrefix rest ''/'' \<and> sch \<noteq> [] then Inr (u\<lparr>u_Opaque := rest\<rparr>)
                   else if \<not> HasPrefix rest ''/'' \<and> CHR '':'' \<in> set (fst (cut_path rest))
                   then Inl (Errorf ''first path segment in URL cannot contain colon'')
                   else if (sch \<noteq> [] \<or> \<not> HasPrefix rest ''///'') \<and> HasPrefix rest ''//''
                   then (case parseAuthority (fst (cut_path (drop 2 rest))) of
                           Inl e \<Rightarrow> Inl e
                         | Inr (user, host) \<Rightarrow>
                             url_finish (snd (cut_path (drop 2 rest))) (u\<lparr>u_User := user, u_Host := host\<rparr>))
                   else url_finish rest u))))"

definition url_Parse :: "string \<Rightarrow> URL result" where
  "url_Parse rawURL =
     (case Cut rawURL CHR ''#'' of
        (u, frag, _) \<Rightarrow>
          (case url_parse u of
             Inl e \<Rightarrow> Inl (WrapErr ''url.Error'' e)
           | Inr url \<Rightarrow>
               (case unescape encodeFragment frag of
                  Inl e \<Rightarrow> Inl (WrapErr ''url.Error'' e)
                | Inr f \<Rightarrow> Inr (url\<lparr>u_Fragment := f\<rparr>))))"

lemma url_Parse_error: "url_Parse s = Inl e \<Longrightarrow> e \<noteq> EOF"
  by (auto simp: url_Parse_def split: prod.splits sum.splits)

text \<open>\<open>URL.Hostname()\<close>: the host without its port and without the brackets of an IPv6 address.\<close>

definition Hostname :: "URL \<Rightarrow> string" where
  "Hostname u =
     (let h = u_Host u;
          h1 = (case LastIndexByte h CHR '':'' of
                  Some i \<Rightarrow> (if validOptionalPort (drop i h) then take i h else h)
                | None \<Rightarrow> h)
      in if HasPrefix h1 ''['' \<and> h1 \<noteq> [] \<and> last h1 = CHR '']'' then butlast (tl h1) else h1)"

text \<open>
  \<open>URL.String()\<close>: what \<open>escape\<close> leaves alone depends on the part of the address; user information is
  kept undecoded in the model and is printed part by part.
\<close>

definition shouldEscape :: "encoding \<Rightarrow> char \<Rightarrow> bool" where
  "shouldEscape mode c \<longleftrightarrow>
     (if is_alpha c \<or> is_digit c \<or> c \<in> set ''-_.~'' then False
      else if (mode = encodeHost \<or> mode = encodeZone) \<and> host_char c then False
      else if c \<in> set ''$&+,/:;=?@'' then
        (case mode of encodePath \<Rightarrow> c = CHR ''?'' | encodeUserPassword \<Rightarrow> c \<in> set ''@/?:'' | encodeFragment \<Rightarrow> False | _ \<Rightarrow> True)
      else if mode = encodeFragment \<and> c \<in> set ''!()*'' then False
      else True)"

definition upperhex :: "nat \<Rightarrow> char" where
  "upperhex n = char_of (if n < 10 then 48 + n else 55 + n)"

definition url_escape :: "encoding \<Rightarrow> string \<Rightarrow> string" where
  "url_escape mode s =
     concat (map (\<lambda>c. if shouldEscape mode c then [CHR 37, upperhex (of_char c div 16), upperhex (of_char c mod 16)] else [c]) s)"

definition url_String :: "URL \<Rightarrow> string" where
  "url_String u =
     (let sch = (if u_Scheme u \<noteq> [] then u_Scheme u @ '':'' else []);
          user = (case u_User u of None \<Rightarrow> []
            | Some ui \<Rightarrow> (case Cut ui CHR '':'' of (name, pw, found) \<Rightarrow>
                url_escape encodeUserPassword name @ (if found then '':'' @ url_escape encodeUserPassword pw else [])) @ ''@'');
          path = (if u_Path u = ''*'' then ''*'' else url_escape encodePath (u_Path u));
          body =
            (if u_Opaque u \<noteq> [] then u_Opaque u
             else
               (if (u_Scheme u \<noteq> [] \<or> u_Host u \<noteq> [] \<or> u_User u \<noteq> None) \<and> (u_Host u \<noteq> [] \<or> u_Path u \<noteq> [] \<or> u_User u \<noteq> None)
                then ''//'' @ user @ url_escape encodeHost (u_Host u) else [])
               @ (if path \<noteq> [] \<and> hd path \<noteq> CHR ''/'' \<and> u_Host u \<noteq> [] then ''/'' else
                  if sch = [] \<and> u_Host u = [] \<and> u_User u = None \<and> CHR '':'' \<in> set (takeWhile (\<lambda>c. c \<noteq> CHR ''/'') path) then ''./'' else [])
               @ path)
      in sch @ body @ (if u_ForceQuery u \<or> u_RawQuery u \<noteq> [] then ''?'' @ u_RawQuery u else [])
         @ (if u_Fragment u \<noteq> [] then ''#'' @ url_escape encodeFragment (u_Fragment u) else []))"

text \<open>Whether \<open>URL.Query()\<close> is empty: malformed pairs are dropped.\<close>

definition Query_empty :: "URL \<Rightarrow> bool" where
  "Query_empty u \<longleftrightarrow> list_all (\<lambda>p. p = [] \<or> CHR '';'' \<in> set p \<or>
     (case Cut p CHR ''='' of (key, val, _) \<Rightarrow>
        (case (unescape encodePath key, unescape encodePath val) of (Inr _, Inr _) \<Rightarrow> False | _ \<Rightarrow> True))) (Split (u_RawQuery u) CHR ''&'')"

subsection \<open>Plain addresses\<close>

lemma Cut_absent: "sep \<notin> set s \<Longrightarrow> Cut s sep = (s, [], False)"
  by (induction s) auto

lemma Cut_first: "sep \<notin> set a \<Longrightarrow> Cut (a @ sep # b) sep = (a, b, True)"
  by (induction a) auto

lemma unescape_plain: "CHR 37 \<notin> set s \<Longrightarrow> mode \<noteq> encodeHost \<Longrightarrow> mode \<noteq> encodeZone \<Longrightarrow> unescape mode s = Inr s"
  by (induction s) auto

lemma getScheme_https: "getScheme (''https:'' @ s) = Inr (''https'', s)"
  by (simp add: getScheme_def is_alpha_def is_digit_def)

lemma map_lower_https: "map ascii_lower ''https'' = ''https''"
  by code_simp

text \<open>An address \<open>https://authority/path?query\<close> without escapes is taken apart at these places.\<close>

lemma url_Parse_https:
  assumes "parseAuthority hp = Inr (usr, host)" and "set hp \<inter> {CHR ''/'', CHR ''?''} = {}"
    and "CHR ''?'' \<notin> set path" and "CHR 37 \<notin> set path"
    and "\<not> list_ex is_ctl (hp @ path @ q)" and "CHR ''#'' \<notin> set (hp @ path @ q)"
  shows "url_Parse (''https://'' @ hp @ CHR ''/'' # path @ ''?'' @ q) =
    Inr (empty_URL\<lparr>u_Scheme := ''https'', u_RawQuery := q, u_ForceQuery := (q = []), u_User := usr, u_Host := host,
      u_Path := CHR ''/'' # path\<rparr>)"
proof -
  let ?rest = "''//'' @ hp @ CHR ''/'' # path" and ?raw = "''https://'' @ hp @ CHR ''/'' # path @ ''?'' @ q"
  have noq: "CHR ''?'' \<notin> set ?rest" using assms(2,3) by auto
  have ctl: "\<not> list_ex is_ctl ?raw" using assms(5) by (auto simp: is_ctl_def)
  have frag: "CHR ''#'' \<notin> set ?raw" using assms(6) by auto
  have sch: "getScheme ?raw = Inr (''https'', ?rest @ ''?'' @ q)" using getScheme_https [of "?rest @ ''?'' @ q"] by simp
  have q: "split_query (?rest @ ''?'' @ q) = (?rest, q, q = [])"
    using noq Cut_first [OF noq, of q] by (cases q rule: rev_cases) (auto simp: split_query_def butlast_append)
  have path: "cut_path (drop 2 ?rest) = (hp, CHR ''/'' # path)"
    using assms(2) by (auto simp: cut_path_def takeWhile_append dropWhile_append takeWhile_eq_all_conv dropWhile_eq_Nil_conv)
  have un: "unescape encodePath (CHR ''/'' # path) = Inr (CHR ''/'' # path)" using assms(4) by (intro unescape_plain) auto
  have "url_parse ?raw = Inr (empty_URL\<lparr>u_Scheme := ''https'', u_RawQuery := q, u_ForceQuery := (q = []), u_User := usr,
      u_Host := host, u_Path := CHR ''/'' # path\<rparr>)"
    using ctl sch q path un assms(1) map_lower_https
    by (simp add: url_parse_def url_finish_def HasPrefix_def Let_def)
  then show ?thesis using Cut_absent [OF frag] by (simp add: url_Parse_def empty_URL_def)
qed

text \<open>The same for any alphabetic scheme and no query.\<close>

lemma scheme_loop_alpha: "list_all is_alpha s \<Longrightarrow> scheme_loop acc (s @ CHR '':'' # rest) = Some (acc @ s, rest)"
  by (induction s arbitrary: acc) (auto simp: is_alpha_def is_digit_def)

lemma getScheme_alpha: "list_all is_alpha s \<Longrightarrow> s \<noteq> [] \<Longrightarrow> getScheme (s @ CHR '':'' # rest) = Inr (s, rest)"
  by (cases s) (simp_all add: getScheme_def scheme_loop_alpha)

lemma url_Parse_plain:
  assumes "list_all is_alpha sch" and "sch \<noteq> []" and "parseAuthority hp = Inr (usr, host)" and "CHR ''/'' \<notin> set hp"
    and "set (hp @ path) \<inter> {CHR ''?'', CHR ''#''} = {}" and "CHR 37 \<notin> set path"
    and "\<not> list_ex is_ctl (sch @ hp @ path)" and "path = [] \<or> hd path = CHR ''/''"
  shows "url_Parse (sch @ ''://'' @ hp @ path) =
    Inr (empty_URL\<lparr>u_Scheme := map ascii_lower sch, u_User := usr, u_Host := host, u_Path := path\<rparr>)"
proof -
  let ?rest = "''//'' @ hp @ path" and ?raw = "sch @ ''://'' @ hp @ path"
  have alpha: "set sch \<inter> {CHR ''?'', CHR ''#'', CHR ''*''} = {}"
    using assms(1) by (auto simp: list_all_iff is_alpha_def)
  have noq: "CHR ''?'' \<notin> set ?rest" using assms(5) by auto
  have ctl: "\<not> list_ex is_ctl ?raw" using assms(7) by (auto simp: is_ctl_def)
  have frag: "CHR ''#'' \<notin> set ?raw" using assms(5) alpha by auto
  have sch: "getScheme ?raw = Inr (sch, ?rest)" using getScheme_alpha [OF assms(1,2), of ?rest] by simp
  have q: "split_query ?rest = (?rest, [], False)"
  proof -
    have "last ?rest \<noteq> CHR ''?''" using noq last_in_set [of ?rest] by (metis append_is_Nil_conv list.distinct(1))
    then show ?thesis using Cut_absent [OF noq] by (simp add: split_query_def)
  qed
  have path: "cut_path (drop 2 ?rest) = (hp, path)"
    using assms(4,8) by (cases path)
      (auto simp: cut_path_def takeWhile_append dropWhile_append takeWhile_eq_all_conv dropWhile_eq_Nil_conv)
  have un: "unescape encodePath path = Inr path" using assms(6) by (intro unescape_plain) auto
  have "?raw \<noteq> ''*''" using assms(2) by (cases sch) auto
  then have "url_parse ?raw = Inr (empty_URL\<lparr>u_Scheme := map ascii_lower sch, u_User := usr, u_Host := host, u_Path := path\<rparr>)"
    using ctl sch q path un assms(2,3)
    by (simp add: url_parse_def url_finish_def HasPrefix_def Let_def empty_URL_def)
  then show ?thesis using Cut_absent [OF frag] by (simp add: url_Parse_def empty_URL_def)
qed

end
