(* ===== verification/Network_Interface.thy ===== *)
theory Network_Interface
  imports Request_Context Go_Url
begin

section \<open>The interfaces to the network\<close>

text \<open>
  The Go interfaces through which content is found and fetched, as records of their methods over a
  world \<open>'w\<close>: HTTP clients (\<open>net/http\<close> over a real network, a parameter of the model), \<open>Network\<close> of
  \<open>src/pkg/peernet/network.go\<close>, \<open>Router\<close> of \<open>src/pkg/discovery/routing/interface.go\<close>, \<open>Metrics\<close> of
  \<open>src/pkg/metrics/interface.go\<close> and \<open>Reader\<close> of \<open>src/pkg/discovery/content/reader/interface.go\<close>.
  Durations, which only reach the metrics, are left out, and a call of \<open>Metrics\<close> returns: when the
  recorder does so is shown with its model, in \<open>Prometheus_Metrics\<close>.

  A caller of \<open>Resolve\<close> waits in a \<open>select\<close> on the returned channel and on its context's deadline.
  What the \<open>select\<close> sees is a list of events: a peer, or the closing of the channel; the deadline
  ends the list. The deadline always comes, so the list is finite.
\<close>

subsection \<open>HTTP\<close>

record http_Request =
  hr_Method :: string
  hr_URL :: URL
  hr_Header :: Header

text \<open>
  A response body is the bytes that can be read and the error after them (\<open>None\<close>: the body ends).
\<close>

record http_Response =
  hs_StatusCode :: int64
  hs_ContentLength :: int64
  hs_Header :: Header
  hs_Body :: bytes
  hs_BodyErr :: "go_error option"

type_synonym 'w http_client = "http_Request \<Rightarrow> 'w \<Rightarrow> http_Response result \<times> 'w"

text \<open>\<open>http.NewRequest(method, url, nil)\<close> with a valid method; an empty port (\<open>host:\<close>) is removed.\<close>

definition http_NewRequest :: "string \<Rightarrow> string \<Rightarrow> http_Request result" where
  "http_NewRequest method url =
     (case url_Parse url of
        Inl e \<Rightarrow> Inl e
      | Inr u \<Rightarrow> Inr \<lparr>hr_Method = method,
          hr_URL = (if u_Host u \<noteq> [] \<and> last (u_Host u) = CHR '':'' then u\<lparr>u_Host := butlast (u_Host u)\<rparr> else u),
          hr_Header = []\<rparr>)"

text \<open>\<open>io.ReadFull(body, buf)\<close>: the buffer afterwards, the count and the error.\<close>

definition io_ReadFull :: "http_Response \<Rightarrow> bytes \<Rightarrow> bytes \<times> int64 \<times> go_error option" where
  "io_ReadFull resp buf =
     (let got = take (length buf) (hs_Body resp);
          buf' = got @ drop (length got) buf
      in if length got = length buf then (buf', int (length got), None)
         else (case hs_BodyErr resp of
                 Some e \<Rightarrow> (buf', int (length got), Some (if e = EOF \<and> got \<noteq> [] then ErrUnexpectedEOF else e))
               | None \<Rightarrow> (buf', int (length got), Some (if got = [] then EOF else ErrUnexpectedEOF))))"

lemma io_ReadFull_length: "io_ReadFull resp buf = (buf', n, err) \<Longrightarrow> length buf' = length buf"
  by (auto simp: io_ReadFull_def Let_def split: if_splits option.splits)

lemma io_ReadFull_None:
  "io_ReadFull resp buf = (buf', n, None) \<Longrightarrow>
    n = int (length buf) \<and> length buf \<le> length (hs_Body resp) \<and> buf' = take (length buf) (hs_Body resp)"
  by (auto simp: io_ReadFull_def Let_def min_def split: if_splits option.splits)

subsection \<open>Interfaces\<close>

record 'w Network =
  nw_HTTPClientFor :: "string \<Rightarrow> 'w http_client"
  nw_RoundTripperFor :: "string \<Rightarrow> 'w http_client"

record PeerInfo =
  pi_ID :: string
  pi_HttpHost :: string

datatype select_event = Peer PeerInfo | Closed

record 'w Router =
  rt_Net :: "'w Network"
  rt_Resolve :: "int64 \<Rightarrow> string \<Rightarrow> bool \<Rightarrow> int64 \<Rightarrow> 'w \<Rightarrow> select_event list result \<times> 'w"
  rt_ResolveWithNegativeCacheCallback :: "int64 \<Rightarrow> string \<Rightarrow> bool \<Rightarrow> int64 \<Rightarrow> 'w \<Rightarrow>
    (select_event list \<times> ('w \<Rightarrow> 'w)) result \<times> 'w"
  rt_Provide :: "string list \<Rightarrow> 'w \<Rightarrow> go_error option \<times> 'w"

record 'w Metrics =
  mt_RecordRequest :: "string \<Rightarrow> string \<Rightarrow> 'w \<Rightarrow> 'w"
  mt_RecordPeerDiscovery :: "string \<Rightarrow> 'w \<Rightarrow> 'w"
  mt_RecordPeerResponse :: "string \<Rightarrow> string \<Rightarrow> string \<Rightarrow> int64 \<Rightarrow> 'w \<Rightarrow> 'w"
  mt_RecordUpstreamResponse :: "string \<Rightarrow> string \<Rightarrow> string \<Rightarrow> int64 \<Rightarrow> 'w \<Rightarrow> 'w"

text \<open>\<open>PreadRemote\<close> returns the buffer with what was written into it, the count and the error.\<close>

record 'w Reader =
  ri_PreadRemote :: "bytes \<Rightarrow> int64 \<Rightarrow> 'w \<Rightarrow> ((bytes \<times> int64 \<times> go_error option) \<times> 'w) outcome"
  ri_FstatRemote :: "'w \<Rightarrow> ((int64 \<times> go_error option) \<times> 'w) outcome"

subsection \<open>The contract of a reader\<close>

definition slice :: "bytes \<Rightarrow> int64 \<Rightarrow> nat \<Rightarrow> bytes" where
  "slice D off n = take n (drop (nat off) D)"

lemma length_slice: "0 \<le> off \<Longrightarrow> off + int n \<le> int (length D) \<Longrightarrow> length (slice D off n) = n"
  by (simp add: slice_def)

text \<open>
  A reader of a file with content \<open>D\<close>: a read inside the file that ends without an error, or with
  \<open>io.EOF\<close>, which the clients take for success, has filled the buffer with the file's bytes; a
  stat that succeeds returns the file's length, and one that fails does not look like the file's end.
\<close>

locale file_reader =
  fixes rd :: "'w Reader" and D :: bytes
  assumes pread_content: "0 \<le> off \<Longrightarrow> off + int (length buf) \<le> int (length D) \<Longrightarrow>
      ri_PreadRemote rd buf off w = Ret ((buf', n, err), w') \<Longrightarrow> err = None \<or> err = Some EOF \<Longrightarrow>
      buf' = slice D off (length buf)"
    and fstat_length: "ri_FstatRemote rd w = Ret ((n, None), w') \<Longrightarrow> n = int (length D)"
    and fstat_error: "ri_FstatRemote rd w = Ret ((n, Some e), w') \<Longrightarrow> e \<noteq> EOF"

end
