(* ===== verification/Remote_Reader.thy ===== *)
theory Remote_Reader
  imports Network_Interface
begin

section \<open>The remote reader: \<open>src/pkg/discovery/content/reader/reader.go\<close>\<close>

text \<open>
  A \<open>reader\<close> fetches a range of a blob, from the first peer that can serve it and otherwise from the
  origin. The functions follow the source: \<open>remoteRequest\<close> builds a request out of the inbound one,
  \<open>fstatRemote\<close> and \<open>preadRemote\<close> perform it, \<open>doP2p\<close> walks over the peers in the order in which the
  router delivers them, and \<open>PreadRemote\<close> falls back to the origin. One buffer is shared by all
  attempts. The list of events of a lookup is what the \<open>select\<close> of \<open>doP2p\<close> sees before its deadline, the
  time spent on slow peers included. The host name of the node is an argument (\<open>NodeName\<close> of the context package).
\<close>

subsection \<open>Data and operations\<close>

datatype operation = operationFstatRemote | operationPreadRemote

definition errPeerNotFound :: go_error where
  "errPeerNotFound = Errorf ''peer not found''"

record 'w reader =
  rd_nodeName :: string
  rd_context :: Context
  rd_resolveTimeout :: int64
  rd_router :: "'w Router"
  rd_resolveRetries :: int64
  rd_defaultHttpClient :: "'w http_client"
  rd_metricsRecorder :: "'w Metrics"

definition copy_Header :: "Header \<Rightarrow> Header \<Rightarrow> Header" where
  "copy_Header src dst = fold (\<lambda>(key, vals) h. AList.update key vals h) src dst"

definition remoteRequest :: "'w reader \<Rightarrow> string \<Rightarrow> int64 \<Rightarrow> int64 \<Rightarrow> http_Request result" where
  "remoteRequest r u start stop =
     (case http_NewRequest ''GET'' u of
        Inl e \<Rightarrow> Inl e
      | Inr req \<Rightarrow>
          (let h = copy_Header (req_Header (ctx_Request (rd_context r))) (hr_Header req);
               h = Header_Set ''Range'' (range_header start stop) h
           in Inr (req\<lparr>hr_Header := SetOutboundHeaders (rd_nodeName r) (rd_context r) h\<rparr>)))"

definition originRequest :: "'w reader \<Rightarrow> int64 \<Rightarrow> int64 \<Rightarrow> http_Request result" where
  "originRequest r start stop = remoteRequest r (GetString (rd_context r) BlobUrlCtxKey) start stop"

definition peerRequest :: "'w reader \<Rightarrow> string \<Rightarrow> int64 \<Rightarrow> int64 \<Rightarrow> http_Request result" where
  "peerRequest r peer start stop =
     remoteRequest r (peer @ ''/blobs/'' @ GetString (rd_context r) BlobUrlCtxKey) start stop"

definition unexpected_status :: go_error where
  "unexpected_status = WrapErr ''reader.Error'' (Errorf ''unexpected response code: %d'')"

definition fstatRemote :: "http_Request \<Rightarrow> 'w http_client \<Rightarrow> 'w \<Rightarrow> (int64 \<times> go_error option) \<times> 'w" where
  "fstatRemote req client w =
     (case client req w of
        (Inl e, w') \<Rightarrow> ((0, Some (WrapErr ''reader.Error'' e)), w')
      | (Inr resp, w') \<Rightarrow>
          (if hs_StatusCode resp = 200 then ((hs_ContentLength resp, None), w')
           else if hs_StatusCode resp = 206 then
             (let l = hs_ContentLength resp; rs = Header_Get (hs_Header resp) ''Content-Range'' in
              if rs = [] then ((l, None), w')
              else (case LastIndexByte rs CHR ''/'' of
                      None \<Rightarrow> ((l, None), w')
                    | Some pos \<Rightarrow> ((fst (ParseInt (drop (Suc pos) rs)), None), w')))
           else ((0, Some unexpected_status), w')))"

definition preadRemote :: "http_Request \<Rightarrow> 'w http_client \<Rightarrow> bytes \<Rightarrow> 'w \<Rightarrow>
    (bytes \<times> int64 \<times> go_error option) \<times> 'w" where
  "preadRemote req client buf w =
     (case client req w of
        (Inl e, w') \<Rightarrow> ((buf, 0, Some (WrapErr ''reader.Error'' e)), w')
      | (Inr resp, w') \<Rightarrow>
          (if hs_StatusCode resp \<noteq> 200 \<and> hs_StatusCode resp \<noteq> 206
           then ((buf, 0, Some unexpected_status), w')
           else (io_ReadFull resp buf, w')))"

fun peerLoop :: "'w reader \<Rightarrow> ('w \<Rightarrow> 'w) \<Rightarrow> string \<Rightarrow> int64 \<Rightarrow> int64 \<Rightarrow> operation \<Rightarrow> select_event list \<Rightarrow>
    nat \<Rightarrow> bytes \<Rightarrow> 'w \<Rightarrow> (bytes \<times> int64 \<times> go_error option) \<times> 'w" where
  "peerLoop r negCacheCallback key start stop op [] peerCount buf w =
     ((buf, -1, Some errPeerNotFound), negCacheCallback w)"
| "peerLoop r negCacheCallback key start stop op (Closed # evs) peerCount buf w =
     ((buf, -1, Some errPeerNotFound), negCacheCallback w)"
| "peerLoop r negCacheCallback key start stop op (Peer peer # evs) peerCount buf w =
     (let w1 = (if peerCount = 0 then mt_RecordPeerDiscovery (rd_metricsRecorder r) (pi_HttpHost peer) w else w);
          peerCount = (if peerCount = 0 then 1 else peerCount)
      in case peerRequest r (pi_HttpHost peer) start stop of
           Inl e \<Rightarrow> peerLoop r negCacheCallback key start stop op evs peerCount buf w1
         | Inr peerReq \<Rightarrow>
             (let client = nw_HTTPClientFor (rt_Net (rd_router r)) (pi_ID peer) in
              case (if op = operationFstatRemote
                    then (case fstatRemote peerReq client w1 of ((count, err), w2) \<Rightarrow> ((buf, count, err), w2))
                    else preadRemote peerReq client buf w1) of
                ((buf', count, Some e), w2) \<Rightarrow>
                  peerLoop r negCacheCallback key start stop op evs peerCount buf' w2
              | ((buf', count, None), w2) \<Rightarrow>
                  ((buf', count, None),
                   mt_RecordPeerResponse (rd_metricsRecorder r) (pi_HttpHost peer) key
                     (if op = operationPreadRemote then ''pread'' else ''fstat'') count w2)))"

definition doP2p :: "'w reader \<Rightarrow> string \<Rightarrow> int64 \<Rightarrow> int64 \<Rightarrow> operation \<Rightarrow> bytes \<Rightarrow> 'w \<Rightarrow>
    (bytes \<times> int64 \<times> go_error option) \<times> 'w" where
  "doP2p r fileChunkKey start stop op buf w =
     (if IsRequestFromAPeer (rd_context r) then ((buf, -1, Some errPeerNotFound), w)
      else (case rt_ResolveWithNegativeCacheCallback (rd_router r) (rd_resolveTimeout r) fileChunkKey False
                   (rd_resolveRetries r) w of
              (Inl e, w') \<Rightarrow> ((buf, -1, Some e), w')
            | (Inr (evs, negCacheCallback), w') \<Rightarrow>
                peerLoop r negCacheCallback fileChunkKey start stop op evs 0 buf w'))"

definition pread_origin :: "'w reader \<Rightarrow> string \<Rightarrow> int64 \<Rightarrow> int64 \<Rightarrow> bytes \<Rightarrow> 'w \<Rightarrow>
    (bytes \<times> int64 \<times> go_error option) \<times> 'w" where
  "pread_origin r key start stop buf w =
     (case originRequest r start stop of
        Inl e \<Rightarrow> ((buf, -1, Some e), w)
      | Inr originReq \<Rightarrow>
          (case preadRemote originReq (rd_defaultHttpClient r) buf w of
             ((buf', count, err), w') \<Rightarrow>
               ((buf', count, err),
                mt_RecordUpstreamResponse (rd_metricsRecorder r) (Hostname (hr_URL originReq)) key ''pread'' count w')))"

definition PreadRemote :: "'w reader \<Rightarrow> bytes \<Rightarrow> int64 \<Rightarrow> 'w \<Rightarrow> (bytes \<times> int64 \<times> go_error option) \<times> 'w" where
  "PreadRemote r buf offset w =
     (let key = GetString (rd_context r) FileChunkCtxKey;
          start = offset;
          stop = sub64 (add64 (int (length buf)) offset) 1
      in case doP2p r key start stop operationPreadRemote buf w of
           ((buf', count, None), w') \<Rightarrow> ((buf', count, None), w')
         | ((buf', count, Some e), w') \<Rightarrow> pread_origin r key start stop buf' w')"

definition FstatRemote :: "'w reader \<Rightarrow> 'w \<Rightarrow> (int64 \<times> go_error option) \<times> 'w" where
  "FstatRemote r w =
     (let key = GetString (rd_context r) FileChunkCtxKey
      in case originRequest r 0 0 of
           Inl e \<Rightarrow> ((-1, Some e), w)
         | Inr originReq \<Rightarrow>
             (case fstatRemote originReq (rd_defaultHttpClient r) w of
                ((count, err), w') \<Rightarrow>
                  ((count, err),
                   mt_RecordUpstreamResponse (rd_metricsRecorder r) (Hostname (hr_URL originReq)) key ''fstat'' count w')))"

definition NewReader :: "string \<Rightarrow> Context \<Rightarrow> 'w Router \<Rightarrow> int64 \<Rightarrow> int64 \<Rightarrow> 'w Metrics \<Rightarrow> 'w reader" where
  "NewReader nodeName c router resolveRetries resolveTimeout metricsRecorder =
     \<lparr>rd_nodeName = nodeName, rd_context = c, rd_resolveTimeout = resolveTimeout, rd_router = router,
      rd_resolveRetries = resolveRetries, rd_defaultHttpClient = nw_HTTPClientFor (rt_Net router) [],
      rd_metricsRecorder = metricsRecorder\<rparr>"

text \<open>The interface value that \<open>NewReader\<close> returns.\<close>

definition reader_iface :: "'w reader \<Rightarrow> 'w Reader" where
  "reader_iface r = \<lparr>ri_PreadRemote = (\<lambda>buf off w. Ret (PreadRemote r buf off w)),
     ri_FstatRemote = (\<lambda>w. Ret (FstatRemote r w))\<rparr>"

text \<open>The mock of \<open>mocks/reader.go\<close>, which serves a byte slice.\<close>

definition mock_PreadRemote :: "bytes \<Rightarrow> bytes \<Rightarrow> int64 \<Rightarrow> 'w \<Rightarrow> ((bytes \<times> int64 \<times> go_error option) \<times> 'w) outcome" where
  "mock_PreadRemote dat buf offset w =
     (if offset \<ge> int (length dat) then Ret ((buf, 0, None), w)
      else if offset < 0 then Panic SliceBounds
      else (let got = take (length buf) (drop (nat offset) dat)
            in Ret ((got @ drop (length got) buf, int (length got), None), w)))"

definition NewMockReader :: "bytes \<Rightarrow> 'w Reader" where
  "NewMockReader dat = \<lparr>ri_PreadRemote = mock_PreadRemote dat,
     ri_FstatRemote = (\<lambda>w. Ret ((int (length dat), None), w))\<rparr>"

interpretation mock: file_reader "NewMockReader D" D for D
proof unfold_locales
  fix off :: int64 and buf buf' :: bytes and n :: int64 and err and w w' :: 'a
  assume *: "0 \<le> off" "off + int (length buf) \<le> int (length D)"
    "ri_PreadRemote (NewMockReader D) buf off w = Ret ((buf', n, err), w')"
  show "buf' = slice D off (length buf)"
  proof (cases "off < int (length D)")
    case False
    then have "length buf = 0" using *(2) by linarith
    then have "buf = []" by simp
    then show ?thesis using * False by (simp add: NewMockReader_def mock_PreadRemote_def slice_def)
  qed (use * in \<open>auto simp: NewMockReader_def mock_PreadRemote_def slice_def Let_def\<close>)
qed (simp_all add: NewMockReader_def)

subsection \<open>Requests\<close>

lemma remoteRequest_headers:
  assumes "remoteRequest r u start stop = Inr req"
  shows "Header_Get (hr_Header req) P2PHeaderKey = ''true''"
    and "Header_Get (hr_Header req) ''Range'' = range_header start stop"
    and "Header_Get (hr_Header req) CorrelationHeaderKey = GetString (rd_context r) CorrelationIdCtxKey"
    and "hr_Method req = ''GET''"
  using assms
  by (auto simp: remoteRequest_def http_NewRequest_def SetOutboundHeaders_Get Header_Get_Set Let_def split: sum.splits)

lemma originRequest_error: "originRequest r start stop = Inl e \<Longrightarrow> e \<noteq> EOF"
  by (auto simp: originRequest_def remoteRequest_def http_NewRequest_def Let_def dest: url_Parse_error split: sum.splits)

subsection \<open>What an honest network answers\<close>

text \<open>
  What the reader relies on in a server that honours the range of a request for the bytes \<open>start\<close> to
  \<open>stop\<close> of \<open>D\<close>: a response that the reader accepts, with status 200 or 206, carries exactly these bytes,
  or breaks off before the last of them with a transport error other than \<open>io.EOF\<close> (a body shorter than
  its announced length is \<open>io.ErrUnexpectedEOF\<close>). This is a contract of the servers that the reader is
  used with and stronger than HTTP, which allows a server to ignore the range and to answer 200 with the
  whole file: the reader would take the beginning of such a body for the range.
\<close>

definition range_response :: "bytes \<Rightarrow> int64 \<Rightarrow> int64 \<Rightarrow> http_Response \<Rightarrow> bool" where
  "range_response D start stop resp \<longleftrightarrow>
     (hs_StatusCode resp = 200 \<or> hs_StatusCode resp = 206 \<longrightarrow>
       (let part = slice D start (nat (stop - start + 1)) in
        (hs_Body resp = part \<and> hs_BodyErr resp = None)
        \<or> (length (hs_Body resp) < length part \<and> hs_BodyErr resp \<notin> {None, Some EOF})))"

definition stat_response :: "bytes \<Rightarrow> http_Response \<Rightarrow> bool" where
  "stat_response D resp \<longleftrightarrow>
     (hs_StatusCode resp = 200 \<longrightarrow> hs_ContentLength resp = int (length D))
     \<and> (hs_StatusCode resp = 206 \<longrightarrow>
          Header_Get (hs_Header resp) ''Content-Range'' = ''bytes 0-0/'' @ FormatInt (int (length D)))"

definition origin_honest :: "'w reader \<Rightarrow> bytes \<Rightarrow> bool" where
  "origin_honest r D \<longleftrightarrow> in_int64 (int (length D)) \<and>
     (\<forall>start stop req w resp w'. 0 \<le> start \<longrightarrow> start \<le> stop \<longrightarrow> stop < int (length D) \<longrightarrow>
        originRequest r start stop = Inr req \<longrightarrow> rd_defaultHttpClient r req w = (Inr resp, w') \<longrightarrow>
        range_response D start stop resp)
     \<and> (\<forall>req w resp w'. originRequest r 0 0 = Inr req \<longrightarrow>
        rd_defaultHttpClient r req w = (Inr resp, w') \<longrightarrow> stat_response D resp)"

text \<open>The peers matter to a reader only if it serves a client: a reader that serves a peer asks the origin.\<close>

definition peers_honest :: "'w reader \<Rightarrow> bytes \<Rightarrow> bool" where
  "peers_honest r D \<longleftrightarrow>
     (\<forall>(peer :: PeerInfo) start stop req w resp w'. 0 \<le> start \<longrightarrow> start \<le> stop \<longrightarrow> stop < int (length D) \<longrightarrow>
        peerRequest r (pi_HttpHost peer) start stop = Inr req \<longrightarrow>
        nw_HTTPClientFor (rt_Net (rd_router r)) (pi_ID peer) req w = (Inr resp, w') \<longrightarrow>
        range_response D start stop resp)"

definition honest :: "'w reader \<Rightarrow> bytes \<Rightarrow> bool" where
  "honest r D \<longleftrightarrow> origin_honest r D \<and> (\<not> IsRequestFromAPeer (rd_context r) \<longrightarrow> peers_honest r D)"

lemma originD:
  assumes "origin_honest r D"
  shows "in_int64 (int (length D))"
    and "originRequest r start stop = Inr req \<Longrightarrow> rd_defaultHttpClient r req w = (Inr resp, w') \<Longrightarrow>
      0 \<le> start \<Longrightarrow> start \<le> stop \<Longrightarrow> stop < int (length D) \<Longrightarrow> range_response D start stop resp"
    and "originRequest r 0 0 = Inr req \<Longrightarrow> rd_defaultHttpClient r req w = (Inr resp, w') \<Longrightarrow> stat_response D resp"
  using assms unfolding origin_honest_def by blast+

lemma peersD:
  fixes peer :: PeerInfo
  shows "peers_honest r D \<Longrightarrow> peerRequest r (pi_HttpHost peer) start stop = Inr req \<Longrightarrow>
    nw_HTTPClientFor (rt_Net (rd_router r)) (pi_ID peer) req w = (Inr resp, w') \<Longrightarrow>
    0 \<le> start \<Longrightarrow> start \<le> stop \<Longrightarrow> stop < int (length D) \<Longrightarrow> range_response D start stop resp"
  unfolding peers_honest_def by blast

lemma honest_origin: "honest r D \<Longrightarrow> origin_honest r D"
  by (simp add: honest_def)

lemma preadRemote_length: "preadRemote req client buf w = ((buf', n, err), w') \<Longrightarrow> length buf' = length buf"
  by (auto simp: preadRemote_def dest: io_ReadFull_length split: prod.splits sum.splits if_splits)

lemma io_ReadFull_range:
  assumes "range_response D start stop resp" and "hs_StatusCode resp = 200 \<or> hs_StatusCode resp = 206"
    and "length (slice D start (nat (stop - start + 1))) = length buf"
    and "io_ReadFull resp buf = (buf', n, err)" and "err = None \<or> err = Some EOF"
  shows "buf' = slice D start (nat (stop - start + 1)) \<and> err = None \<and> n = int (length buf)"
  using assms by (auto simp: range_response_def io_ReadFull_def Let_def split: if_splits option.splits)

lemma preadRemote_range:
  assumes "preadRemote req client buf w = ((buf', n, err), w')" and "err = None \<or> err = Some EOF"
    and "\<And>resp w''. client req w = (Inr resp, w'') \<Longrightarrow> range_response D start stop resp"
    and "length (slice D start (nat (stop - start + 1))) = length buf"
  shows "buf' = slice D start (nat (stop - start + 1)) \<and> err = None \<and> n = int (length buf)"
proof -
  obtain resp where "client req w = (Inr resp, w')" "hs_StatusCode resp = 200 \<or> hs_StatusCode resp = 206"
      "io_ReadFull resp buf = (buf', n, err)"
    using assms(1,2) by (auto simp: preadRemote_def unexpected_status_def split: prod.splits sum.splits if_splits)
  then show ?thesis using io_ReadFull_range [of D start stop resp buf] assms(2-4) by blast
qed

lemma peerLoop_Peer:
  "peerLoop r cb key start stop operationPreadRemote (Peer peer # evs) k buf w =
     (let w1 = (if k = 0 then mt_RecordPeerDiscovery (rd_metricsRecorder r) (pi_HttpHost peer) w else w)
      in case peerRequest r (pi_HttpHost peer) start stop of
           Inl e \<Rightarrow> peerLoop r cb key start stop operationPreadRemote evs (max 1 k) buf w1
         | Inr req \<Rightarrow>
             (case preadRemote req (nw_HTTPClientFor (rt_Net (rd_router r)) (pi_ID peer)) buf w1 of
                ((buf', count, Some e), w2) \<Rightarrow> peerLoop r cb key start stop operationPreadRemote evs (max 1 k) buf' w2
              | ((buf', count, None), w2) \<Rightarrow> ((buf', count, None),
                  mt_RecordPeerResponse (rd_metricsRecorder r) (pi_HttpHost peer) key ''pread'' count w2)))"
  by (cases "peerRequest r (pi_HttpHost peer) start stop"; cases "k = 0") (simp_all add: Let_def max_def)

lemma peerLoop_length:
  "peerLoop r cb key start stop operationPreadRemote evs k buf w = ((buf', n, err), w') \<Longrightarrow> length buf' = length buf"
proof (induction evs arbitrary: k buf w)
  case (Cons ev evs)
  show ?case
  proof (cases ev)
    case (Peer peer)
    then show ?thesis
      using Cons.prems Cons.IH
      by (auto simp only: Peer peerLoop_Peer Let_def split: sum.splits prod.splits option.splits dest!: preadRemote_length)
  next
    case Closed
    then show ?thesis using Cons.prems by simp
  qed
qed simp

lemma doP2p_length:
  "doP2p r key start stop operationPreadRemote buf w = ((buf', n, err), w') \<Longrightarrow> length buf' = length buf"
  by (auto simp: doP2p_def dest: peerLoop_length split: if_splits prod.splits sum.splits)

lemma pread_origin_length:
  "pread_origin r key start stop buf w = ((buf', n, err), w') \<Longrightarrow> length buf' = length buf"
  by (auto simp: pread_origin_def dest: preadRemote_length split: prod.splits sum.splits)

lemma PreadRemote_length: "PreadRemote r buf off w = ((buf', n, err), w') \<Longrightarrow> length buf' = length buf"
  by (auto simp: PreadRemote_def Let_def dest!: doP2p_length pread_origin_length split: prod.splits option.splits)

text \<open>
  The keys that a reader looks up: \<open>looked\<close> lists the keys that the router was asked for, which neither
  the clients nor the metrics nor the negative-cache callbacks change.
\<close>

definition records_lookups :: "'w Router \<Rightarrow> 'w Metrics \<Rightarrow> ('w \<Rightarrow> string list) \<Rightarrow> bool" where
  "records_lookups rt mt looked \<longleftrightarrow>
     (\<forall>t key loc n w res w'. rt_ResolveWithNegativeCacheCallback rt t key loc n w = (res, w') \<longrightarrow>
        looked w' = looked w @ [key] \<and> (\<forall>evs cb v. res = Inr (evs, cb) \<longrightarrow> looked (cb v) = looked v))
     \<and> (\<forall>p req w res w'. nw_HTTPClientFor (rt_Net rt) p req w = (res, w') \<longrightarrow> looked w' = looked w)
     \<and> (\<forall>h w. looked (mt_RecordPeerDiscovery mt h w) = looked w)
     \<and> (\<forall>h k op n w. looked (mt_RecordPeerResponse mt h k op n w) = looked w)
     \<and> (\<forall>h k op n w. looked (mt_RecordUpstreamResponse mt h k op n w) = looked w)"

lemma preadRemote_lookups:
  assumes "\<And>w res w'. client req w = (res, w') \<Longrightarrow> looked w' = looked w" and "preadRemote req client buf w = (out, w')"
  shows "looked w' = looked w"
  using assms(2) by (auto simp: preadRemote_def dest: assms(1) split: prod.splits sum.splits if_splits)

lemma peerLoop_lookups:
  assumes "records_lookups (rd_router r) (rd_metricsRecorder r) looked" and "\<And>v. looked (cb v) = looked v"
    and "peerLoop r cb key start stop operationPreadRemote evs k buf w = (out, w')"
  shows "looked w' = looked w"
  using assms(3)
proof (induction evs arbitrary: k buf w)
  case (Cons ev evs)
  note quiet = assms(1) [unfolded records_lookups_def]
  show ?case
  proof (cases ev)
    case (Peer peer)
    define w1 where "w1 = (if k = 0 then mt_RecordPeerDiscovery (rd_metricsRecorder r) (pi_HttpHost peer) w else w)"
    have w1: "looked w1 = looked w" using quiet by (simp add: w1_def)
    note run = Cons.prems [unfolded Peer peerLoop_Peer, folded w1_def, unfolded Let_def]
    show ?thesis
    proof (cases "peerRequest r (pi_HttpHost peer) start stop")
      case (Inl e)
      then show ?thesis using run Cons.IH [of "max 1 k" buf w1] w1 by simp
    next
      case (Inr req)
      obtain b n err w2 where rd: "preadRemote req (nw_HTTPClientFor (rt_Net (rd_router r)) (pi_ID peer)) buf w1 = ((b, n, err), w2)"
        by (metis prod.exhaust)
      have w2: "looked w2 = looked w" using preadRemote_lookups [OF _ rd, of looked] quiet w1 by metis
      then show ?thesis using run Inr rd Cons.IH [of "max 1 k" b w2] quiet by (cases err) auto
    qed
  next
    case Closed
    then show ?thesis using Cons.prems assms(2) by auto
  qed
qed (use assms(2) in auto)

lemma pread_origin_lookups:
  assumes "records_lookups rt mt looked" and "rd_defaultHttpClient r = nw_HTTPClientFor (rt_Net rt) []" and "rd_metricsRecorder r = mt"
    and "pread_origin r key start stop buf w = (out, w')"
  shows "looked w' = looked w"
proof (cases "originRequest r start stop")
  case (Inl e)
  then show ?thesis using assms(4) by (auto simp: pread_origin_def)
next
  case (Inr req)
  obtain b n err w2 where rd: "preadRemote req (rd_defaultHttpClient r) buf w = ((b, n, err), w2)" by (metis prod.exhaust)
  have "looked w2 = looked w" using preadRemote_lookups [OF _ rd, of looked] assms(1,2) unfolding records_lookups_def by metis
  then show ?thesis using assms(1,3,4) Inr rd by (auto simp: pread_origin_def records_lookups_def)
qed

text \<open>
  A reader that serves a client makes one lookup for a read, at whatever offset, and always under the
  chunk key of its request; a reader that serves a peer makes none.
\<close>

lemma PreadRemote_lookups:
  assumes "records_lookups rt mt looked" and "PreadRemote (NewReader node c rt retries timeout mt) buf off w = (out, w')"
  shows "looked w' = looked w @ (if IsRequestFromAPeer c then [] else [GetString c FileChunkCtxKey])"
proof -
  let ?r = "NewReader node c rt retries timeout mt" and ?key = "GetString c FileChunkCtxKey"
  let ?stop = "sub64 (add64 (int (length buf)) off) 1"
  obtain b n err w1 where p2p: "doP2p ?r ?key off ?stop operationPreadRemote buf w = ((b, n, err), w1)" by (metis prod.exhaust)
  have "looked w1 = looked w @ (if IsRequestFromAPeer c then [] else [?key])"
  proof (cases "IsRequestFromAPeer c")
    case True
    then show ?thesis using p2p by (simp add: doP2p_def NewReader_def)
  next
    case False
    obtain res w2 where rs: "rt_ResolveWithNegativeCacheCallback rt timeout ?key False retries w = (res, w2)" by (metis prod.exhaust)
    have w2: "looked w2 = looked w @ [?key]" and cb: "\<And>evs cb v. res = Inr (evs, cb) \<Longrightarrow> looked (cb v) = looked v"
      using assms(1) rs unfolding records_lookups_def by metis+
    show ?thesis
    proof (cases res)
      case (Inl e)
      then show ?thesis using p2p rs w2 False by (simp add: doP2p_def NewReader_def)
    next
      case (Inr p)
      obtain evs ncb where p: "p = (evs, ncb)" by (cases p)
      have "peerLoop ?r ncb ?key off ?stop operationPreadRemote evs 0 buf w2 = ((b, n, err), w1)"
        using p2p rs Inr p False by (simp add: doP2p_def NewReader_def)
      moreover have "records_lookups (rd_router ?r) (rd_metricsRecorder ?r) looked" using assms(1) by (simp add: NewReader_def)
      ultimately have "looked w1 = looked w2" using peerLoop_lookups [of ?r looked ncb] cb [OF Inr [unfolded p]] by blast
      then show ?thesis using w2 False by simp
    qed
  qed
  moreover have "looked w' = looked w1"
    using assms(2) p2p pread_origin_lookups [OF assms(1), of ?r ?key off ?stop b w1 out w']
    by (cases err) (auto simp: PreadRemote_def NewReader_def Let_def)
  ultimately show ?thesis by simp
qed

lemma peerLoop_content:
  assumes "peerLoop r cb key start stop operationPreadRemote evs k buf w = ((buf', n, err), w')"
    and "peers_honest r D" and "0 \<le> start" and "start \<le> stop" and "stop < int (length D)"
    and "int (length buf) = stop - start + 1"
  shows "length buf' = length buf \<and>
    (err = None \<longrightarrow> buf' = slice D start (nat (stop - start + 1)) \<and> n = int (length buf))"
  using assms(1,6)
proof (induction evs arbitrary: k buf w)
  case (Cons ev evs)
  have len: "length (slice D start (nat (stop - start + 1))) = length buf"
    using assms(3-5) Cons.prems(2) by (simp add: length_slice)
  show ?case
  proof (cases ev)
    case (Peer peer)
    define w1 where "w1 = (if k = 0 then mt_RecordPeerDiscovery (rd_metricsRecorder r) (pi_HttpHost peer) w else w)"
    note run = Cons.prems(1) [unfolded Peer peerLoop_Peer, folded w1_def, unfolded Let_def]
    show ?thesis
    proof (cases "peerRequest r (pi_HttpHost peer) start stop")
      case (Inl e)
      then have "peerLoop r cb key start stop operationPreadRemote evs (max 1 k) buf w1 = ((buf', n, err), w')"
        using run by simp
      then show ?thesis using Cons.IH [OF _ Cons.prems(2)] by blast
    next
      case (Inr req)
      obtain b c e w2 where p: "preadRemote req (nw_HTTPClientFor (rt_Net (rd_router r)) (pi_ID peer)) buf w1 = ((b, c, e), w2)"
        by (metis prod.exhaust)
      have b: "length b = length buf" using p by (rule preadRemote_length)
      have ans: "range_response D start stop resp"
        if "nw_HTTPClientFor (rt_Net (rd_router r)) (pi_ID peer) req w1 = (Inr resp, w'')" for resp w''
        using peersD [OF assms(2) Inr that assms(3-5)] .
      show ?thesis
      proof (cases e)
        case None
        then show ?thesis using run Inr p b preadRemote_range [OF p _ ans len] by (simp add: w1_def)
      next
        case (Some x)
        then show ?thesis using run Inr p b Cons.IH [of "max 1 k" b w2] Cons.prems(2) by (simp add: w1_def)
      qed
    qed
  next
    case Closed
    then show ?thesis using Cons.prems by auto
  qed
qed auto

lemma PreadRemote_content:
  assumes "honest r D" and "0 \<le> off" and "off + int (length buf) \<le> int (length D)"
    and run: "PreadRemote r buf off w = ((buf', n, err), w')" and "err = None \<or> err = Some EOF"
  shows "buf' = slice D off (length buf)"
proof (cases "buf = []")
  case True
  then show ?thesis using PreadRemote_length [OF run] by (simp add: slice_def)
next
  case False
  define stop where "stop = off + int (length buf) - 1"
  let ?key = "GetString (rd_context r) FileChunkCtxKey"
  note origin = originD [OF honest_origin [OF assms(1)]]
  note D = origin(1)
  have stop: "off \<le> stop" "stop < int (length D)" "int (length buf) = stop - off + 1" "nat (stop - off + 1) = length buf"
    using assms(2,3) False by (cases buf, simp_all add: stop_def)+
  have st: "sub64 (add64 (int (length buf)) off) 1 = stop"
    using assms(2,3) D by (simp add: sub64_def add64_def stop_def in_int64_def)
  obtain b c e w1 where p: "doP2p r ?key off stop operationPreadRemote buf w = ((b, c, e), w1)"
    by (metis prod.exhaust)
  have b: "length b = length buf" using p by (rule doP2p_length)
  show ?thesis
  proof (cases e)
    case None
    then obtain evs cb w2 where loop: "peerLoop r cb ?key off stop operationPreadRemote evs 0 buf w2 = ((b, c, None), w1)"
      and "\<not> IsRequestFromAPeer (rd_context r)"
      using p by (auto simp: doP2p_def split: if_splits prod.splits sum.splits)
    then have "peers_honest r D" using assms(1) by (simp add: honest_def)
    from peerLoop_content [OF loop this assms(2) stop(1-3)] show ?thesis
      using run p None st stop(4) by (simp add: PreadRemote_def Let_def)
  next
    case (Some x)
    then have "pread_origin r ?key off stop b w1 = ((buf', n, err), w')"
      using run p st by (simp add: PreadRemote_def Let_def)
    then obtain req w2 where req: "originRequest r off stop = Inr req"
      and pr: "preadRemote req (rd_defaultHttpClient r) b w1 = ((buf', n, err), w2)"
      using assms(5) originRequest_error [of r off stop]
      by (auto simp: pread_origin_def split: prod.splits sum.splits)
    have ans: "range_response D off stop resp" if "rd_defaultHttpClient r req w1 = (Inr resp, w'')" for resp w''
      using origin(2) [OF req that assms(2) stop(1,2)] .
    show ?thesis
      using preadRemote_range [OF pr assms(5) ans] stop(4) b length_slice [OF assms(2,3)] by simp
  qed
qed

lemma LastIndexByte_append: "b \<notin> set t \<Longrightarrow> LastIndexByte (s @ b # t) b = Some (length s)"
proof -
  assume "b \<notin> set t"
  then have "LastIndexByte t b = None" by (induction t) auto
  then show ?thesis by (induction s) auto
qed

lemma FstatRemote_length:
  assumes "honest r D" and "FstatRemote r w = ((n, None), w')"
  shows "n = int (length D)"
proof -
  obtain req w1 where req: "originRequest r 0 0 = Inr req" and fs: "fstatRemote req (rd_defaultHttpClient r) w = ((n, None), w1)"
    using assms(2) by (auto simp: FstatRemote_def Let_def split: prod.splits sum.splits)
  then obtain resp w2 where cl: "rd_defaultHttpClient r req w = (Inr resp, w2)"
    by (auto simp: fstatRemote_def split: prod.splits sum.splits)
  note origin = originD [OF honest_origin [OF assms(1)]]
  have sr: "stat_response D resp" using origin(3) [OF req cl] .
  note len = origin(1)
  have "LastIndexByte (''bytes 0-0'' @ CHR ''/'' # FormatInt (int (length D))) CHR ''/'' = Some 9"
    using FormatInt_plain [of "int (length D)"] LastIndexByte_append [of "CHR ''/''" "FormatInt (int (length D))" "''bytes 0-0''"]
    by (simp add: plain_seg_def)
  then show ?thesis
    using fs cl sr ParseInt_FormatInt [OF len]
    by (auto simp: fstatRemote_def stat_response_def Let_def split: if_splits option.splits)
qed

lemma FstatRemote_error: "FstatRemote r w = ((n, Some e), w') \<Longrightarrow> e \<noteq> EOF"
  using originRequest_error [of r 0 0]
  by (auto simp: FstatRemote_def fstatRemote_def unexpected_status_def Let_def
      split: prod.splits sum.splits if_splits option.splits)

lemma reader_file_reader: "honest r D \<Longrightarrow> file_reader (reader_iface r) D"
  by unfold_locales (auto simp: reader_iface_def dest: PreadRemote_content FstatRemote_length FstatRemote_error)

text \<open>The readers of a node over an honest network are readers of the file.\<close>

locale honest_reader =
  fixes r :: "'w reader" and D :: bytes
  assumes network_honest: "honest r D"

sublocale honest_reader \<subseteq> file_reader "reader_iface r" D
  by (rule reader_file_reader [OF network_honest])

subsection \<open>A concrete network\<close>

text \<open>
  A server that answers range requests for \<open>D\<close> as HTTP prescribes, one that ignores the range (which
  HTTP allows) and sends the whole file with status 200, and a reader in front of either, whose
  router delivers the given peers.
\<close>

definition range_server :: "bytes \<Rightarrow> 'w http_client" where
  "range_server D req w =
     (let h = Header_Get (hr_Header req) ''Range'' in
      case (RangeStartIndex h, ParseInt (last (Split h CHR ''-''))) of
        (Inr s, (e, None)) \<Rightarrow>
          (let part = slice D s (nat (e - s + 1))
           in (Inr \<lparr>hs_StatusCode = 206, hs_ContentLength = int (length part),
                 hs_Header = [(''Content-Range'', [''bytes '' @ FormatInt s @ ''-'' @ FormatInt e @ ''/'' @ FormatInt (int (length D))])],
                 hs_Body = part, hs_BodyErr = None\<rparr>, w))
      | _ \<Rightarrow> (Inr \<lparr>hs_StatusCode = 416, hs_ContentLength = 0, hs_Header = [], hs_Body = [], hs_BodyErr = None\<rparr>, w))"

definition whole_server :: "bytes \<Rightarrow> 'w http_client" where
  "whole_server D req w =
     (Inr \<lparr>hs_StatusCode = 200, hs_ContentLength = int (length D), hs_Header = [], hs_Body = D, hs_BodyErr = None\<rparr>, w)"

definition quiet_metrics :: "'w Metrics" where
  "quiet_metrics = \<lparr>mt_RecordRequest = (\<lambda>_ _ w. w), mt_RecordPeerDiscovery = (\<lambda>_ w. w),
     mt_RecordPeerResponse = (\<lambda>_ _ _ _ w. w), mt_RecordUpstreamResponse = (\<lambda>_ _ _ _ w. w)\<rparr>"

definition demo_router :: "(string \<Rightarrow> 'w http_client) \<Rightarrow> PeerInfo list \<Rightarrow> 'w Router" where
  "demo_router client peers =
     \<lparr>rt_Net = \<lparr>nw_HTTPClientFor = client, nw_RoundTripperFor = client\<rparr>,
      rt_Resolve = (\<lambda>_ _ _ _ w. (Inr (map Peer peers), w)),
      rt_ResolveWithNegativeCacheCallback = (\<lambda>_ _ _ _ w. (Inr (map Peer peers, \<lambda>w. w), w)),
      rt_Provide = (\<lambda>_ w. (None, w))\<rparr>"

definition demo_context :: "Header \<Rightarrow> Context" where
  "demo_context h =
     \<lparr>ctx_Request = \<lparr>req_Method = ''GET'', req_Path = ''/blobs/https://origin/b'', req_RawQuery = [], req_Header = h\<rparr>,
      ctx_Params = [(''url'', ''https://origin/b'')], ctx_Query = [],
      ctx_Keys = [(BlobUrlCtxKey, CtxString ''https://origin/b''), (FileChunkCtxKey, CtxString ''d_0'')]\<rparr>"

definition demo_reader :: "(string \<Rightarrow> 'w http_client) \<Rightarrow> PeerInfo list \<Rightarrow> Header \<Rightarrow> 'w reader" where
  "demo_reader client peers h = NewReader ''node1'' (demo_context h) (demo_router client peers) 3 20 quiet_metrics"

lemma Split_range_header:
  "0 \<le> start \<Longrightarrow> 0 \<le> stop \<Longrightarrow> last (Split (range_header start stop) CHR ''-'') = FormatInt stop"
proof -
  assume *: "0 \<le> start" "0 \<le> stop"
  then have "CHR ''-'' \<notin> set (FormatInt stop)" using FormatInt_nonneg_chars not_digit_sign by blast
  then show ?thesis
    using Split_append_sep [of "''bytes='' @ FormatInt start" "CHR ''-''" "FormatInt stop"]
    by (simp add: range_header_def Split_no_sep)
qed

lemma range_server_answer:
  assumes "Header_Get (hr_Header req) ''Range'' = range_header start stop"
    and "0 \<le> start" and "start \<le> stop" and "stop < int (length D)" and "in_int64 (int (length D))"
  shows "\<exists>resp. range_server D req w = (Inr resp, w) \<and> range_response D start stop resp
    \<and> (start = 0 \<longrightarrow> stop = 0 \<longrightarrow> stat_response D resp)"
proof -
  have i: "in_int64 start" "in_int64 stop" using assms(2-5) by (auto simp: in_int64_def)
  have f: "FormatInt 0 = ''0''" "CanonicalHeaderKey ''Content-Range'' = ''Content-Range''" by code_simp+
  show ?thesis
    using assms RangeStartIndex_range_header [OF i(1)] Split_range_header [of start stop] ParseInt_FormatInt [OF i(2)]
    by (auto simp: range_server_def range_response_def stat_response_def Header_Get_def f Let_def)
qed

lemma served_reader_honest:
  assumes "in_int64 (int (length D))" and "D \<noteq> []"
  shows "honest (NewReader node c (demo_router (\<lambda>_. range_server D) peers) retries timeout metrics :: 'w reader) D"
proof -
  let ?r = "NewReader node c (demo_router (\<lambda>_. range_server D) peers) retries timeout metrics :: 'w reader"
  have ans: "range_response D start stop resp \<and> (start = 0 \<longrightarrow> stop = 0 \<longrightarrow> stat_response D resp)"
    if "remoteRequest ?r u start stop = Inr req" "range_server D req w = (Inr resp, w')"
      "0 \<le> start" "start \<le> stop" "stop < int (length D)" for u start stop req w w' resp
    using range_server_answer [OF remoteRequest_headers(2) [OF that(1)] that(3-5) assms(1), of w] that(2) by auto
  have cl: "rd_defaultHttpClient ?r = range_server D"
    "nw_HTTPClientFor (rt_Net (rd_router ?r)) pid = range_server D" for pid
    by (simp_all add: NewReader_def demo_router_def)
  have stat: "stat_response D resp" if "remoteRequest ?r u 0 0 = Inr req" "range_server D req w = (Inr resp, w')"
    for u req w w' resp
    using ans [OF that] assms(2) by simp
  show ?thesis
    unfolding honest_def origin_honest_def peers_honest_def cl originRequest_def peerRequest_def
  proof (intro conjI allI impI)
    show "in_int64 (int (length D))" by (rule assms(1))
  qed (erule (4) conjunct1 [OF ans] | erule (1) stat)+
qed

interpretation served: honest_reader
    "NewReader node c (demo_router (\<lambda>_. range_server [1, 2, 3, 4]) peers) retries timeout metrics" "[1, 2, 3, 4]"
    for node c peers retries timeout metrics
  by unfold_locales (rule served_reader_honest, simp_all add: in_int64_def)


lemma demo_reader_simps [simp]:
  "rd_context (demo_reader client peers h) = demo_context h"
  "rd_defaultHttpClient (demo_reader client peers h) = client []"
  "rd_router (demo_reader client peers h) = demo_router client peers"
  "rd_metricsRecorder (demo_reader client peers h) = quiet_metrics"
  "mt_RecordUpstreamResponse quiet_metrics a b d n w = w"
  by (simp_all add: demo_reader_def NewReader_def demo_router_def quiet_metrics_def)


lemma preadRemote_range_server:
  assumes "remoteRequest r u start stop = Inr req" and "0 \<le> start" and "start \<le> stop"
    and "stop < int (length D)" and "in_int64 (int (length D))" and "int (length buf) = stop - start + 1"
  shows "preadRemote req (range_server D) buf w = ((slice D start (length buf), int (length buf), None), w)"
proof -
  have "in_int64 start" "in_int64 stop" using assms(2-5) by (auto simp: in_int64_def)
  moreover have "nat (stop - start + 1) = length buf" using assms(6) by simp
  moreover have "length (slice D start (length buf)) = length buf" using assms by (intro length_slice) auto
  ultimately show ?thesis
    using remoteRequest_headers(2) [OF assms(1)] RangeStartIndex_range_header [of start stop]
      Split_range_header [of start stop] ParseInt_FormatInt [of stop] assms(2,3)
    by (simp add: preadRemote_def range_server_def io_ReadFull_def Let_def)
qed


subsection \<open>Properties\<close>



text \<open>
  A request that came from a peer is never passed on to another peer: the reader neither asks
  the router nor any peer, and reads from the origin directly.
\<close>

theorem peer_request_reads_origin_only:
  assumes "IsRequestFromAPeer (rd_context r)"
  shows "PreadRemote r buf off w =
    pread_origin r (GetString (rd_context r) FileChunkCtxKey) off (sub64 (add64 (int (length buf)) off) 1) buf w"
  using assms by (simp add: PreadRemote_def doP2p_def Let_def)

theorem peer_request_reads_origin_only_witness:
  "IsRequestFromAPeer (rd_context (demo_reader (\<lambda>_. range_server [1, 2]) [] [(''X-Ms-Peerd-Requestfrompeer'', [''true''])]))
   \<and> PreadRemote (demo_reader (\<lambda>_. range_server [1, 2]) [] [(''X-Ms-Peerd-Requestfrompeer'', [''true''])]) [0] 0 ()
     = pread_origin (demo_reader (\<lambda>_. range_server [1, 2]) [] [(''X-Ms-Peerd-Requestfrompeer'', [''true''])]) ''d_0'' 0 0 [0] ()"
proof -
  let ?r = "demo_reader (\<lambda>_. range_server [1, 2]) [] [(''X-Ms-Peerd-Requestfrompeer'', [''true''])] :: unit reader"
  have "IsRequestFromAPeer (rd_context ?r)" "GetString (rd_context ?r) FileChunkCtxKey = ''d_0''" by code_simp+
  then show ?thesis using peer_request_reads_origin_only [of ?r "[0]" 0 "()"] by (simp add: add64_def sub64_def)
qed

lemma peerLoop_good_peer:
  assumes "Closed \<notin> set pre" and "peerRequest r (pi_HttpHost p) start stop = Inr req"
    and "\<And>b w. length b = n \<Longrightarrow>
      \<exists>b' k w'. preadRemote req (nw_HTTPClientFor (rt_Net (rd_router r)) (pi_ID p)) b w = ((b', k, None), w')"
    and "length buf = n"
  shows "\<exists>b' k w'. peerLoop r cb key start stop operationPreadRemote (pre @ Peer p # post) j buf w = ((b', k, None), w')"
  using assms(1,4)
proof (induction pre arbitrary: j buf w)
  case Nil
  define w1 where "w1 = (if j = 0 then mt_RecordPeerDiscovery (rd_metricsRecorder r) (pi_HttpHost p) w else w)"
  obtain b k w2 where "preadRemote req (nw_HTTPClientFor (rt_Net (rd_router r)) (pi_ID p)) buf w1 = ((b, k, None), w2)"
    using assms(3) Nil.prems(2) by blast
  then show ?case unfolding append.append_Nil peerLoop_Peer w1_def [symmetric] using assms(2) by (simp add: Let_def)
next
  case (Cons ev pre)
  then obtain q where ev: "ev = Peer q" by (cases ev) auto
  show ?case
    unfolding ev append.append_Cons peerLoop_Peer Let_def
    using Cons by (auto dest: preadRemote_length split: sum.splits prod.splits option.splits)
qed

text \<open>
  C17: fall-through to the next peer. If any of the peers that the router delivers before it closes
  the channel or the deadline passes serves the range, then the read succeeds from the peers: no
  failing peer before it (an address that does not parse, a refused connection, a wrong status, a
  body that breaks off) keeps it from being tried.
\<close>

theorem doP2p_reaches_a_good_peer:
  assumes "\<not> IsRequestFromAPeer (rd_context r)"
    and "rt_ResolveWithNegativeCacheCallback (rd_router r) (rd_resolveTimeout r) key False (rd_resolveRetries r) w
      = (Inr (pre @ Peer p # post, cb), w1)"
    and "Closed \<notin> set pre" and "peerRequest r (pi_HttpHost p) start stop = Inr req"
    and "\<And>b w. length b = length buf \<Longrightarrow>
      \<exists>b' k w'. preadRemote req (nw_HTTPClientFor (rt_Net (rd_router r)) (pi_ID p)) b w = ((b', k, None), w')"
  shows "\<exists>buf' n w'. doP2p r key start stop operationPreadRemote buf w = ((buf', n, None), w')"
  using peerLoop_good_peer [OF assms(3,4), of "length buf" buf cb key post 0 w1] assms(1,2,5) by (simp add: doP2p_def)

definition bad_then_good :: "string \<Rightarrow> unit http_client" where
  "bad_then_good pid = (if pid = ''good'' then range_server [1, 2, 3, 4] else (\<lambda>req w. (Inl (NetError ''refused''), w)))"

definition two_peers :: "PeerInfo list" where
  "two_peers = [\<lparr>pi_ID = ''bad'', pi_HttpHost = ''https://10.0.0.1:5001''\<rparr>,
     \<lparr>pi_ID = ''good'', pi_HttpHost = ''https://10.0.0.2:5001''\<rparr>]"

theorem doP2p_reaches_a_good_peer_witness:
  "\<exists>buf' n w'. doP2p (demo_reader bad_then_good two_peers []) ''d_0'' 1 2 operationPreadRemote [0, 0] () = ((buf', n, None), w')"
proof -
  let ?r = "demo_reader bad_then_good two_peers []" and ?p = "\<lparr>pi_ID = ''good'', pi_HttpHost = ''https://10.0.0.2:5001''\<rparr>"
  have np: "\<not> IsRequestFromAPeer (rd_context ?r)" by code_simp
  have "case peerRequest ?r (pi_HttpHost ?p) 1 2 of Inr q \<Rightarrow> True | Inl e \<Rightarrow> False" by code_simp
  then obtain req where req: "peerRequest ?r (pi_HttpHost ?p) 1 2 = Inr req" by (auto split: sum.splits)
  have good: "\<exists>b' k w'. preadRemote req (nw_HTTPClientFor (rt_Net (rd_router ?r)) (pi_ID ?p)) b w = ((b', k, None), w')"
    if "length b = length [0 :: byte, 0]" for b w
    using preadRemote_range_server [OF req [unfolded peerRequest_def], of "[1, 2, 3, 4]" b w] that
    by (auto simp: demo_router_def bad_then_good_def in_int64_def)
  show ?thesis
    using doP2p_reaches_a_good_peer [OF np _ _ req good, where pre = "[Peer (hd two_peers)]" and post = "[]" and key = "''d_0''"]
    by (simp add: demo_router_def two_peers_def)
qed

text \<open>
  The reader does not check that a response is the range it asked for. A server may ignore the
  \<open>Range\<close> header and send the whole file with status 200; the first bytes of the file are then taken
  for the bytes at the offset, without an error.
\<close>

theorem PreadRemote_takes_file_start_for_range:
  "PreadRemote (demo_reader (\<lambda>_. whole_server [1, 2, 3, 4]) [] []) [0, 0] 2 () = (([1, 2], 2, None), ())"
  by code_simp

end
