(* ===== verification/Files_Store.thy ===== *)
theory Files_Store
  imports Segments File_Cache Remote_Reader
begin

section \<open>The files store: \<open>src/pkg/files\<close>\<close>

text \<open>
  Model of \<open>files.go\<close> (chunk keys and fetching), \<open>store/file.go\<close> (a file that is read in blocks
  through the cache) and \<open>store/store.go\<close> (keys, opening, prefetching). The cache and the reader are
  the Go interfaces \<open>cache.Cache\<close> and \<open>reader.Reader\<close>, records of methods; what is proved about their
  clients is proved from the contracts \<open>chunk_cache\<close> and \<open>file_reader\<close> alone.

  A goroutine that \<open>prefetch\<close> starts is returned as a value, and running it is an operation of its
  own; its result is the list of what it sends on \<open>prefetchChan\<close>. \<open>statLock\<close> is a field: locking a
  locked mutex is the outcome \<open>Blocked\<close>.
\<close>

subsection \<open>Chunks: \<open>files.go\<close>\<close>

definition FileChunkKeySep :: char where
  "FileChunkKeySep = CHR ''_''"

definition CacheBlockSize :: int64 where
  "CacheBlockSize = 1 * 1024 * 1024"

definition FileChunkKey :: "string \<Rightarrow> int64 \<Rightarrow> int64 \<Rightarrow> string outcome" where
  "FileChunkKey name offset cacheBlockSize =
     obind (AlignDown offset cacheBlockSize) (\<lambda>a. Ret (name @ [FileChunkKeySep] @ FormatInt a))"

definition FetchFile :: "'w Reader \<Rightarrow> string \<Rightarrow> int64 \<Rightarrow> int64 \<Rightarrow> 'w fetcher" where
  "FetchFile r name offset count w =
     (if count < 0 then Panic MakeSliceLen
      else obind (ri_PreadRemote r (replicate (nat count) 0) offset w) (\<lambda>((d, n, err), w').
        case err of
          None \<Rightarrow> Ret (Inr d, w')
        | Some e \<Rightarrow> if e = EOF then Ret (Inr d, w') else Ret (Inl e, w')))"

subsection \<open>Files: \<open>store/file.go\<close>\<close>

definition errOnlySingleChunkAvailable :: go_error where
  "errOnlySingleChunkAvailable = Errorf ''only single chunk available''"

record 'w storeFile =
  fl_Name :: string
  fl_cur :: int64
  fl_size :: int64
  fl_statLocked :: bool
  fl_chunkOffset :: int64
  fl_reader :: "'w Reader"

definition Seek :: "'w storeFile \<Rightarrow> int64 \<Rightarrow> int64 \<Rightarrow> (int64 \<times> go_error option) \<times> 'w storeFile" where
  "Seek f offset whence =
     (let f' = (if whence = 1 then f\<lparr>fl_cur := add64 (fl_cur f) offset\<rparr>
                else if whence = 0 then f\<lparr>fl_cur := offset\<rparr>
                else if whence = 2 then f\<lparr>fl_cur := fl_size f\<rparr>
                else f)
      in ((fl_cur f', None), f'))"

definition Fstat :: "('c, 'w) Cache \<Rightarrow> 'w storeFile \<Rightarrow> 'c \<Rightarrow> 'w \<Rightarrow>
    ((int64 \<times> go_error option) \<times> 'w storeFile \<times> 'c \<times> 'w) outcome" where
  "Fstat ops f c w =
     (case cm_Size ops (fl_Name f) c of
        (sz, True) \<Rightarrow> Ret ((sz, None), f\<lparr>fl_size := sz\<rparr>, c, w)
      | (sz, False) \<Rightarrow>
          if fl_statLocked f then Blocked
          else
            (case cm_Size ops (fl_Name f) c of
               (sz, True) \<Rightarrow> Ret ((sz, None), f\<lparr>fl_size := sz\<rparr>, c, w)
             | (sz, False) \<Rightarrow>
                 obind (ri_FstatRemote (fl_reader f) w) (\<lambda>((n, err), w').
                   case err of
                     Some e \<Rightarrow> Ret ((0, Some e), f\<lparr>fl_size := n, fl_statLocked := True\<rparr>, c, w')
                   | None \<Rightarrow> Ret ((n, None), f\<lparr>fl_size := n\<rparr>, snd (cm_PutSize ops (fl_Name f) n c), w'))))"

definition copy_out :: "bytes \<Rightarrow> bytes \<Rightarrow> int64 \<Rightarrow> int64 \<Rightarrow> bytes outcome" where
  "copy_out buff dat pos ret =
     (if ret < 0 \<or> pos < 0 then Panic SliceBounds
      else Ret (take (nat ret) (drop (nat pos) dat) @ drop (nat ret) buff))"

definition ReadAt :: "('c, 'w) Cache \<Rightarrow> 'w storeFile \<Rightarrow> bytes \<Rightarrow> int64 \<Rightarrow> 'c \<Rightarrow> 'w \<Rightarrow>
    ((bytes \<times> int64 \<times> go_error option) \<times> 'w storeFile \<times> 'c \<times> 'w) outcome" where
  "ReadAt ops f0 buff offset c0 w0 =
     obind (Fstat ops f0 c0 w0) (\<lambda>((fileSize, err), f, c1, w1).
       case err of
         Some e \<Rightarrow> Ret ((buff, 0, Some e), f, c1, w1)
       | None \<Rightarrow>
           obind (AlignDown offset CacheBlockSize) (\<lambda>alignedOffset.
             if fl_chunkOffset f \<noteq> 0 \<and> alignedOffset \<noteq> fl_chunkOffset f
             then Ret ((buff, -1, Some errOnlySingleChunkAvailable), f, c1, w1)
             else
               (let count = Min64 CacheBlockSize (sub64 fileSize alignedOffset) in
                obind (cm_GetOrCreate ops (fl_Name f) alignedOffset count
                         (FetchFile (fl_reader f) (fl_Name f) alignedOffset count) c1 w1)
                  (\<lambda>((dat, err), c2, w2).
                     case err of
                       Some e \<Rightarrow> Ret ((buff, 0, Some (Errorf ''failed to ReadAt'')), f, c2, w2)
                     | None \<Rightarrow>
                         (let pos = sub64 offset alignedOffset;
                              ret = Min_int (int (length buff)) (int (length dat) - pos)
                          in obind (copy_out buff dat pos ret) (\<lambda>buff'.
                               Ret ((buff', ret,
                                     if add64 offset (int (length buff)) > fileSize then Some EOF else None),
                                    f, c2, w2)))))))"

definition Read_file :: "('c, 'w) Cache \<Rightarrow> 'w storeFile \<Rightarrow> bytes \<Rightarrow> 'c \<Rightarrow> 'w \<Rightarrow>
    ((bytes \<times> int64 \<times> go_error option) \<times> 'w storeFile \<times> 'c \<times> 'w) outcome" where
  "Read_file ops f p c w =
     obind (ReadAt ops f p (fl_cur f) c w) (\<lambda>((p', ret, err), f', c', w').
       Ret ((p', ret, err), if err = None then f'\<lparr>fl_cur := add64 (fl_cur f') ret\<rparr> else f', c', w'))"

record 'w prefetchableSegment =
  ps_name :: string
  ps_offset :: int64
  ps_count :: int64
  ps_reader :: "'w Reader"

definition prefetch_file :: "('c, 'w) Cache \<Rightarrow> 'w storeFile \<Rightarrow> int64 \<Rightarrow> int64 \<Rightarrow> 'c \<Rightarrow> 'w \<Rightarrow>
    ('w prefetchableSegment list option \<times> 'w storeFile \<times> 'c \<times> 'w) outcome" where
  "prefetch_file ops f offset count c w =
     obind (Fstat ops f c w) (\<lambda>((fileSize, err), f', c', w').
       case err of
         Some e \<Rightarrow> Ret (Some [], f', c', w')
       | None \<Rightarrow>
           (case NewSegments offset CacheBlockSize count fileSize of
              Inl e \<Rightarrow> Ret (Some [], f', c', w')
            | Inr segs \<Rightarrow>
                obind (All_segments segs) (\<lambda>ss.
                  Ret (map_option (map (\<lambda>seg. \<lparr>ps_name = fl_Name f', ps_offset = seg_Index seg,
                         ps_count = seg_Count seg, ps_reader = fl_reader f'\<rparr>)) ss, f', c', w'))))"

subsection \<open>The store: \<open>store/store.go\<close>\<close>

record ('c, 'w) store =
  st_metricsRecorder :: "'w Metrics"
  st_cache :: "('c, 'w) Cache"
  st_prefetchable :: bool
  st_router :: "'w Router"
  st_resolveRetries :: int64
  st_resolveTimeout :: int64
  st_parser :: "string \<Rightarrow> string result"
  st_nodeName :: string

definition PrefetchWorkers :: int64 where "PrefetchWorkers = 50"
definition ResolveRetries :: int64 where "ResolveRetries = 3"
definition ResolveTimeout :: int64 where "ResolveTimeout = 20"

text \<open>The command sets the number of workers before it creates the store; the default is \<open>PrefetchWorkers\<close>.\<close>

definition NewFilesStore :: "int64 \<Rightarrow> string \<Rightarrow> 'w Metrics \<Rightarrow> ('c, 'w) Cache \<Rightarrow> (string \<Rightarrow> string result) \<Rightarrow> 'w Router \<Rightarrow> ('c, 'w) store" where
  "NewFilesStore workers nodeName metrics cache parser r =
     \<lparr>st_metricsRecorder = metrics, st_cache = cache, st_prefetchable = (workers > 0), st_router = r,
      st_resolveRetries = ResolveRetries, st_resolveTimeout = ResolveTimeout, st_parser = parser,
      st_nodeName = nodeName\<rparr>"

definition Key :: "('c, 'w) store \<Rightarrow> Context \<Rightarrow> (string \<times> string \<times> go_error option) outcome" where
  "Key s c =
     (let (d, err) = (case st_parser s (BlobUrl c) of Inr d \<Rightarrow> (d, None) | Inl e \<Rightarrow> ([], Some e))
      in if req_Method (ctx_Request c) = ''GET''
         then (case RangeStartIndex (Header_Get (req_Header (ctx_Request c)) ''Range'') of
                 Inl e \<Rightarrow> Ret ([], [], Some e)
               | Inr startIndex \<Rightarrow> obind (FileChunkKey d startIndex CacheBlockSize) (\<lambda>key. Ret (key, d, None)))
         else obind (FileChunkKey d 0 CacheBlockSize) (\<lambda>key. Ret (key, d, err)))"

definition open_file :: "('c, 'w) store \<Rightarrow> Context \<Rightarrow> string \<Rightarrow> int64 \<Rightarrow> 'w storeFile" where
  "open_file s c name alignedOff =
     \<lparr>fl_Name = name, fl_cur = 0, fl_size = 0, fl_statLocked = False,
      fl_chunkOffset = (if IsRequestFromAPeer c then alignedOff else 0),
      fl_reader = reader_iface (NewReader (st_nodeName s) c (st_router s) (st_resolveRetries s)
        (st_resolveTimeout s) (st_metricsRecorder s))\<rparr>"

text \<open>\<open>Open\<close>: the file and error that are returned, and the prefetch goroutine that is started.\<close>

definition Open :: "('c, 'w) store \<Rightarrow> Context \<Rightarrow> 'c \<Rightarrow> 'w \<Rightarrow>
    (('w storeFile option \<times> go_error option) \<times> ('w storeFile \<times> int64 \<times> int64) option \<times> 'c \<times> 'w) outcome" where
  "Open s c cs w =
     (let tokens = Split (GetString c FileChunkCtxKey) FileChunkKeySep in
      if length tokens < 2 then Panic IndexOutOfRange
      else
        (let name = tokens ! 0;
             alignedOff = fst (ParseInt (tokens ! 1));
             (ok, cs1) = (if IsRequestFromAPeer c then cm_Exists (st_cache s) name alignedOff cs else (True, cs))
         in if \<not> ok then Ret ((None, Some ErrNotExist), None, cs1, w)
            else
              obind (Fstat (st_cache s) (open_file s c name alignedOff) cs1 w) (\<lambda>((fileSize, err), f, cs2, w').
                Ret ((Some f, err), if st_prefetchable s then Some (f, 0, fileSize) else None, cs2, w'))))"

text \<open>One round of a prefetch worker, and the keys that it advertises for a list of segments.\<close>

definition prefetch_step :: "('c, 'w) store \<Rightarrow> 'w prefetchableSegment \<Rightarrow> 'c \<Rightarrow> 'w \<Rightarrow> (string option \<times> 'c \<times> 'w) outcome" where
  "prefetch_step s p c w =
     obind (cm_GetOrCreate (st_cache s) (ps_name p) (ps_offset p) (ps_count p)
              (FetchFile (ps_reader p) (ps_name p) (ps_offset p) (ps_count p)) c w)
       (\<lambda>((dat, err), c', w').
          case err of
            Some e \<Rightarrow> Ret (None, c', w')
          | None \<Rightarrow> obind (FileChunkKey (ps_name p) (ps_offset p) CacheBlockSize) (\<lambda>k. Ret (Some k, c', w')))"

fun prefetch_store :: "('c, 'w) store \<Rightarrow> 'w prefetchableSegment list \<Rightarrow> 'c \<Rightarrow> 'w \<Rightarrow> (string list \<times> 'c \<times> 'w) outcome" where
  "prefetch_store s [] c w = Ret ([], c, w)"
| "prefetch_store s (p # ps) c w =
     obind (prefetch_step s p c w) (\<lambda>(k, c', w').
       obind (prefetch_store s ps c' w') (\<lambda>(ks, c'', w''). Ret ((case k of None \<Rightarrow> ks | Some k \<Rightarrow> k # ks), c'', w'')))"

subsection \<open>Serving a file\<close>

text \<open>
  What \<open>http.ServeContent\<close> does with a file once it has parsed the range \<open>[start, start + n)\<close>: seek
  to its start and copy with \<open>io.CopyN\<close>, whose buffer has at most 32 KiB and never more than the rest.
  The outer \<open>None\<close> is a loop that is still running when the fuel is used up.
\<close>

fun copy_loop :: "nat \<Rightarrow> ('c, 'w) Cache \<Rightarrow> 'w storeFile \<Rightarrow> int64 \<Rightarrow> bytes \<Rightarrow> 'c \<Rightarrow> 'w \<Rightarrow>
    ((bytes \<times> go_error option) \<times> 'w storeFile \<times> 'c \<times> 'w) outcome option" where
  "copy_loop 0 ops f n out c w = None"
| "copy_loop (Suc k) ops f n out c w =
     (if n \<le> 0 then Some (Ret ((out, None), f, c, w))
      else (case Read_file ops f (replicate (nat (min 32768 n)) 0) c w of
              Ret ((p, ret, err), f', c', w') \<Rightarrow>
                (let out' = out @ take (nat ret) p in
                 case err of
                   None \<Rightarrow> copy_loop k ops f' (n - ret) out' c' w'
                 | Some e \<Rightarrow> Some (Ret ((out', if e = EOF then None else Some e), f', c', w')))
            | Panic x \<Rightarrow> Some (Panic x)
            | Blocked \<Rightarrow> Some Blocked))"

definition serve_range :: "nat \<Rightarrow> ('c, 'w) Cache \<Rightarrow> 'w storeFile \<Rightarrow> int64 \<Rightarrow> int64 \<Rightarrow> 'c \<Rightarrow> 'w \<Rightarrow>
    ((bytes \<times> go_error option) \<times> 'w storeFile \<times> 'c \<times> 'w) outcome option" where
  "serve_range fuel ops f start n c w = copy_loop fuel ops (snd (Seek f start 0)) n [] c w"

subsection \<open>Reading through the contracts\<close>

text \<open>The chunk of a file with content \<open>D\<close> that starts at \<open>x\<close>.\<close>

definition chunk_of :: "bytes \<Rightarrow> int64 \<Rightarrow> bytes" where
  "chunk_of D x = slice D x (nat (min CacheBlockSize (int (length D) - x)))"

lemma length_chunk_of: "0 \<le> x \<Longrightarrow> x \<le> int (length D) \<Longrightarrow> int (length (chunk_of D x)) = min CacheBlockSize (int (length D) - x)"
  by (simp add: chunk_of_def slice_def CacheBlockSize_def)

lemma FetchFile_ok:
  assumes "file_reader r D" and "0 \<le> x" and "x \<le> int (length D)" and "count = int (length (chunk_of D x))"
  shows "fetch_ok (chunk_of D x) (FetchFile r n x count)"
  unfolding fetch_ok_def
proof (intro allI impI)
  fix w b w' assume run: "FetchFile r n x count w = Ret (Inr b, w')"
  then obtain k err where p: "ri_PreadRemote r (replicate (nat count) 0) x w = Ret ((b, k, err), w')"
    and err: "err = None \<or> err = Some EOF"
    by (auto simp: FetchFile_def split: if_splits option.splits)
  have len: "x + int (length (replicate (nat count) (0 :: byte))) \<le> int (length D)"
    using assms(2-4) length_chunk_of [of x D] by (simp add: min_def)
  have "nat count = nat (min CacheBlockSize (int (length D) - x))" using assms(2-4) length_chunk_of by simp
  then show "b = chunk_of D x"
    using file_reader.pread_content [OF assms(1,2) len p err] by (simp add: chunk_of_def)
qed

text \<open>A file of the store whose reader serves \<open>D\<close>; \<open>D\<close> gives each name its content.\<close>

definition file_of :: "(string \<Rightarrow> bytes) \<Rightarrow> 'w storeFile \<Rightarrow> bool" where
  "file_of D f \<longleftrightarrow> plain_seg (fl_Name f) \<and> file_reader (fl_reader f) (D (fl_Name f))
     \<and> in_int64 (int (length (D (fl_Name f))))"

definition same_file :: "'w storeFile \<Rightarrow> 'w storeFile \<Rightarrow> bool" where
  "same_file f f' \<longleftrightarrow> fl_Name f' = fl_Name f \<and> fl_reader f' = fl_reader f \<and> fl_cur f' = fl_cur f
     \<and> fl_chunkOffset f' = fl_chunkOffset f"

abbreviation sizes_of :: "(string \<Rightarrow> bytes) \<Rightarrow> string \<Rightarrow> int64" where
  "sizes_of D \<equiv> \<lambda>n. int (length (D n))"

text \<open>How many bytes a read of \<open>len\<close> bytes at \<open>offset\<close> returns: up to the end of the block or of the file.\<close>

definition read_count :: "bytes \<Rightarrow> int64 \<Rightarrow> nat \<Rightarrow> int64" where
  "read_count d offset len =
     (let al = offset div CacheBlockSize * CacheBlockSize
      in min (int len) (min CacheBlockSize (int (length d) - al) - (offset - al)))"

lemma read_count_bounds:
  assumes "0 \<le> offset" and "offset \<le> int (length d)"
  shows "0 \<le> read_count d offset len" and "read_count d offset len \<le> int len"
    and "offset + read_count d offset len \<le> int (length d)"
    and "offset < int (length d) \<Longrightarrow> 0 < len \<Longrightarrow> 0 < read_count d offset len"
proof -
  have "0 < CacheBlockSize" by (simp add: CacheBlockSize_def)
  note al = align_bounds [OF this, of offset]
  show "0 \<le> read_count d offset len" "read_count d offset len \<le> int len"
    "offset + read_count d offset len \<le> int (length d)"
    "offset < int (length d) \<Longrightarrow> 0 < len \<Longrightarrow> 0 < read_count d offset len"
    using al assms unfolding read_count_def Let_def by linarith+
qed

lemma chunk_of_part:
  assumes "0 \<le> offset" and "offset \<le> int (length d)" and "al = offset div CacheBlockSize * CacheBlockSize"
  shows "take (nat (read_count d offset len)) (drop (nat (offset - al)) (chunk_of d al))
    = slice d offset (nat (read_count d offset len))"
proof -
  let ?k = "nat (read_count d offset len)" and ?m = "nat (min CacheBlockSize (int (length d) - al))"
  have B: "0 < CacheBlockSize" by (simp add: CacheBlockSize_def)
  have al: "0 \<le> al" "al \<le> offset" using align_nonneg [OF assms(1) B] align_bounds(1) [OF B, of offset] assms(3) by simp_all
  have "read_count d offset len \<le> min CacheBlockSize (int (length d) - al) - (offset - al)"
    by (simp add: read_count_def assms(3) Let_def)
  then have "?k \<le> ?m - nat (offset - al)" using al by linarith
  moreover have "nat (offset - al) + nat al = nat offset" using al by simp
  ultimately show ?thesis by (simp add: chunk_of_def slice_def drop_take add.commute)
qed

lemma slice_append:
  assumes "0 \<le> x"
  shows "slice d x a @ take m (slice d (x + int a) b) = take (a + m) (slice d x (a + b))"
proof -
  have "nat (x + int a) = nat x + a" using assms by simp
  then show ?thesis by (simp add: slice_def take_add min_def add.commute)
qed

context chunk_cache
begin

lemma Fstat_ok:
  assumes "inv E (sizes_of D) c" and "file_of D f" and run: "Fstat ops f c w = Ret ((n, err), f', c', w')"
  shows "inv E (sizes_of D) c' \<and> same_file f f' \<and> (err = None \<longrightarrow> n = int (length (D (fl_Name f)))) \<and> err \<noteq> Some EOF"
proof -
  have rd: "file_reader (fl_reader f) (D (fl_Name f))" and pl: "plain_seg (fl_Name f)"
    using assms(2) by (simp_all add: file_of_def)
  obtain sz hit where sz: "cm_Size ops (fl_Name f) c = (sz, hit)" by (cases "cm_Size ops (fl_Name f) c")
  show ?thesis
  proof (cases hit)
    case True
    then show ?thesis using run sz size_inv [OF assms(1) pl, of sz] assms(1) by (auto simp: Fstat_def same_file_def)
  next
    case False
    then obtain m e where st: "ri_FstatRemote (fl_reader f) w = Ret ((m, e), w')"
      and r: "(n, err) = (if e = None then m else 0, e)" and s: "same_file f f'"
      and c': "c' = (if e = None then snd (cm_PutSize ops (fl_Name f) m c) else c)"
      using run sz by (auto simp: Fstat_def same_file_def split: if_splits option.splits)
    show ?thesis
    proof (cases e)
      case None
      then have m: "m = sizes_of D (fl_Name f)" using file_reader.fstat_length [OF rd] st by simp
      have "inv E (sizes_of D) c'"
        using put_inv [OF assms(1) pl, of "fst (cm_PutSize ops (fl_Name f) m c)" c'] c' None m by simp
      then show ?thesis using r None m s by simp
    next
      case (Some x)
      then show ?thesis using file_reader.fstat_error [OF rd, of w m x w'] st r c' s assms(1) by simp
    qed
  qed
qed

lemma ReadAt_ok:
  assumes I: "inv (\<lambda>n. chunk_of (D n)) (sizes_of D) c" and F: "file_of D f"
    and off: "0 \<le> offset" "offset \<le> int (length (D (fl_Name f)))" "in_int64 (offset + int (length buff))"
    and run: "ReadAt ops f buff offset c w = Ret ((buff', n, err), f', c', w')"
  shows "inv (\<lambda>n. chunk_of (D n)) (sizes_of D) c' \<and> same_file f f'
    \<and> (err = None \<or> err = Some EOF \<longrightarrow> n = read_count (D (fl_Name f)) offset (length buff)
        \<and> buff' = slice (D (fl_Name f)) offset (nat n) @ drop (nat n) buff
        \<and> (err = Some EOF \<longleftrightarrow> offset + int (length buff) > int (length (D (fl_Name f)))))
    \<and> (err \<noteq> None \<and> err \<noteq> Some EOF \<longrightarrow> n \<le> 0)"
proof -
  let ?d = "D (fl_Name f)"
  define al where "al = offset div CacheBlockSize * CacheBlockSize"
  let ?count = "min CacheBlockSize (int (length ?d) - al)"
  have B: "0 < CacheBlockSize" by (simp add: CacheBlockSize_def)
  have i64: "in_int64 (int (length ?d))" using F by (simp add: file_of_def)
  then have oi: "in_int64 offset" using off(1,2) by (rule in_int64_nonneg_le)
  have aligned: "AlignDown offset CacheBlockSize = Ret al" "in_int64 al" "0 \<le> al" "al \<le> offset" "offset < al + CacheBlockSize"
    using AlignDown_nonneg [OF oi off(1) B] align_in_int64 [OF oi off(1) B] align_nonneg [OF off(1) B]
      align_bounds [OF B, of offset] by (simp_all add: al_def)
  obtain sz e1 f1 c1 w1 where fs: "Fstat ops f c w = Ret ((sz, e1), f1, c1, w1)"
    using run by (auto simp: ReadAt_def)
  note st = Fstat_ok [OF I F fs]
  show ?thesis
  proof (cases "e1 = None \<and> \<not> (fl_chunkOffset f1 \<noteq> 0 \<and> al \<noteq> fl_chunkOffset f1)")
    case False
    then show ?thesis
      using run fs st aligned(1) by (auto simp: ReadAt_def errOnlySingleChunkAvailable_def split: option.splits)
  next
    case True
    have cnt: "Min64 CacheBlockSize (sub64 sz al) = ?count"
      using st True aligned(3,4) off(2) i64 by (simp add: sub64_def in_int64_def)
    have len: "int (length (chunk_of ?d al)) = ?count" using aligned(3,4) off(2) by (intro length_chunk_of) auto
    let ?fetch = "FetchFile (fl_reader f) (fl_Name f) al ?count"
    obtain dat e2 c2 w2 where gc: "cm_GetOrCreate ops (fl_Name f) al ?count ?fetch c1 w1 = Ret ((dat, e2), c2, w2)"
      using run fs st True aligned(1) cnt by (auto simp: ReadAt_def same_file_def Let_def split: option.splits)
    have pl: "plain_seg (fl_Name f)" using F by (simp add: file_of_def)
    have fo: "fetch_ok (chunk_of ?d al) ?fetch"
      using F aligned(3,4) off(2) len by (intro FetchFile_ok) (auto simp: file_of_def)
    have g: "inv (\<lambda>n. chunk_of (D n)) (sizes_of D) c2 \<and> (e2 = None \<longrightarrow> dat = chunk_of ?d al)"
      using get_step [of "\<lambda>n. chunk_of (D n)" "sizes_of D" c1 "fl_Name f" al ?fetch ?count w1 dat e2 c2 w2]
        st pl aligned(2) fo len [symmetric] gc by blast
    show ?thesis
    proof (cases e2)
      case (Some x)
      then show ?thesis
        using run fs st True aligned(1) cnt gc g by (auto simp: ReadAt_def same_file_def Let_def)
    next
      case None
      then have dat: "dat = chunk_of ?d al" using g by simp
      have pos: "sub64 offset al = offset - al" using aligned(3,4) oi by (simp add: sub64_def in_int64_def)
      have ret: "min (int (length buff)) (int (length dat) - (offset - al)) = read_count ?d offset (length buff)"
        using dat len by (simp add: read_count_def Let_def al_def)
      have eo: "add64 offset (int (length buff)) = offset + int (length buff)" using off(3) by (simp add: add64_def)
      note rc = read_count_bounds [OF off(1,2), of "length buff"]
      have "take (nat (read_count ?d offset (length buff))) (drop (nat (offset - al)) dat)
          = slice ?d offset (nat (read_count ?d offset (length buff)))"
        unfolding dat by (rule chunk_of_part [OF off(1,2) al_def])
      then show ?thesis
        using run fs st True aligned(1,4) cnt gc g None pos ret eo rc(1)
        by (auto simp: ReadAt_def same_file_def Let_def copy_out_def split: if_splits)
    qed
  qed
qed

lemma Read_file_ok:
  assumes "inv (\<lambda>n. chunk_of (D n)) (sizes_of D) c" and "file_of D f"
    and off: "0 \<le> fl_cur f" "fl_cur f + int (length p) \<le> int (length (D (fl_Name f)))" "p \<noteq> []"
    and run: "Read_file ops f p c w = Ret ((p', n, err), f', c', w')"
  shows "inv (\<lambda>n. chunk_of (D n)) (sizes_of D) c' \<and> file_of D f' \<and> fl_Name f' = fl_Name f \<and> err \<noteq> Some EOF
    \<and> (err = None \<longrightarrow> 0 < n \<and> n \<le> int (length p) \<and> fl_cur f' = fl_cur f + n
        \<and> take (nat n) p' = slice (D (fl_Name f)) (fl_cur f) (nat n))
    \<and> (err \<noteq> None \<longrightarrow> n \<le> 0)"
proof -
  obtain f1 where rd: "ReadAt ops f p (fl_cur f) c w = Ret ((p', n, err), f1, c', w')"
    and f': "f' = (if err = None then f1\<lparr>fl_cur := add64 (fl_cur f1) n\<rparr> else f1)"
    using run by (auto simp: Read_file_def)
  have i64: "in_int64 (int (length (D (fl_Name f))))" using assms(2) by (simp add: file_of_def)
  have pi: "in_int64 (fl_cur f + int (length p))" using i64 off(1,2) by (auto intro: in_int64_nonneg_le)
  have le: "fl_cur f \<le> int (length (D (fl_Name f)))" using off(2) by simp
  note r = ReadAt_ok [OF assms(1,2) off(1) le pi rd]
  have f1: "file_of D f'" "fl_Name f' = fl_Name f" "fl_cur f1 = fl_cur f"
    using r assms(2) f' by (simp_all add: same_file_def file_of_def)
  show ?thesis
  proof (cases err)
    case None
    have lt: "fl_cur f < int (length (D (fl_Name f)))" using off(2,3) by (cases p) auto
    have n: "n = read_count (D (fl_Name f)) (fl_cur f) (length p)" using r None by simp
    have b: "0 < n" "n \<le> int (length p)" using read_count_bounds(2,4) [OF off(1) le, of "length p"] lt off(3) n by auto
    have "in_int64 (fl_cur f + n)" using b off(1) pi by (auto simp: in_int64_def)
    then have cur: "fl_cur f' = fl_cur f + n" using f' None f1(3) by (simp add: add64_def)
    have "length (slice (D (fl_Name f)) (fl_cur f) (nat n)) = nat n"
      using read_count_bounds(3) [OF off(1) le, of "length p"] n b off(1) by (intro length_slice) auto
    then have "take (nat n) p' = slice (D (fl_Name f)) (fl_cur f) (nat n)" using r None by simp
    then show ?thesis using r f1 b cur None by simp
  next
    case (Some e)
    then show ?thesis using r f1 off(2) by auto
  qed
qed

lemma copy_loop_ok:
  assumes "inv (\<lambda>n. chunk_of (D n)) (sizes_of D) c" and "file_of D f" and "d = D (fl_Name f)"
    and "0 \<le> fl_cur f" and "fl_cur f + n \<le> int (length d)"
    and "copy_loop k ops f n out c w = Some (Ret ((out', err), f', c', w'))"
  shows "inv (\<lambda>n. chunk_of (D n)) (sizes_of D) c' \<and>
    (\<exists>m. out' = out @ take m (slice d (fl_cur f) (nat n)) \<and> (err = None \<longrightarrow> m = nat n))"
  using assms
proof (induction k arbitrary: f n out c w)
  case (Suc k)
  show ?case
  proof (cases "n \<le> 0")
    case True
    then show ?thesis using Suc.prems by auto
  next
    case False
    let ?p = "replicate (nat (min 32768 n)) (0 :: byte)"
    obtain p ret e f1 c1 w1 where rd: "Read_file ops f ?p c w = Ret ((p, ret, e), f1, c1, w1)"
      using Suc.prems(6) False by (auto split: outcome.splits)
    have ne: "?p \<noteq> []" using False by simp
    have le: "fl_cur f + int (length ?p) \<le> int (length (D (fl_Name f)))" using Suc.prems(3,5) False by auto
    note r = Read_file_ok [OF Suc.prems(1,2,4) le ne rd]
    show ?thesis
    proof (cases e)
      case (Some x)
      then have "out' = out" "err \<noteq> None" "c' = c1" using Suc.prems(6) rd r False by (auto simp: Let_def)
      then show ?thesis using r by (intro conjI exI [of _ 0]) auto
    next
      case None
      have ret: "0 < ret" "ret \<le> n" "fl_cur f1 = fl_cur f + ret" "take (nat ret) p = slice d (fl_cur f) (nat ret)"
        using r None False Suc.prems(3) by auto
      have "copy_loop k ops f1 (n - ret) (out @ take (nat ret) p) c1 w1 = Some (Ret ((out', err), f', c', w'))"
        using Suc.prems(6) rd None False by (simp add: Let_def)
      then obtain m where inv: "inv (\<lambda>n. chunk_of (D n)) (sizes_of D) c'"
        and m: "out' = (out @ take (nat ret) p) @ take m (slice d (fl_cur f1) (nat (n - ret)))" "err = None \<longrightarrow> m = nat (n - ret)"
        using Suc.IH [of c1 f1 "n - ret" "out @ take (nat ret) p" w1] r Suc.prems(3-5) ret by auto
      have sum: "nat n = nat ret + nat (n - ret)" "nat (fl_cur f + ret) = nat (fl_cur f) + nat ret"
        using ret(1,2) Suc.prems(4) by simp_all
      have "out' = out @ take (nat ret + m) (slice d (fl_cur f) (nat n))"
        unfolding m(1) ret(3,4) using slice_append [OF Suc.prems(4), of d "nat ret" m "nat (n - ret)"] sum ret(1) by simp
      then show ?thesis using inv m(2) sum(1) by (intro conjI exI [of _ "nat ret + m"]) auto
    qed
  qed
qed simp

lemma copy_loop_ends:
  assumes "inv (\<lambda>n. chunk_of (D n)) (sizes_of D) c" and "file_of D f"
    and "0 \<le> fl_cur f" and "fl_cur f + n \<le> int (length (D (fl_Name f)))" and "nat n < k"
  shows "copy_loop k ops f n out c w \<noteq> None"
  using assms
proof (induction k arbitrary: f n out c w)
  case (Suc k)
  show ?case
  proof (cases "n \<le> 0")
    case False
    let ?p = "replicate (nat (min 32768 n)) (0 :: byte)"
    show ?thesis
    proof (cases "Read_file ops f ?p c w")
      case (Ret x)
      obtain p ret e f1 c1 w1 where rd: "Read_file ops f ?p c w = Ret ((p, ret, e), f1, c1, w1)"
        using Ret by (metis prod.exhaust)
      have ne: "?p \<noteq> []" using False by simp
      have le: "fl_cur f + int (length ?p) \<le> int (length (D (fl_Name f)))" using Suc.prems(4) False by auto
      note r = Read_file_ok [OF Suc.prems(1-3) le ne rd]
      show ?thesis
      proof (cases e)
        case None
        then have "copy_loop k ops f1 (n - ret) (out @ take (nat ret) p) c1 w1 \<noteq> None"
          using r Suc.prems(3-5) False by (intro Suc.IH) auto
        then show ?thesis using rd None False by (simp add: Let_def)
      qed (use rd False in \<open>simp add: Let_def\<close>)
    qed (use False in simp_all)
  qed simp
qed simp

end

subsection \<open>A store for the examples\<close>

text \<open>
  A cache that keeps sizes and fetches every chunk, a parser that knows the address of one blob, and
  a store over them whose origin holds the bytes 1 to 4.
\<close>

definition fetch_cache :: "((string \<times> int64) list, 'w) Cache" where
  "fetch_cache = \<lparr>
     cm_Size = (\<lambda>n c. case map_of c n of Some v \<Rightarrow> (v, True) | None \<Rightarrow> (0, False)),
     cm_PutSize = (\<lambda>n v c. (True, (n, v) # c)),
     cm_Exists = (\<lambda>n x c. (True, c)),
     cm_GetOrCreate = (\<lambda>n x count fetch c w. obind (fetch w) (\<lambda>(r, w').
        case r of Inl e \<Rightarrow> Ret (([], Some e), c, w') | Inr b \<Rightarrow> Ret ((b, None), c, w')))\<rparr>"

definition demo_parser :: "string \<Rightarrow> string result" where
  "demo_parser u = (if HasPrefix u ''https://origin/b?'' then Inr ''sha256:d'' else Inl (Errorf ''unknown url''))"

definition demo_store :: "unit http_client \<Rightarrow> ((string \<times> int64) list, unit) store" where
  "demo_store client = NewFilesStore PrefetchWorkers ''node1'' quiet_metrics fetch_cache demo_parser (demo_router (\<lambda>_. client) [])"

definition peer_get :: "string \<Rightarrow> string \<Rightarrow> Context" where
  "peer_get url key =
     \<lparr>ctx_Request = \<lparr>req_Method = ''GET'', req_Path = ''/blobs/'' @ url, req_RawQuery = [],
        req_Header = [(''X-Ms-Peerd-Requestfrompeer'', [''true'']), (''Range'', [''bytes=2-3''])]\<rparr>,
      ctx_Params = [(''url'', url)], ctx_Query = [],
      ctx_Keys = [(BlobUrlCtxKey, CtxString (url @ ''?'')), (FileChunkCtxKey, CtxString key)]\<rparr>"

lemma peer_get_range: "RangeStartIndex (Header_Get (req_Header (ctx_Request (peer_get url key))) ''Range'') = Inr 2"
proof -
  have "Header_Get (req_Header (ctx_Request (peer_get url key))) ''Range'' = range_header 2 3"
  proof -
    have "range_header 2 3 = ''bytes=2-3''" by code_simp
    then show ?thesis by (simp add: peer_get_def Header_Get_def header_keys_canonical)
  qed
  then show ?thesis using RangeStartIndex_range_header [of 2 3] by (simp add: in_int64_def)
qed

lemma demo_store_Key:
  "Key (demo_store client) (peer_get ''https://origin/b'' k) = Ret (''sha256:d_0'', ''sha256:d'', None)"
proof -
  have "st_parser (demo_store client) (BlobUrl (peer_get ''https://origin/b'' k)) = Inr ''sha256:d''"
    by (simp add: demo_store_def NewFilesStore_def demo_parser_def BlobUrl_def Param_def peer_get_def TrimPrefix_def HasPrefix_def)
  moreover have "FileChunkKey ''sha256:d'' 2 CacheBlockSize = Ret ''sha256:d_0''" by code_simp
  ultimately show ?thesis using peer_get_range [of "''https://origin/b''" k] by (simp add: Key_def) (simp add: peer_get_def)
qed

subsection \<open>Keys\<close>

lemma FileChunkKey_nonneg:
  "in_int64 offset \<Longrightarrow> 0 \<le> offset \<Longrightarrow>
    FileChunkKey name offset CacheBlockSize = Ret (name @ ''_'' @ FormatInt (offset div CacheBlockSize * CacheBlockSize))"
  by (simp add: FileChunkKey_def AlignDown_nonneg CacheBlockSize_def FileChunkKeySep_def)

lemma FileChunkKey_split:
  assumes "CHR ''_'' \<notin> set name"
  shows "Split (name @ ''_'' @ FormatInt x) FileChunkKeySep = [name, FormatInt x]"
  using assms FormatInt_no_sep by (simp add: Split_append_sep Split_no_sep FileChunkKeySep_def)

lemma aligned_in_int64: "in_int64 x \<Longrightarrow> 0 \<le> x \<Longrightarrow> in_int64 (x div CacheBlockSize * CacheBlockSize)"
  by (rule align_in_int64) (simp_all add: CacheBlockSize_def)

text \<open>
  The chunk key that \<open>Key\<close> puts into the request context is read back by \<open>Open\<close>: the file is
  named by the digest of the blob's address, and for a peer's request it is tied to the block of the
  start of the requested range (the first block for a HEAD request).
\<close>

theorem Key_Open_roundtrip:
  assumes "Key s c = Ret (key, d, None)" and "CHR ''_'' \<notin> set d"
    and "GetString c' FileChunkCtxKey = key" and "IsRequestFromAPeer c'"
    and "Open s c' cs w = Ret ((Some f, err), job, cs', w')"
  shows "fl_Name f = d \<and> (\<exists>start. 0 \<le> start
    \<and> (req_Method (ctx_Request c) = ''GET'' \<longrightarrow>
        RangeStartIndex (Header_Get (req_Header (ctx_Request c)) ''Range'') = Inr start)
    \<and> (req_Method (ctx_Request c) \<noteq> ''GET'' \<longrightarrow> start = 0)
    \<and> fl_chunkOffset f = start div CacheBlockSize * CacheBlockSize)"
proof -
  obtain start where start: "0 \<le> start" "in_int64 start"
      "req_Method (ctx_Request c) = ''GET'' \<longrightarrow>
        RangeStartIndex (Header_Get (req_Header (ctx_Request c)) ''Range'') = Inr start"
      "req_Method (ctx_Request c) \<noteq> ''GET'' \<longrightarrow> start = 0"
    and key: "FileChunkKey d start CacheBlockSize = Ret key"
  proof (cases "req_Method (ctx_Request c) = ''GET''")
    case True
    then obtain start where "RangeStartIndex (Header_Get (req_Header (ctx_Request c)) ''Range'') = Inr start"
      and "FileChunkKey d start CacheBlockSize = Ret key"
      using assms(1) by (auto simp: Key_def split: sum.splits)
    then show ?thesis using that RangeStartIndex_nonneg True by blast
  next
    case False
    then have "FileChunkKey d 0 CacheBlockSize = Ret key"
      using assms(1) by (auto simp: Key_def split: sum.splits)
    then show ?thesis using that [of 0] False by simp
  qed
  let ?a = "start div CacheBlockSize * CacheBlockSize"
  have sp: "Split (GetString c' FileChunkCtxKey) FileChunkKeySep = [d, FormatInt ?a]"
    unfolding assms(3) using key FileChunkKey_nonneg [OF start(2,1), of d] FileChunkKey_split [OF assms(2), of ?a]
    by simp
  have "fst (ParseInt (FormatInt ?a)) = ?a"
    using ParseInt_FormatInt [OF aligned_in_int64 [OF start(2,1)]] by simp
  then have "fl_Name f = d \<and> fl_chunkOffset f = ?a"
    using assms(4,5) sp
    by (auto simp: Open_def open_file_def Fstat_def Let_def split: prod.splits if_splits bool.splits option.splits)
  then show ?thesis using start by blast
qed

lemma Open_peer:
  assumes "IsRequestFromAPeer c" and "Split (GetString c FileChunkCtxKey) FileChunkKeySep = [n, a]"
    and "cm_Exists (st_cache s) n (fst (ParseInt a)) cs = (True, cs1)"
    and "Fstat (st_cache s) (open_file s c n (fst (ParseInt a))) cs1 w = Ret ((sz, err), f, cs2, w')"
  shows "Open s c cs w = Ret ((Some f, err), if st_prefetchable s then Some (f, 0, sz) else None, cs2, w')"
  using assms by (simp add: Open_def Let_def)

lemma peer_get_simps:
  "IsRequestFromAPeer (peer_get u k)" "GetString (peer_get u k) FileChunkCtxKey = k"
  by (simp_all add: peer_get_def IsRequestFromAPeer_def Header_Get_def header_keys_canonical GetString_def ctx_Get_def
      FileChunkCtxKey_def BlobUrlCtxKey_def)

lemma demo_tokens: "Split ''sha256:d_0'' FileChunkKeySep = [''sha256:d'', ''0'']"
  by code_simp

theorem Key_Open_roundtrip_witness:
  "\<exists>f job. Open (demo_store (range_server [1, 2, 3, 4])) (peer_get ''https://origin/b'' ''sha256:d_0'') [(''sha256:d'', 4)] ()
      = Ret ((Some f, None), job, [(''sha256:d'', 4)], ()) \<and> fl_Name f = ''sha256:d'' \<and> fl_chunkOffset f = 0"
proof -
  let ?s = "demo_store (range_server [1, 2, 3, 4])" and ?c = "peer_get ''https://origin/b'' ''sha256:d_0''"
  let ?f = "open_file ?s ?c ''sha256:d'' (fst (ParseInt ''0''))"
  have tok: "Split (GetString ?c FileChunkCtxKey) FileChunkKeySep = [''sha256:d'', ''0'']"
    by (simp only: peer_get_simps demo_tokens)
  have sc: "st_cache ?s = fetch_cache" by (simp add: demo_store_def NewFilesStore_def)
  have "Fstat fetch_cache ?f [(''sha256:d'', 4)] () = Ret ((4, None), ?f\<lparr>fl_size := 4\<rparr>, [(''sha256:d'', 4)], ())"
    by (simp add: Fstat_def fetch_cache_def open_file_def)
  moreover have "cm_Exists fetch_cache n x cs = (True, cs)" for n x cs by (simp add: fetch_cache_def)
  ultimately obtain job where o: "Open ?s ?c [(''sha256:d'', 4)] () = Ret ((Some (?f\<lparr>fl_size := 4\<rparr>), None), job, [(''sha256:d'', 4)], ())"
    using Open_peer [OF peer_get_simps(1) tok, of ?s "[(''sha256:d'', 4)]"] sc by metis
  have "req_Method (ctx_Request ?c) = ''GET''" by (simp add: peer_get_def)
  then show ?thesis
    using Key_Open_roundtrip [OF demo_store_Key [of _ "''sha256:d_0''"] _ peer_get_simps(2,1) o]
      peer_get_range [of "''https://origin/b''" "''sha256:d_0''"] o
    by (auto simp: CacheBlockSize_def)
qed

subsection \<open>Prefetching\<close>

text \<open>
  Prefetching a file of known size asks for the whole file, block by block: the goroutine ends,
  the segments it sends are the blocks of the file in order, their ranges tile \<open>[0, size)\<close>, and each
  request is for exactly the chunk that a read of this block will ask the cache for.
\<close>

theorem prefetch_covers_file:
  assumes "cm_Size ops (fl_Name f) c = (sz, True)" and "0 \<le> sz" and "in_int64 (sz + CacheBlockSize)"
  shows "\<exists>ps f'. prefetch_file ops f 0 sz c w = Ret (Some ps, f', c, w)
    \<and> concat (map (\<lambda>p. [ps_offset p .. ps_offset p + ps_count p - 1]) ps) = [0 .. sz - 1]
    \<and> list_all (\<lambda>p. ps_name p = fl_Name f \<and> CacheBlockSize dvd ps_offset p
        \<and> ps_count p = min CacheBlockSize (sz - ps_offset p)) ps"
proof -
  let ?r = "\<lparr>segs_offset = 0, segs_step = CacheBlockSize, segs_size = sz\<rparr>"
  have B: "0 < CacheBlockSize" "CacheBlockSize AND sub64 CacheBlockSize 1 = 0"
    by (simp_all add: CacheBlockSize_def sub64_def in_int64_def)
  have sz: "in_int64 sz" using in_int64_nonneg_le [OF assms(3,2)] B(1) by simp
  have ns: "NewSegments 0 CacheBlockSize sz sz = Inr ?r"
    using B(2) sz by (simp add: NewSegments_def add64_def)
  obtain segs where segs: "All_segments ?r = Ret (Some segs)" "concat (map seg_positions segs) = [0 .. sz - 1]"
      "list_all (in_block CacheBlockSize) segs"
    using All_segments_tiles [OF ns B(1)] sz assms(3) by auto
  have al: "AlignDown 0 CacheBlockSize = Ret 0" using AlignDown_nonneg [of 0 CacheBlockSize] B(1) by simp
  have "all_loop ?r 0 = Some segs" using segs(1) by (simp add: All_segments_def al)
  then have blocks: "list_all (\<lambda>s. seg_Offset s = 0 \<and> 0 \<le> seg_Index s \<and> seg_Index s < sz
      \<and> seg_Count s = min CacheBlockSize (sz - seg_Index s)) segs"
    using all_loop_blocks [of ?r 0 segs] B(1) assms(3) by (simp add: no_wrap_def)
  let ?mk = "\<lambda>seg. \<lparr>ps_name = fl_Name f, ps_offset = seg_Index seg, ps_count = seg_Count seg, ps_reader = fl_reader f\<rparr>"
  have run: "prefetch_file ops f 0 sz c w = Ret (Some (map ?mk segs), f\<lparr>fl_size := sz\<rparr>, c, w)"
    using assms(1) segs(1) ns by (simp add: prefetch_file_def Fstat_def)
  have pos: "map (\<lambda>p. [ps_offset p .. ps_offset p + ps_count p - 1]) (map ?mk segs) = map seg_positions segs"
    using blocks by (auto simp: seg_positions_def list_all_iff)
  have "list_all (\<lambda>p. ps_name p = fl_Name f \<and> CacheBlockSize dvd ps_offset p
      \<and> ps_count p = min CacheBlockSize (sz - ps_offset p)) (map ?mk segs)"
    using blocks segs(3) by (auto simp: list_all_iff in_block_def)
  then show ?thesis using run segs(2) by (intro exI [of _ "map ?mk segs"] exI) (simp add: pos del: map_map)
qed

theorem prefetch_covers_file_witness:
  "\<exists>ps f'. prefetch_file fetch_cache \<lparr>fl_Name = ''d'', fl_cur = 0, fl_size = 0, fl_statLocked = False, fl_chunkOffset = 0,
      fl_reader = NewMockReader []\<rparr> 0 3000000 [(''d'', 3000000)] () = Ret (Some ps, f', [(''d'', 3000000)], ())
    \<and> concat (map (\<lambda>p. [ps_offset p .. ps_offset p + ps_count p - 1]) ps) = [0 .. 3000000 - 1]
    \<and> list_all (\<lambda>p. ps_name p = ''d'' \<and> CacheBlockSize dvd ps_offset p \<and> ps_count p = min CacheBlockSize (3000000 - ps_offset p)) ps"
  using prefetch_covers_file [of fetch_cache "\<lparr>fl_Name = ''d'', fl_cur = 0, fl_size = 0, fl_statLocked = False, fl_chunkOffset = 0,
      fl_reader = NewMockReader []\<rparr>" "[(''d'', 3000000)]" 3000000 "()"]
  by (simp add: fetch_cache_def in_int64_def CacheBlockSize_def)

subsection \<open>Where the store fails\<close>

text \<open>
  A blob address that the parser does not know is not refused on GET: the error of \<open>ParseDigest\<close>
  is overwritten by the one of the range header, so all such blobs get the empty digest and, for
  ranges in the same block, the same key and the same cached chunk.
\<close>

theorem Key_unknown_blobs_collide:
  assumes "st_parser s (BlobUrl c1) = Inl e1" and "st_parser s (BlobUrl c2) = Inl e2"
    and "req_Method (ctx_Request c1) = ''GET''" and "req_Method (ctx_Request c2) = ''GET''"
    and "RangeStartIndex (Header_Get (req_Header (ctx_Request c1)) ''Range'') = Inr i"
    and "RangeStartIndex (Header_Get (req_Header (ctx_Request c2)) ''Range'') = Inr j"
    and "i div CacheBlockSize = j div CacheBlockSize"
  shows "\<exists>key. Key s c1 = Ret (key, [], None) \<and> Key s c2 = Ret (key, [], None)"
  using assms FileChunkKey_nonneg [OF RangeStartIndex_nonneg(2,1) [OF assms(5)], of "[]"]
    FileChunkKey_nonneg [OF RangeStartIndex_nonneg(2,1) [OF assms(6)], of "[]"]
  by (simp add: Key_def)

theorem Key_unknown_blobs_collide_witness:
  "\<exists>key. Key (demo_store (range_server [])) (peer_get ''https://x/1'' []) = Ret (key, [], None)
    \<and> Key (demo_store (range_server [])) (peer_get ''https://y/2'' []) = Ret (key, [], None)"
proof -
  have u: "st_parser (demo_store (range_server [])) (BlobUrl (peer_get ''https://x/1'' [])) = Inl (Errorf ''unknown url'')"
    "st_parser (demo_store (range_server [])) (BlobUrl (peer_get ''https://y/2'' [])) = Inl (Errorf ''unknown url'')"
    by (simp_all add: demo_store_def NewFilesStore_def demo_parser_def BlobUrl_def Param_def peer_get_def TrimPrefix_def HasPrefix_def)
  show ?thesis
    by (rule Key_unknown_blobs_collide [OF u _ _ peer_get_range peer_get_range]) (simp_all add: peer_get_def)
qed

lemma Fstat_error_locks:
  assumes "Fstat ops f c w = Ret ((n, Some e), f', c', w')"
  shows "fl_statLocked f' \<and> c' = c \<and> fl_Name f' = fl_Name f \<and> (\<exists>sz. cm_Size ops (fl_Name f) c = (sz, False))"
  using assms by (auto simp: Fstat_def split: prod.splits bool.splits if_splits option.splits)

text \<open>
  C40: a failed stat leaves \<open>statLock\<close> locked. When \<open>Open\<close> cannot stat the file, the prefetch
  goroutine that it starts all the same waits for the lock forever.
\<close>

theorem Open_stat_error_blocks_prefetch:
  assumes "Open s c cs w = Ret ((Some f, Some e), Some (g, off, n), cs', w')"
  shows "prefetch_file (st_cache s) g off n cs' w'' = Blocked"
proof -
  obtain f0 cs1 fileSize where fs: "Fstat (st_cache s) f0 cs1 w = Ret ((fileSize, Some e), g, cs', w')"
    using assms by (auto simp: Open_def Let_def split: prod.splits if_splits)
  then obtain sz where "cm_Size (st_cache s) (fl_Name g) cs' = (sz, False)" "fl_statLocked g"
    using Fstat_error_locks [OF fs] by auto
  then show ?thesis by (simp add: prefetch_file_def Fstat_def)
qed

lemma FstatRemote_refused:
  assumes "rd_defaultHttpClient r = (\<lambda>req w. (Inl x, w))"
  obtains k e where "FstatRemote r () = ((k, Some e), ())"
  using assms by (cases "originRequest r 0 0") (auto simp: FstatRemote_def fstatRemote_def Let_def)

theorem Open_stat_error_blocks_prefetch_witness:
  "\<exists>f e g off n. Open (demo_store (\<lambda>req w. (Inl (NetError ''refused''), w))) (peer_get ''https://origin/b'' ''sha256:d_0'') [] ()
      = Ret ((Some f, Some e), Some (g, off, n), [], ())
    \<and> prefetch_file fetch_cache g off n [] () = Blocked"
proof -
  let ?s = "demo_store (\<lambda>req w. (Inl (NetError ''refused''), w))" and ?c = "peer_get ''https://origin/b'' ''sha256:d_0''"
  let ?r = "NewReader (st_nodeName ?s) ?c (st_router ?s) (st_resolveRetries ?s) (st_resolveTimeout ?s) (st_metricsRecorder ?s)"
  have cl: "rd_defaultHttpClient ?r = (\<lambda>req w. (Inl (NetError ''refused''), w))"
    by (simp add: NewReader_def demo_store_def NewFilesStore_def demo_router_def)
  obtain k e where e: "FstatRemote ?r () = ((k, Some e), ())"
    by (rule FstatRemote_refused [OF cl])
  have sc: "st_cache ?s = fetch_cache" "st_prefetchable ?s"
    by (simp_all add: demo_store_def NewFilesStore_def PrefetchWorkers_def)
  let ?f = "open_file ?s ?c ''sha256:d'' (fst (ParseInt ''0''))"
  have tok: "Split (GetString ?c FileChunkCtxKey) FileChunkKeySep = [''sha256:d'', ''0'']"
    by (simp only: peer_get_simps demo_tokens)
  have fs: "Fstat (st_cache ?s) ?f [] () = Ret ((0, Some e), ?f\<lparr>fl_size := k, fl_statLocked := True\<rparr>, [], ())"
    unfolding sc(1) using e by (simp add: Fstat_def fetch_cache_def open_file_def reader_iface_def)
  have ex: "cm_Exists (st_cache ?s) ''sha256:d'' (fst (ParseInt ''0'')) [] = (True, [])"
    unfolding sc(1) by (simp add: fetch_cache_def)
  have o: "Open ?s ?c [] () = Ret ((Some (?f\<lparr>fl_size := k, fl_statLocked := True\<rparr>), Some e),
      Some (?f\<lparr>fl_size := k, fl_statLocked := True\<rparr>, 0, 0), [], ())"
    using Open_peer [OF peer_get_simps(1) tok ex fs] sc(2) by (simp only: if_True)
  show ?thesis using Open_stat_error_blocks_prefetch [OF o, of "()", unfolded sc(1)] o by blast
qed

text \<open>
  A read that starts behind the end of the file, in the file's last block, does not return
  \<open>io.EOF\<close> but panics with slice bounds out of range.
\<close>

theorem ReadAt_past_end_panics:
  assumes "cm_Size ops (fl_Name f) c = (sz, True)" and "fl_chunkOffset f = 0"
    and "in_int64 offset" and "0 \<le> sz" and "sz < offset" and "offset div CacheBlockSize = sz div CacheBlockSize"
    and "cm_GetOrCreate ops (fl_Name f) (offset div CacheBlockSize * CacheBlockSize)
      (sz - offset div CacheBlockSize * CacheBlockSize)
      (FetchFile (fl_reader f) (fl_Name f) (offset div CacheBlockSize * CacheBlockSize)
        (sz - offset div CacheBlockSize * CacheBlockSize)) c w = Ret ((dat, None), c', w')"
    and "int (length dat) = sz - offset div CacheBlockSize * CacheBlockSize"
  shows "ReadAt ops f buff offset c w = Panic SliceBounds"
proof -
  define al where "al = offset div CacheBlockSize * CacheBlockSize"
  have B: "0 < CacheBlockSize" by (simp add: CacheBlockSize_def)
  have al: "AlignDown offset CacheBlockSize = Ret al" "0 \<le> al" "al \<le> sz" "sz < al + CacheBlockSize"
    using AlignDown_nonneg [OF assms(3) _ B] align_nonneg [OF _ B, of offset] align_bounds [OF B, of sz] assms(4-6)
    by (simp_all add: al_def)
  have w: "sub64 sz al = sz - al" "sub64 offset al = offset - al"
    using al assms(3-5) by (simp_all add: sub64_def in_int64_def)
  have "min CacheBlockSize (sz - al) = sz - al" using al by simp
  then show ?thesis
    using assms(1,2,7,8) al w assms(5) unfolding al_def [symmetric]
    by (auto simp: ReadAt_def Fstat_def copy_out_def Let_def)
qed

theorem ReadAt_past_end_panics_witness:
  "ReadAt fetch_cache \<lparr>fl_Name = ''d'', fl_cur = 0, fl_size = 0, fl_statLocked = False, fl_chunkOffset = 0,
     fl_reader = NewMockReader [1, 2]\<rparr> [0] 3 [(''d'', 2)] () = Panic SliceBounds"
  by (rule ReadAt_past_end_panics [where sz = 2 and dat = "[1, 2]" and c' = "[(''d'', 2)]" and w' = "()"])
    (simp_all add: fetch_cache_def in_int64_def CacheBlockSize_def FetchFile_def NewMockReader_def mock_PreadRemote_def)

end
