(* ===== verification/Gin_Writer.thy ===== *)
theory Gin_Writer
  imports Request_Context "HOL-Library.Sublist"
begin

section \<open>Responses of the HTTP handlers\<close>

text \<open>
  A handler answers through the methods of its gin context and writer. Its model is the list of
  these calls, in order, and how it ends (it returns or panics). What a client sees of them is
  \<open>respond\<close>: gin keeps the status and the header until the first byte of the body or an abort
  commits them, and ignores a status set later; an error given to \<open>AbortWithError\<close> is recorded for
  the request log.
\<close>

text \<open>\<open>textproto.TrimString\<close>, which the standard library applies to parts of header values.\<close>

definition is_ows :: "char \<Rightarrow> bool" where "is_ows c \<longleftrightarrow> c = CHR '' '' \<or> of_char c = (9::nat) \<or> of_char c = (10::nat) \<or> of_char c = (13::nat)"

definition TrimString :: "string \<Rightarrow> string" where
  "TrimString s = rev (dropWhile is_ows (rev (dropWhile is_ows s)))"

text \<open>\<open>SetHeader\<close> is \<open>c.Header\<close>, which removes the header for an empty value; \<open>PutHeader\<close> is \<open>w.Header().Set\<close>.\<close>

datatype gin_call =
    SetHeader string string
  | PutHeader string string
  | AddHeader string string
  | DelHeader string
  | SetStatus int64
  | AbortWithStatus int64
  | AbortWithError int64 go_error
  | Write bytes

type_synonym handling = "gin_call list \<times> unit outcome"

definition Header_Add :: "string \<Rightarrow> string \<Rightarrow> Header \<Rightarrow> Header" where
  "Header_Add key val h =
     (let k = CanonicalHeaderKey key
      in AList.update k ((case map_of h k of None \<Rightarrow> [] | Some vs \<Rightarrow> vs) @ [val]) h)"

record Response =
  rsp_written :: bool
  rsp_status :: int64
  rsp_header :: Header
  rsp_body :: bytes
  rsp_errors :: "go_error list"

definition new_response :: Response where
  "new_response = \<lparr>rsp_written = False, rsp_status = 200, rsp_header = [], rsp_body = [], rsp_errors = []\<rparr>"

text \<open>A change of status or header that comes after the commit has no effect on the wire.\<close>

definition uncommitted :: "(Response \<Rightarrow> Response) \<Rightarrow> Response \<Rightarrow> Response" where
  "uncommitted f r = (if rsp_written r then r else f r)"

fun gin_apply :: "gin_call \<Rightarrow> Response \<Rightarrow> Response" where
  "gin_apply (SetHeader k v) r = uncommitted (rsp_header_update (if v = [] then Header_Del k else Header_Set k v)) r"
| "gin_apply (PutHeader k v) r = uncommitted (rsp_header_update (Header_Set k v)) r"
| "gin_apply (AddHeader k v) r = uncommitted (rsp_header_update (Header_Add k v)) r"
| "gin_apply (DelHeader k) r = uncommitted (rsp_header_update (Header_Del k)) r"
| "gin_apply (SetStatus code) r = uncommitted (\<lambda>r. r\<lparr>rsp_status := code\<rparr>) r"
| "gin_apply (AbortWithStatus code) r = uncommitted (\<lambda>r. r\<lparr>rsp_status := code, rsp_written := True\<rparr>) r"
| "gin_apply (AbortWithError code e) r =
     (uncommitted (\<lambda>r. r\<lparr>rsp_status := code, rsp_written := True\<rparr>) r)\<lparr>rsp_errors := rsp_errors r @ [e]\<rparr>"
| "gin_apply (Write b) r = r\<lparr>rsp_written := True, rsp_body := rsp_body r @ b\<rparr>"

definition respond :: "gin_call list \<Rightarrow> Response" where
  "respond calls = fold gin_apply calls new_response"

text \<open>The contract of an \<open>io.Writer\<close>: a write that is short has an error.\<close>

definition writer_ok :: "writer \<Rightarrow> bool" where
  "writer_ok dst \<longleftrightarrow> (\<forall>b out err. dst b = (out, err) \<longrightarrow> prefix out b \<and> (err = None \<longrightarrow> out = b))"

lemma writer_okD: "writer_ok dst \<Longrightarrow> dst b = (out, err) \<Longrightarrow> prefix out b \<and> (err = None \<longrightarrow> out = b)"
  by (simp add: writer_ok_def)

lemmas respond_defs = respond_def new_response_def uncommitted_def

text \<open>Once committed, the status and the header are final; body and errors only grow.\<close>

lemma fold_gin_committed:
  "rsp_written r \<Longrightarrow> rsp_written (fold gin_apply calls r) \<and> rsp_status (fold gin_apply calls r) = rsp_status r
    \<and> rsp_header (fold gin_apply calls r) = rsp_header r"
proof (induction calls arbitrary: r)
  case (Cons a calls)
  have "rsp_written (gin_apply a r) \<and> rsp_status (gin_apply a r) = rsp_status r \<and> rsp_header (gin_apply a r) = rsp_header r"
    using Cons.prems by (cases a) (simp_all add: uncommitted_def)
  with Cons.IH [of "gin_apply a r"] show ?case by simp
qed simp

lemma respond_append: "respond (xs @ ys) = fold gin_apply ys (respond xs)"
  by (simp add: respond_def)

lemma respond_committed:
  assumes "rsp_written (respond xs)"
  shows "rsp_status (respond (xs @ ys)) = rsp_status (respond xs)" and "rsp_header (respond (xs @ ys)) = rsp_header (respond xs)"
  using fold_gin_committed [OF assms, of ys] by (simp_all add: respond_append)

end
