(* ===== verification/Files_Handler.thy ===== *)
theory Files_Handler
  imports Files_Store Gin_Writer
begin

section \<open>The files handler: \<open>src/pkg/handlers/files/handler.go\<close>\<close>

text \<open>
  Model of the handler behind \<open>/blobs/*url\<close>: it fills the context with the chunk key, opens the file
  in the store and lets \<open>http.ServeContent\<close> of the standard library serve the range that is asked
  for. \<open>ServeContent\<close> is written out with its parsing of range headers and its conditional requests
  (\<open>If-Match\<close>, \<open>If-None-Match\<close>, \<open>If-Modified-Since\<close>, \<open>If-Unmodified-Since\<close>, \<open>If-Range\<close>); left out are the
  \<open>Last-Modified\<close> header, which is the current time, and the layout of a response to several ranges,
  which only a HEAD request can ask for. The client stays connected while the content is copied.
\<close>

subsection \<open>\<open>http.ServeContent\<close>\<close>

datatype range_error = errInvalidRange | errNoOverlap

text \<open>One range specification: an error, no overlap with the content, or start and length.\<close>

definition parse_range_spec :: "int64 \<Rightarrow> string \<Rightarrow> (unit + (int64 \<times> int64) option)" where
  "parse_range_spec sz ra =
     (case Cut ra CHR ''-'' of (start0, end0, ok) \<Rightarrow>
        if \<not> ok then Inl ()
        else
          (let start = TrimString start0; stop = TrimString end0 in
           if start = [] then
             (if stop = [] \<or> hd stop = CHR ''-'' then Inl ()
              else (case ParseInt stop of (i, err) \<Rightarrow>
                if i < 0 \<or> err \<noteq> None then Inl ()
                else (let i = min i sz in Inr (Some (sz - i, sz - (sz - i))))))
           else
             (case ParseInt start of (i, err) \<Rightarrow>
                if err \<noteq> None \<or> i < 0 then Inl ()
                else if i \<ge> sz then Inr None
                else if stop = [] then Inr (Some (i, sz - i))
                else (case ParseInt stop of (j, err') \<Rightarrow>
                  if err' \<noteq> None \<or> i > j then Inl ()
                  else (let j = (if j \<ge> sz then sz - 1 else j) in Inr (Some (i, j - i + 1)))))))"

fun parse_range_specs :: "int64 \<Rightarrow> string list \<Rightarrow> bool \<Rightarrow> (int64 \<times> int64) list \<Rightarrow> range_error + (int64 \<times> int64) list" where
  "parse_range_specs sz [] noOverlap ranges = (if noOverlap \<and> ranges = [] then Inl errNoOverlap else Inr ranges)"
| "parse_range_specs sz (ra0 # ras) noOverlap ranges =
     (let ra = TrimString ra0 in
      if ra = [] then parse_range_specs sz ras noOverlap ranges
      else (case parse_range_spec sz ra of
              Inl _ \<Rightarrow> Inl errInvalidRange
            | Inr None \<Rightarrow> parse_range_specs sz ras True ranges
            | Inr (Some r) \<Rightarrow> parse_range_specs sz ras noOverlap (ranges @ [r])))"

definition parseRange :: "string \<Rightarrow> int64 \<Rightarrow> range_error + (int64 \<times> int64) list" where
  "parseRange s sz =
     (if s = [] then Inr []
      else if \<not> HasPrefix s ''bytes='' then Inl errInvalidRange
      else parse_range_specs sz (Split (drop 6 s) CHR '','') False [])"

definition contentRange :: "int64 \<times> int64 \<Rightarrow> int64 \<Rightarrow> string" where
  "contentRange r sz = ''bytes '' @ FormatInt (fst r) @ ''-'' @ FormatInt (fst r + snd r - 1) @ ''/'' @ FormatInt sz"

definition http_Error :: "string \<Rightarrow> int64 \<Rightarrow> gin_call list" where
  "http_Error msg code = [DelHeader ''Content-Length'', PutHeader ''Content-Type'' ''text/plain; charset=utf-8'',
     PutHeader ''X-Content-Type-Options'' ''nosniff'', SetStatus code, Write (map (\<lambda>c. of_nat (of_char c)) msg @ [10])]"

text \<open>
  Conditional requests. The handler passes \<open>time.Now()\<close> as the time of modification and sets no \<open>Etag\<close>
  header, so that no entity tag of a request matches. \<open>date\<close> is what \<open>http.ParseTime\<close> makes of a date:
  its distance to the current time in whole seconds (negative in the past), or nothing when it is
  malformed.
\<close>

datatype condResult = condNone | condTrue | condFalse

definition etag_char :: "char \<Rightarrow> bool" where
  "etag_char c = (let n = of_char c :: nat in n = 33 \<or> 35 \<le> n \<and> n \<le> 126 \<or> n \<ge> 128)"

definition scanETag :: "string \<Rightarrow> string \<times> string" where
  "scanETag s0 =
     (let s = TrimString s0; start = (if HasPrefix s ''W/'' then 2 else 0); t = drop start s in
      if length t < 2 \<or> hd t \<noteq> CHR 34 then ([], [])
      else (case dropWhile etag_char (tl t) of
              [] \<Rightarrow> ([], [])
            | c # remain \<Rightarrow> if c = CHR 34 then (take start s @ hd t # takeWhile etag_char (tl t) @ [c], remain) else ([], [])))"

lemma length_TrimString: "length (TrimString s) \<le> length s"
  unfolding TrimString_def using length_dropWhile_le [of is_ows "rev (dropWhile is_ows s)"] length_dropWhile_le [of is_ows s] by simp

lemma scanETag_shorter: "scanETag s = (etag, remain) \<Longrightarrow> etag \<noteq> [] \<Longrightarrow> length remain < length s"
proof -
  assume run: "scanETag s = (etag, remain)" and "etag \<noteq> []"
  let ?t = "tl (drop (if HasPrefix (TrimString s) ''W/'' then 2 else 0) (TrimString s))"
  obtain c where "dropWhile etag_char ?t = c # remain"
    using run \<open>etag \<noteq> []\<close> by (auto simp: scanETag_def Let_def split: if_splits list.splits)
  then have "Suc (length remain) \<le> length ?t" using length_dropWhile_le [of etag_char ?t] by simp
  then show ?thesis using length_TrimString [of s] by simp
qed

text \<open>A list of entity tags with a \<open>*\<close> in it, before anything that is malformed.\<close>

function has_star :: "string \<Rightarrow> bool" where
  "has_star im0 =
     (let im = TrimString im0 in
      if im = [] then False
      else if hd im = CHR '','' then has_star (tl im)
      else if hd im = CHR ''*'' then True
      else (case scanETag im of (etag, remain) \<Rightarrow> if etag = [] then False else has_star remain))"
  by pat_completeness auto
termination
proof (relation "measure length", goal_cases)
  case (2 im0 im)
  then have "0 < length im" "length im \<le> length im0" using length_TrimString [of im0] by simp_all
  then have "length im - 1 < length im0" by linarith
  then show ?case by simp
next
  case (3 im0 im etag remain)
  then show ?case using scanETag_shorter [of im etag remain] length_TrimString [of im0] by simp
qed simp

declare has_star.simps [simp del]

definition checkIfMatch :: "Header \<Rightarrow> condResult" where
  "checkIfMatch h = (let im = Header_Get h ''If-Match'' in
     if im = [] then condNone else if has_star im then condTrue else condFalse)"

definition checkIfUnmodifiedSince :: "(string \<Rightarrow> int option) \<Rightarrow> Header \<Rightarrow> condResult" where
  "checkIfUnmodifiedSince date h = (let ius = Header_Get h ''If-Unmodified-Since'' in
     if ius = [] then condNone
     else case date ius of None \<Rightarrow> condNone | Some t \<Rightarrow> if 0 \<le> t then condTrue else condFalse)"

definition checkIfNoneMatch :: "Header \<Rightarrow> condResult" where
  "checkIfNoneMatch h = (let inm = Header_Get h ''If-None-Match'' in
     if inm = [] then condNone else if has_star inm then condFalse else condTrue)"

definition checkIfModifiedSince :: "(string \<Rightarrow> int option) \<Rightarrow> string \<Rightarrow> Header \<Rightarrow> condResult" where
  "checkIfModifiedSince date mth h = (let ims = Header_Get h ''If-Modified-Since'' in
     if mth \<noteq> ''GET'' \<and> mth \<noteq> ''HEAD'' then condNone
     else if ims = [] then condNone
     else case date ims of None \<Rightarrow> condNone | Some t \<Rightarrow> if 0 \<le> t then condFalse else condTrue)"

definition checkIfRange :: "(string \<Rightarrow> int option) \<Rightarrow> string \<Rightarrow> Header \<Rightarrow> condResult" where
  "checkIfRange date mth h = (let ir = Header_Get h ''If-Range'' in
     if mth \<noteq> ''GET'' \<and> mth \<noteq> ''HEAD'' then condNone
     else if ir = [] then condNone
     else if fst (scanETag ir) \<noteq> [] then condFalse
     else if date ir = Some 0 then condTrue else condFalse)"

definition writeNotModified :: "gin_call list" where
  "writeNotModified = [DelHeader ''Content-Type'', DelHeader ''Content-Length'', DelHeader ''Content-Encoding'', SetStatus 304]"

text \<open>The calls that answer the request, or the range header that is left to serve.\<close>

definition checkPreconditions :: "(string \<Rightarrow> int option) \<Rightarrow> string \<Rightarrow> Header \<Rightarrow> gin_call list + string" where
  "checkPreconditions date mth h =
     (let ch = (if checkIfMatch h = condNone then checkIfUnmodifiedSince date h else checkIfMatch h);
          rangeHeader = Header_Get h ''Range''
      in if ch = condFalse then Inl [SetStatus 412]
         else if checkIfNoneMatch h = condFalse
         then Inl (if mth = ''GET'' \<or> mth = ''HEAD'' then writeNotModified else [SetStatus 412])
         else if checkIfNoneMatch h = condNone \<and> checkIfModifiedSince date mth h = condFalse then Inl writeNotModified
         else Inr (if rangeHeader \<noteq> [] \<and> checkIfRange date mth h = condFalse then [] else rangeHeader))"

text \<open>
  The calls, and the part of the content to copy (start and length), if any. The size is the position
  that seeking to the end reports.
\<close>

definition serve_plan :: "string \<Rightarrow> string \<Rightarrow> int64 \<Rightarrow> gin_call list \<times> (int64 \<times> int64) option" where
  "serve_plan method rangeReq sz =
     (let send = (\<lambda>code r headers.
            (headers @ [PutHeader ''Accept-Ranges'' ''bytes'', PutHeader ''Content-Length'' (FormatInt (snd r)), SetStatus code],
             if method = ''HEAD'' then None else Some r))
      in if sz < 0 then (http_Error ''negative content size computed'' 500, None)
         else case parseRange rangeReq sz of
           Inl errInvalidRange \<Rightarrow> (http_Error ''invalid range'' 416, None)
         | Inl errNoOverlap \<Rightarrow>
             if sz = 0 then send 200 (0, sz) []
             else (PutHeader ''Content-Range'' (''bytes */'' @ FormatInt sz) # http_Error ''invalid range: failed to overlap'' 416, None)
         | Inr ranges \<Rightarrow>
             (case (if sum_list (map snd ranges) > sz then [] else ranges) of
                [] \<Rightarrow> send 200 (0, sz) []
              | [r] \<Rightarrow> send 206 r [PutHeader ''Content-Range'' (contentRange r sz)]
              | _ \<Rightarrow> ([PutHeader ''Accept-Ranges'' ''bytes'', SetStatus 206], None)))"

definition ServeContent :: "(string \<Rightarrow> int option) \<Rightarrow> nat \<Rightarrow> ('c, 'w) Cache \<Rightarrow> string \<Rightarrow> Header \<Rightarrow> 'w storeFile \<Rightarrow> 'c \<Rightarrow> 'w \<Rightarrow>
    (gin_call list \<times> 'c \<times> 'w) outcome option" where
  "ServeContent date fuel ops mth h f c w =
     (let ((sz, _), f1) = Seek f 0 2;
          (_, f2) = Seek f1 0 0
      in case checkPreconditions date mth h of
           Inl calls \<Rightarrow> Some (Ret (calls, c, w))
         | Inr rangeReq \<Rightarrow>
             (case serve_plan mth rangeReq sz of
                (calls, None) \<Rightarrow> Some (Ret (calls, c, w))
              | (calls, Some (start, n)) \<Rightarrow>
                  map_option (\<lambda>m. obind m (\<lambda>((out, err), f', c', w').
                      Ret (calls @ (if out = [] then [] else [Write out]), c', w')))
                    (serve_range fuel ops f2 start n c w)))"

subsection \<open>The handler\<close>

definition fill_files :: "('c, 'w) store \<Rightarrow> Context \<Rightarrow> (go_error option \<times> Context) outcome" where
  "fill_files s c0 =
     (let c = ctx_Set ''handler'' (CtxString ''files'') c0 in
      obind (Key s c) (\<lambda>(key, d, err).
        case err of
          Some e \<Rightarrow> Ret (Some e, c)
        | None \<Rightarrow>
            Ret (None, ctx_Set BlobRangeCtxKey (CtxString (Header_Get (req_Header (ctx_Request c)) ''Range''))
              (ctx_Set BlobUrlCtxKey (CtxString (BlobUrl c))
                (ctx_Set FileChunkCtxKey (CtxString key) (ctx_Set DigestCtxKey (CtxString d) c))))))"

definition files_headers :: "string \<Rightarrow> Context \<Rightarrow> gin_call list" where
  "files_headers NodeName c =
     [PutHeader ''Content-Type'' ''application/octet-stream'', DelHeader ''Content-Length'', PutHeader NodeHeaderKey NodeName,
      PutHeader CorrelationHeaderKey (GetString c CorrelationIdCtxKey)]"

text \<open>The calls, the prefetch that \<open>Open\<close> starts, the cache and the world after the request.\<close>

definition Handle_files :: "(string \<Rightarrow> int option) \<Rightarrow> nat \<Rightarrow> string \<Rightarrow> ('c, 'w) store \<Rightarrow> Context \<Rightarrow> 'c \<Rightarrow> 'w \<Rightarrow>
    (gin_call list \<times> ('w storeFile \<times> int64 \<times> int64) option \<times> 'c \<times> 'w) outcome option" where
  "Handle_files date fuel NodeName s c cs w =
     (let finish = mt_RecordRequest (st_metricsRecorder s) (req_Method (ctx_Request c)) ''files'' in
      case fill_files s c of
        Panic p \<Rightarrow> Some (Panic p)
      | Blocked \<Rightarrow> Some Blocked
      | Ret (Some e, c') \<Rightarrow> Some (Ret ([AbortWithError 400 e], None, cs, finish w))
      | Ret (None, c') \<Rightarrow>
          (case Open s c' cs w of
             Panic p \<Rightarrow> Some (Panic p)
           | Blocked \<Rightarrow> Some Blocked
           | Ret ((f, Some e), job, cs1, w1) \<Rightarrow>
               Some (Ret (if e = ErrNotExist then [AbortWithStatus 404] else [AbortWithError 500 e], job, cs1, finish w1))
           | Ret ((None, None), job, cs1, w1) \<Rightarrow> Some (Panic NilDeref)
           | Ret ((Some f, None), job, cs1, w1) \<Rightarrow>
               map_option (\<lambda>m. obind m (\<lambda>(calls, cs2, w2). Ret (files_headers NodeName c' @ calls, job, cs2, finish w2)))
                 (ServeContent date fuel (st_cache s) (req_Method (ctx_Request c')) (req_Header (ctx_Request c')) f cs1 w1)))"

subsection \<open>Range headers\<close>

lemma TrimString_id: "(\<And>c. c \<in> set s \<Longrightarrow> \<not> is_ows c) \<Longrightarrow> TrimString s = s"
proof -
  have *: "dropWhile is_ows x = x" if "\<And>c. c \<in> set x \<Longrightarrow> \<not> is_ows c" for x using that by (cases x) auto
  assume "\<And>c. c \<in> set s \<Longrightarrow> \<not> is_ows c"
  then show ?thesis using * [of s] * [of "rev s"] by (simp add: TrimString_def)
qed

lemma TrimString_digits: "list_all is_digit s \<Longrightarrow> TrimString s = s"
  by (rule TrimString_id) (auto simp: list_all_iff is_digit_def is_ows_def)

lemma FormatInt_digits: "0 \<le> x \<Longrightarrow> list_all is_digit (FormatInt x)"
  using FormatInt_nonneg_chars by (simp add: list_all_iff)

lemma FormatInt_ne: "FormatInt x \<noteq> []"
  by (simp add: FormatInt_def format_nat.simps [of "nat x"])

text \<open>The range that is served for a request of the bytes from \<open>start\<close> to \<open>stop\<close>, both inclusive.\<close>

lemma parseRange_range_header:
  assumes "0 \<le> start" and "start \<le> stop" and "in_int64 stop" and "start < sz"
  shows "parseRange (range_header start stop) sz = Inr [(start, min stop (sz - 1) - start + 1)]"
proof -
  let ?ra = "FormatInt start @ ''-'' @ FormatInt stop"
  have i: "in_int64 start" using assms(1-3) by (auto intro: in_int64_nonneg_le)
  have d: "list_all is_digit (FormatInt start)" "list_all is_digit (FormatInt stop)" using assms(1,2) by (simp_all add: FormatInt_digits)
  have sep: "\<not> is_digit CHR '',''" "\<not> is_digit CHR ''-''" "\<not> is_ows CHR ''-''" by (simp_all add: is_digit_def is_ows_def)
  have comma: "CHR '','' \<notin> set ?ra" and dash: "CHR ''-'' \<notin> set (FormatInt start)" using d sep by (auto simp: list_all_iff)
  have no_ows: "\<not> is_ows c" if "c \<in> set ?ra" for c
    using that d sep by (auto simp: list_all_iff is_digit_def is_ows_def)
  have trim: "TrimString ?ra = ?ra" by (rule TrimString_id [OF no_ows])
  have cut: "Cut ?ra CHR ''-'' = (FormatInt start, FormatInt stop, True)" using Cut_first [OF dash] by simp
  have p: "ParseInt (FormatInt start) = (start, None)" "ParseInt (FormatInt stop) = (stop, None)"
    using ParseInt_FormatInt [OF i] ParseInt_FormatInt [OF assms(3)] by simp_all
  have spec: "parse_range_spec sz ?ra = Inr (Some (start, min stop (sz - 1) - start + 1))"
    unfolding parse_range_spec_def cut using assms d p by (simp add: TrimString_digits FormatInt_ne Let_def)
  have split: "Split ?ra CHR '','' = [?ra]" using comma by (rule Split_no_sep)
  have "drop 6 (range_header start stop) = ?ra" "HasPrefix (range_header start stop) ''bytes=''" "range_header start stop \<noteq> []"
    by (simp_all add: range_header_def HasPrefix_def)
  then show ?thesis using trim spec split by (simp add: parseRange_def FormatInt_ne del: append.simps)
qed

subsection \<open>Requests without conditions\<close>

definition conditions :: "string list" where
  "conditions = [''If-Match'', ''If-Unmodified-Since'', ''If-None-Match'', ''If-Modified-Since'', ''If-Range'']"

definition unconditional :: "Header \<Rightarrow> bool" where
  "unconditional h \<longleftrightarrow> list_all (\<lambda>(k, v). k \<notin> set conditions) h"

lemma unconditional_Get:
  assumes "unconditional h" and "k \<in> set conditions"
  shows "Header_Get h k = []"
proof -
  have "list_all (\<lambda>k. CanonicalHeaderKey k = k) conditions" by code_simp
  then have "CanonicalHeaderKey k = k" using assms(2) by (simp add: list_all_iff)
  moreover have "map_of h k = None" using assms by (fastforce simp: unconditional_def list_all_iff map_of_eq_None_iff)
  ultimately show ?thesis by (simp add: Header_Get_def)
qed

lemma checkPreconditions_unconditional:
  assumes "unconditional h"
  shows "checkPreconditions date mth h = Inr (Header_Get h ''Range'')"
  using unconditional_Get [OF assms]
  by (simp add: checkPreconditions_def checkIfMatch_def checkIfUnmodifiedSince_def checkIfNoneMatch_def checkIfModifiedSince_def
      checkIfRange_def conditions_def)

lemma unconditional_update: "unconditional h \<Longrightarrow> k \<notin> set conditions \<Longrightarrow> unconditional (AList.update k v h)"
  by (induction h) (auto simp: unconditional_def)

lemma unconditional_copy: "unconditional src \<Longrightarrow> unconditional dst \<Longrightarrow> unconditional (copy_Header src dst)"
proof (induction src arbitrary: dst)
  case (Cons e src)
  obtain k v where e: "e = (k, v)" by (cases e)
  then have "unconditional (AList.update k v dst)" using Cons.prems by (intro unconditional_update) (auto simp: unconditional_def)
  then show ?case using Cons.IH [of "AList.update k v dst"] Cons.prems(1) e by (simp add: copy_Header_def unconditional_def)
qed (simp add: copy_Header_def)

text \<open>The requests of a reader carry the conditions of the request that it serves, and no others.\<close>

lemma remoteRequest_unconditional:
  assumes "remoteRequest r u start stop = Inr req" and "unconditional (req_Header (ctx_Request (rd_context r)))"
  shows "unconditional (hr_Header req)"
proof -
  obtain h where h: "hr_Header req = SetOutboundHeaders (rd_nodeName r) (rd_context r) (Header_Set ''Range'' (range_header start stop)
      (copy_Header (req_Header (ctx_Request (rd_context r))) []))"
    using assms(1) by (auto simp: remoteRequest_def http_NewRequest_def Let_def split: sum.splits)
  have "list_all (\<lambda>k. CanonicalHeaderKey k \<notin> set conditions) [''Range'', P2PHeaderKey, CorrelationHeaderKey, NodeHeaderKey]" by code_simp
  then show ?thesis unfolding h using unconditional_copy [OF assms(2), of "[]"]
    by (auto simp: SetOutboundHeaders_def Header_Set_def Let_def unconditional_def [of "[]"] intro!: unconditional_update)
qed

subsection \<open>What a client of a range receives\<close>

lemma BlobUrl_ctx_Set [simp]: "BlobUrl (ctx_Set k v c) = BlobUrl c"
  by (simp add: BlobUrl_def Param_def)

lemma fill_files_range:
  assumes "req_Method (ctx_Request c) = ''GET''" and "Header_Get (req_Header (ctx_Request c)) ''Range'' = range_header start stop"
    and "0 \<le> start" and "start \<le> stop" and "in_int64 stop" and "st_parser s (BlobUrl c) = Inr d"
  obtains c' where "fill_files s c = Ret (None, c')" and "ctx_Request c' = ctx_Request c" and "ctx_Params c' = ctx_Params c"
    and "GetString c' FileChunkCtxKey = d @ ''_'' @ FormatInt (start div CacheBlockSize * CacheBlockSize)"
    and "GetString c' BlobUrlCtxKey = BlobUrl c"
proof -
  have i: "in_int64 start" using assms(3-5) by (auto intro: in_int64_nonneg_le)
  have st: "RangeStartIndex (range_header start stop) = Inr start"
    using assms(3,4) by (intro RangeStartIndex_range_header [OF i]) auto
  let ?c = "ctx_Set ''handler'' (CtxString ''files'') c"
  have key: "Key s ?c = Ret (d @ ''_'' @ FormatInt (start div CacheBlockSize * CacheBlockSize), d, None)"
    using assms(1,2,6) st FileChunkKey_nonneg [OF i assms(3)] by (simp add: Key_def)
  let ?c' = "ctx_Set BlobRangeCtxKey (CtxString (Header_Get (req_Header (ctx_Request ?c)) ''Range''))
      (ctx_Set BlobUrlCtxKey (CtxString (BlobUrl ?c))
        (ctx_Set FileChunkCtxKey (CtxString (d @ ''_'' @ FormatInt (start div CacheBlockSize * CacheBlockSize)))
          (ctx_Set DigestCtxKey (CtxString d) ?c)))"
  show ?thesis
  proof (rule that [of ?c'])
    show "fill_files s c = Ret (None, ?c')" unfolding fill_files_def Let_def key by simp
  qed (simp_all add: GetString_Set ctx_key_defs)
qed

lemma Fstat_size: "Fstat ops f c w = Ret ((n, None), f', c', w') \<Longrightarrow> fl_size f' = n"
  by (auto simp: Fstat_def split: prod.splits bool.splits if_splits option.splits)

lemma serve_plan_range:
  assumes "0 \<le> start" and "start \<le> stop" and "in_int64 stop" and "start < sz"
  shows "serve_plan ''GET'' (range_header start stop) sz =
    ([PutHeader ''Content-Range'' (contentRange (start, min stop (sz - 1) - start + 1) sz), PutHeader ''Accept-Ranges'' ''bytes'',
      PutHeader ''Content-Length'' (FormatInt (min stop (sz - 1) - start + 1)), SetStatus 206], Some (start, min stop (sz - 1) - start + 1))"
  using assms by (simp add: serve_plan_def parseRange_range_header Let_def)

definition range_length :: "int64 \<Rightarrow> int64 \<Rightarrow> int64 \<Rightarrow> int64" where
  "range_length start stop sz = min stop (sz - 1) - start + 1"

text \<open>A response to a request for a range of content \<open>d\<close>: the range, as far as there is content, or an error.\<close>

definition range_answer :: "bytes \<Rightarrow> int64 \<Rightarrow> int64 \<Rightarrow> Response \<Rightarrow> bool" where
  "range_answer d start stop r \<longleftrightarrow>
     (let n = range_length start stop (int (length d)) in
      rsp_status r = 206
      \<and> Header_Get (rsp_header r) ''Content-Length'' = FormatInt n
      \<and> Header_Get (rsp_header r) ''Content-Range'' = contentRange (start, n) (int (length d))
      \<and> (\<exists>m. rsp_body r = take m (slice d start (nat n))))"

lemma files_header_names:
  "CanonicalHeaderKey ''Content-Type'' = ''Content-Type''" "CanonicalHeaderKey ''Content-Length'' = ''Content-Length''"
  "CanonicalHeaderKey ''Content-Range'' = ''Content-Range''" "CanonicalHeaderKey ''Accept-Ranges'' = ''Accept-Ranges''"
  by code_simp+

lemma Header_Get_Del: "Header_Get (Header_Del k h) k' = (if CanonicalHeaderKey k' = CanonicalHeaderKey k then [] else Header_Get h k')"
  by (simp add: Header_Get_def Header_Del_def delete_conv')

lemma range_calls_answer:
  assumes "out = take m (slice d start (nat (range_length start stop (int (length d)))))"
  shows "range_answer d start stop (respond (files_headers NodeName c @
      [PutHeader ''Content-Range'' (contentRange (start, range_length start stop (int (length d))) (int (length d))), PutHeader ''Accept-Ranges'' ''bytes'',
       PutHeader ''Content-Length'' (FormatInt (range_length start stop (int (length d)))), SetStatus 206] @ (if out = [] then [] else [Write out])))"
  using assms
  by (auto simp: range_answer_def respond_defs files_headers_def Header_Get_Set Header_Get_Del files_header_names header_keys_canonical
      FormatInt_ne contentRange_def Let_def)

context chunk_cache
begin

lemma ServeContent_range:
  assumes "inv (\<lambda>n. chunk_of (D n)) (sizes_of D) c" and "file_of D f" and "fl_size f = int (length (D (fl_Name f)))"
    and "0 \<le> start" and "start \<le> stop" and "in_int64 stop" and "start < int (length (D (fl_Name f)))"
    and "ServeContent date fuel ops ''GET'' h f c w = Some (Ret (calls, c', w'))"
    and "unconditional h" and "Header_Get h ''Range'' = range_header start stop"
  shows "inv (\<lambda>n. chunk_of (D n)) (sizes_of D) c' \<and> range_answer (D (fl_Name f)) start stop (respond (files_headers NodeName ctx @ calls))"
proof -
  let ?d = "D (fl_Name f)" let ?sz = "int (length ?d)"
  let ?n = "range_length start stop ?sz"
  let ?f = "f\<lparr>fl_cur := start\<rparr>"
  obtain out err f' where run: "copy_loop fuel ops ?f ?n [] c w = Some (Ret ((out, err), f', c', w'))"
    and calls: "calls = [PutHeader ''Content-Range'' (contentRange (start, ?n) ?sz), PutHeader ''Accept-Ranges'' ''bytes'',
       PutHeader ''Content-Length'' (FormatInt ?n), SetStatus 206] @ (if out = [] then [] else [Write out])"
    using assms(8) serve_plan_range [OF assms(4-7)] assms(3,10) checkPreconditions_unconditional [OF assms(9), of date "''GET''"]
    by (auto simp: ServeContent_def Seek_def serve_range_def range_length_def Let_def obind_Ret_iff)
  have f: "file_of D ?f" using assms(2) by (simp add: file_of_def)
  have fit: "start + ?n \<le> ?sz" unfolding range_length_def by linarith
  have "inv (\<lambda>n. chunk_of (D n)) (sizes_of D) c' \<and> (\<exists>m. out = take m (slice ?d start (nat ?n)))"
    using copy_loop_ok [OF assms(1) f, of ?d ?n fuel "[]" w out err f' c' w'] run assms(4) fit by auto
  then show ?thesis unfolding calls using range_calls_answer by blast
qed

end

subsection \<open>The handler over the file cache\<close>

lemma Open_serves:
  assumes "state_ok (\<lambda>n. chunk_of (D n)) (sizes_of D) cs" and "st_cache s = fileCache_ops"
    and "GetString c FileChunkCtxKey = d @ ''_'' @ FormatInt x" and "0 \<le> x" and "CHR ''_'' \<notin> set d" and "plain_seg d"
    and "honest (NewReader (st_nodeName s) c (st_router s) (st_resolveRetries s) (st_resolveTimeout s) (st_metricsRecorder s)) (D d)"
    and "Open s c cs w = Ret ((f, err), job, cs', w')"
  shows "state_ok (\<lambda>n. chunk_of (D n)) (sizes_of D) cs'
    \<and> (err = None \<longrightarrow> (\<exists>g. f = Some g \<and> file_of D g \<and> fl_Name g = d \<and> fl_size g = int (length (D d))))"
proof -
  have "CHR ''_'' \<notin> set (FormatInt x)"
    using FormatInt_digits [OF assms(4)] by (auto simp: list_all_iff is_digit_def)
  then have tok: "Split (GetString c FileChunkCtxKey) FileChunkKeySep = [d, FormatInt x]"
    using assms(3,5) Split_append [of "CHR ''_''" d "FormatInt x"] by (simp add: FileChunkKeySep_def Split_no_sep)
  obtain ok cs1 where ex: "(if IsRequestFromAPeer c then cm_Exists (st_cache s) d (fst (ParseInt (FormatInt x))) cs else (True, cs)) = (ok, cs1)"
    by (metis prod.exhaust)
  have ok1: "state_ok (\<lambda>n. chunk_of (D n)) (sizes_of D) cs1" using ex assms(1,2) fc.exists_inv by (auto split: if_splits)
  have len: "in_int64 (int (length (D d)))" using originD(1) [OF honest_origin [OF assms(7)]] .
  have f: "file_of D (open_file s c d a)" for a
    using reader_file_reader [OF assms(7)] assms(6) len by (simp add: file_of_def open_file_def)
  have name: "fl_Name (open_file s c d a) = d" for a by (simp add: open_file_def)
  show ?thesis
  proof (cases ok)
    case False
    then show ?thesis using assms(8) ex ok1 by (auto simp: Open_def tok)
  next
    case True
    let ?f = "open_file s c d (fst (ParseInt (FormatInt x)))"
    obtain n g cs2 w2 where st: "Fstat fileCache_ops ?f cs1 w = Ret ((n, err), g, cs2, w2)" and r: "f = Some g" "cs' = cs2"
      using assms(2,8) ex True by (auto simp: Open_def tok obind_Ret_iff)
    note fs = fc.Fstat_ok [OF ok1 f st]
    have "file_of D g" "fl_Name g = d" using fs f [of "fst (ParseInt (FormatInt x))"] name by (auto simp: same_file_def file_of_def)
    moreover have "err = None \<Longrightarrow> fl_size g = int (length (D d))" using Fstat_size [of _ ?f cs1 w n g] st fs name by simp
    ultimately show ?thesis using fs r by simp
  qed
qed

lemma Handle_files_range:
  assumes "state_ok (\<lambda>n. chunk_of (D n)) (sizes_of D) cs" and "st_cache s = fileCache_ops"
    and "req_Method (ctx_Request c) = ''GET''" and "Header_Get (req_Header (ctx_Request c)) ''Range'' = range_header start stop"
    and "0 \<le> start" and "start \<le> stop" and "in_int64 stop" and "st_parser s (BlobUrl c) = Inr d"
    and "CHR ''_'' \<notin> set d" and "plain_seg d" and "start < int (length (D d))"
    and honest: "\<And>c'. ctx_Request c' = ctx_Request c \<Longrightarrow> ctx_Params c' = ctx_Params c \<Longrightarrow> GetString c' BlobUrlCtxKey = BlobUrl c \<Longrightarrow>
      honest (NewReader (st_nodeName s) c' (st_router s) (st_resolveRetries s) (st_resolveTimeout s) (st_metricsRecorder s)) (D d)"
    and run: "Handle_files date fuel NodeName s c cs w = Some (Ret (calls, job, cs', w'))"
    and uncond: "unconditional (req_Header (ctx_Request c))"
  shows "state_ok (\<lambda>n. chunk_of (D n)) (sizes_of D) cs' \<and>
    (range_answer (D d) start stop (respond calls) \<or> rsp_status (respond calls) \<in> {404, 500} \<and> rsp_body (respond calls) = [])"
proof -
  let ?x = "start div CacheBlockSize * CacheBlockSize"
  obtain c' where c': "fill_files s c = Ret (None, c')" "ctx_Request c' = ctx_Request c" "ctx_Params c' = ctx_Params c"
      "GetString c' FileChunkCtxKey = d @ ''_'' @ FormatInt ?x" "GetString c' BlobUrlCtxKey = BlobUrl c"
    by (rule fill_files_range [OF assms(3-8)])
  have x: "0 \<le> ?x" using assms(5) by (simp add: CacheBlockSize_def)
  obtain f err job1 cs1 w1 where op: "Open s c' cs w = Ret ((f, err), job1, cs1, w1)"
    using run c'(1) by (cases "Open s c' cs w") (auto simp: Handle_files_def)
  note opened = Open_serves [OF assms(1,2) c'(4) x assms(9,10) honest [OF c'(2,3,5)] op]
  show ?thesis
  proof (cases err)
    case (Some e)
    then have "calls = (if e = ErrNotExist then [AbortWithStatus 404] else [AbortWithError 500 e])" "cs' = cs1"
      using run c'(1) op by (auto simp: Handle_files_def Let_def split: option.splits)
    then show ?thesis using opened by (auto simp: respond_defs)
  next
    case None
    then obtain g where g: "f = Some g" "file_of D g" "fl_Name g = d" "fl_size g = int (length (D d))" using opened by auto
    obtain calls' w2 where sc: "ServeContent date fuel fileCache_ops ''GET'' (req_Header (ctx_Request c)) g cs1 w1 = Some (Ret (calls', cs', w2))"
      and calls: "calls = files_headers NodeName c' @ calls'"
      using run c'(1,2) op None g(1) assms(2-4) by (auto simp: Handle_files_def Let_def obind_Ret_iff)
    have "state_ok (\<lambda>n. chunk_of (D n)) (sizes_of D) cs' \<and> range_answer (D (fl_Name g)) start stop (respond (files_headers NodeName c' @ calls'))"
      by (rule fc.ServeContent_range [OF _ g(2) _ assms(5-7) _ sc uncond assms(4)]) (use opened g assms(11) in auto)
    then show ?thesis unfolding calls g(3) by blast
  qed
qed

end
