(* ===== verification/Go_Regexp.thy ===== *)
theory Go_Regexp
  imports Go_Strings "HOL-Library.Sublist"
begin

section \<open>Regular expressions: what the code uses of \<open>regexp\<close>\<close>

text \<open>
  Go's \<open>regexp\<close> reports, of all matches of an expression, the leftmost one and among these the one
  that a backtracking search would find first (greedy repetitions). The model is this search: \<open>ms\<close>
  lists the matches at the beginning of a string in the order of the search, each as the rest of
  the string and the captured groups, and \<open>FindStringSubmatch\<close> takes the first one of the first
  position that has any. An iteration of a star that consumes nothing is not repeated.
\<close>

type_synonym captures = "(nat \<times> string) list"

datatype re =
    Eps
  | Cls "char \<Rightarrow> bool"
  | Seq re re
  | Alt re re
  | Star re
  | Grp nat re
  | EndText

function (sequential) ms :: "re \<Rightarrow> captures \<Rightarrow> string \<Rightarrow> (string \<times> captures) list" where
  "ms Eps cs s = [(s, cs)]"
| "ms (Cls P) cs [] = []"
| "ms (Cls P) cs (c # s) = (if P c then [(s, cs)] else [])"
| "ms (Seq a b) cs s = concat (map (\<lambda>(t, ds). ms b ds t) (ms a cs s))"
| "ms (Alt a b) cs s = ms a cs s @ ms b cs s"
| "ms (Star a) cs s = concat (map (\<lambda>(t, ds). if length t < length s then ms (Star a) ds t else []) (ms a cs s)) @ [(s, cs)]"
| "ms (Grp n a) cs s = map (\<lambda>(t, ds). (t, (n, take (length s - length t) s) # ds)) (ms a cs s)"
| "ms EndText cs s = (if s = [] then [(s, cs)] else [])"
  by pat_completeness auto
termination by (relation "measures [\<lambda>(r, cs, s). size r, \<lambda>(r, cs, s). length s]") auto

fun find_match :: "re \<Rightarrow> string \<Rightarrow> (string \<times> captures) option" where
  "find_match r s =
     (case ms r [] s of
        (t, cs) # _ \<Rightarrow> Some (take (length s - length t) s, cs)
      | [] \<Rightarrow> (case s of [] \<Rightarrow> None | _ # s' \<Rightarrow> find_match r s'))"

definition capture :: "captures \<Rightarrow> nat \<Rightarrow> string" where
  "capture cs n = (case map_of cs n of Some x \<Rightarrow> x | None \<Rightarrow> [])"

text \<open>The match and its groups \<open>1, ..., k\<close>; no match is the empty (nil) slice.\<close>

definition FindStringSubmatch :: "nat \<Rightarrow> re \<Rightarrow> string \<Rightarrow> string list" where
  "FindStringSubmatch k r s =
     (case find_match r s of None \<Rightarrow> [] | Some (m, cs) \<Rightarrow> m # map (capture cs) [1 ..< Suc k])"

declare find_match.simps [simp del] ms.simps(6) [simp del]

subsection \<open>Derived forms\<close>

fun Lit :: "string \<Rightarrow> re" where
  "Lit [] = Eps"
| "Lit (c # s) = Seq (Cls (\<lambda>x. x = c)) (Lit s)"

definition Plus :: "re \<Rightarrow> re" where "Plus r = Seq r (Star r)"
definition Opt :: "re \<Rightarrow> re" where "Opt r = Alt r Eps"
definition Dot :: re where "Dot = Cls (\<lambda>c. of_char c \<noteq> (10::nat))"

fun Rep :: "nat \<Rightarrow> re \<Rightarrow> re" where
  "Rep 0 r = Eps"
| "Rep (Suc n) r = Seq r (Rep n r)"

fun RepUpTo :: "nat \<Rightarrow> re \<Rightarrow> re" where
  "RepUpTo 0 r = Eps"
| "RepUpTo (Suc n) r = Opt (Seq r (RepUpTo n r))"

subsection \<open>Matching without the groups\<close>

text \<open>The rests after the matches do not depend on what was captured before.\<close>

definition rests :: "re \<Rightarrow> string \<Rightarrow> string set" where
  "rests r s = fst ` set (ms r [] s)"

lemma map_fst_concat_cong:
  assumes "map fst xs = map fst ys" and "\<And>t d e. (t, d) \<in> set xs \<Longrightarrow> map fst (f t d) = map fst (f t e)"
  shows "map fst (concat (map (\<lambda>(t, d). f t d) xs)) = map fst (concat (map (\<lambda>(t, d). f t d) ys))"
  using assms
proof (induction xs arbitrary: ys)
  case (Cons x xs)
  then obtain y ys' where ys: "ys = y # ys'" "fst x = fst y" "map fst xs = map fst ys'" by auto
  have "map fst (f (fst x) (snd x)) = map fst (f (fst x) (snd y))" using Cons.prems(2) [of "fst x" "snd x"] by simp
  then show ?case using Cons.IH [OF ys(3)] Cons.prems(2) ys by (simp add: split_beta)
qed simp

lemma ms_captures: "map fst (ms r cs s) = map fst (ms r ds s)"
proof (induction r cs s arbitrary: ds rule: ms.induct)
  case (4 a b cs s)
  show ?case unfolding ms.simps by (rule map_fst_concat_cong [OF 4(1)]) (rule 4(2); simp)
next
  case (6 a cs s)
  have "map fst (concat (map (\<lambda>(t, ds). if length t < length s then ms (Star a) ds t else []) (ms a cs s))) =
      map fst (concat (map (\<lambda>(t, ds). if length t < length s then ms (Star a) ds t else []) (ms a ds s)))"
  proof (rule map_fst_concat_cong [OF 6(1)])
    fix t d e
    assume "(t, d) \<in> set (ms a cs s)"
    then show "map fst (if length t < length s then ms (Star a) d t else []) = map fst (if length t < length s then ms (Star a) e t else [])"
      using 6(2) [of "(t, d)" t d e] by simp
  qed
  then show ?case unfolding ms.simps(6) [of a cs s] ms.simps(6) [of a ds s] by simp
next
  case (7 n a cs s)
  have "fst \<circ> (\<lambda>(t :: string, ds :: captures). (t, (n, take (length s - length t) s) # ds)) = fst" by (simp add: fun_eq_iff split_beta)
  then show ?case using 7 [of ds] by simp
next
  case (5 a b cs s)
  show ?case using 5(1) [of ds] 5(2) [of ds] by simp
qed simp_all

lemma rests_captures: "fst ` set (ms r cs s) = rests r s"
  unfolding rests_def using ms_captures [of r cs s "[]"] by (metis list.set_map)

lemma in_rests_iff: "t \<in> rests r s \<longleftrightarrow> (\<exists>ds. (t, ds) \<in> set (ms r cs s))"
  unfolding rests_captures [of r cs s, symmetric] by force

lemma rests_simps [simp]:
  "rests Eps s = {s}"
  "rests (Alt a b) s = rests a s \<union> rests b s"
  "rests (Grp n a) s = rests a s"
  "rests EndText s = (if s = [] then {[]} else {})"
  "rests (Cls P) [] = {}"
  "rests (Cls P) (c # s) = (if P c then {s} else {})"
  by (auto simp: rests_def image_Un image_image split_beta)

lemma rests_Seq [simp]: "rests (Seq a b) s = (\<Union>u \<in> rests a s. rests b u)"
proof -
  have "t \<in> rests (Seq a b) s \<longleftrightarrow> (\<exists>u ds. (u, ds) \<in> set (ms a [] s) \<and> (\<exists>es. (t, es) \<in> set (ms b ds u)))" for t
    unfolding in_rests_iff [of t _ _ "[]"] by auto
  then show ?thesis by (auto simp: in_rests_iff [symmetric] simp flip: in_rests_iff [where cs = "[]"])
qed

lemma rests_StarI:
  "s \<in> rests (Star a) s"
  "u \<in> rests a s \<Longrightarrow> length u < length s \<Longrightarrow> t \<in> rests (Star a) u \<Longrightarrow> t \<in> rests (Star a) s"
proof -
  show "s \<in> rests (Star a) s" by (force simp: rests_def ms.simps(6) [of a "[]" s])
  assume "u \<in> rests a s" and len: "length u < length s" and t: "t \<in> rests (Star a) u"
  then obtain ds where u: "(u, ds) \<in> set (ms a [] s)" by (auto simp: in_rests_iff [of u _ _ "[]"])
  obtain es where "(t, es) \<in> set (ms (Star a) ds u)" using t by (auto simp: in_rests_iff [of t _ _ ds])
  then have "(t, es) \<in> set (ms (Star a) [] s)" using u len by (force simp: ms.simps(6) [of a "[]" s])
  then show "t \<in> rests (Star a) s" by (auto simp: in_rests_iff [of t _ _ "[]"])
qed

text \<open>A rest is a suffix of the string.\<close>

lemma ms_suffix: "(t, ds) \<in> set (ms r cs s) \<Longrightarrow> suffix t s"
proof (induction r cs s arbitrary: t ds rule: ms.induct)
  case (4 a b cs s)
  then obtain u es where "(u, es) \<in> set (ms a cs s)" "(t, ds) \<in> set (ms b es u)" by auto
  then show ?case using 4(1) 4(2) [of "(u, es)" u es t ds] by (auto dest: suffix_order.trans)
next
  case (6 a cs s)
  then consider "t = s" | u es where "(u, es) \<in> set (ms a cs s)" "length u < length s" "(t, ds) \<in> set (ms (Star a) es u)"
    by (auto simp: ms.simps(6) [of a cs s] split: if_splits)
  then show ?case
  proof cases
    case 2
    then show ?thesis using 6(1) 6(2) [of "(u, es)" u es t ds] by (auto dest: suffix_order.trans)
  qed simp
qed (auto split: if_splits intro: suffix_ConsI)

text \<open>What the derived forms consume.\<close>

lemma ms_Lit: "ms (Lit x) cs s = (if prefix x s then [(drop (length x) s, cs)] else [])"
proof (induction x arbitrary: s)
  case (Cons c x)
  then show ?case by (cases s) auto
qed simp

declare Lit.simps [simp del]

lemma rests_Lit [simp]: "t \<in> rests (Lit x) s \<longleftrightarrow> s = x @ t"
  by (auto simp: rests_def ms_Lit prefix_def)

lemma rests_Cls: "t \<in> rests (Cls P) s \<longleftrightarrow> (\<exists>c. s = c # t \<and> P c)"
  by (cases s) auto

lemma rests_Rep_Cls: "t \<in> rests (Rep n (Cls P)) s \<longleftrightarrow> (\<exists>x. s = x @ t \<and> length x = n \<and> list_all P x)"
proof (induction n arbitrary: s)
  case (Suc n)
  show ?case
  proof
    assume "t \<in> rests (Rep (Suc n) (Cls P)) s"
    then obtain u c where "s = c # u" "P c" "t \<in> rests (Rep n (Cls P)) u" by (auto simp: rests_Cls)
    with Suc.IH obtain x where "s = (c # x) @ t" "length x = n" "list_all P (c # x)" by auto
    then show "\<exists>x. s = x @ t \<and> length x = Suc n \<and> list_all P x" by (metis length_Cons)
  next
    assume "\<exists>x. s = x @ t \<and> length x = Suc n \<and> list_all P x"
    then obtain c x where "s = c # x @ t" "length x = n" "P c" "list_all P x" by (auto simp: length_Suc_conv)
    then show "t \<in> rests (Rep (Suc n) (Cls P)) s" using Suc.IH by simp
  qed
qed auto

lemma ms_Star_Cls: "ms (Star (Cls P)) cs s = (case s of [] \<Rightarrow> [([], cs)] | c # u \<Rightarrow> (if P c then ms (Star (Cls P)) cs u else []) @ [(s, cs)])"
  by (cases s) (simp_all add: ms.simps(6) [of "Cls P" cs "[]"] ms.simps(6) [of "Cls P" cs "c # u" for c u])

lemma rests_Star_Cls: "t \<in> rests (Star (Cls P)) s \<longleftrightarrow> (\<exists>x. s = x @ t \<and> list_all P x)"
proof (induction s)
  case Nil
  show ?case by (auto simp: rests_def ms_Star_Cls [of P "[]" "[]"])
next
  case (Cons c s)
  have "t \<in> rests (Star (Cls P)) (c # s) \<longleftrightarrow> t = c # s \<or> P c \<and> t \<in> rests (Star (Cls P)) s"
    by (auto simp: rests_def ms_Star_Cls [of P "[]" "c # s"])
  also have "\<dots> \<longleftrightarrow> (\<exists>x. c # s = x @ t \<and> list_all P x)" unfolding Cons by (auto simp: Cons_eq_append_conv)
  finally show ?case .
qed

lemma rests_Plus_Cls: "t \<in> rests (Plus (Cls P)) s \<longleftrightarrow> (\<exists>x. s = x @ t \<and> x \<noteq> [] \<and> list_all P x)"
proof
  assume "t \<in> rests (Plus (Cls P)) s"
  then obtain c x where "s = (c # x) @ t" "list_all P (c # x)" by (auto simp: Plus_def rests_Cls rests_Star_Cls)
  then show "\<exists>x. s = x @ t \<and> x \<noteq> [] \<and> list_all P x" by blast
next
  assume "\<exists>x. s = x @ t \<and> x \<noteq> [] \<and> list_all P x"
  then obtain c x where "s = c # x @ t" "P c" "list_all P x" by (auto simp: neq_Nil_conv)
  then show "t \<in> rests (Plus (Cls P)) s" by (auto simp: Plus_def rests_Star_Cls)
qed

text \<open>The greedy star takes as much as it can first.\<close>

lemma hd_ms_Star_Cls: "ms (Star (Cls P)) cs s \<noteq> [] \<and> hd (ms (Star (Cls P)) cs s) = (dropWhile P s, cs)"
proof (induction s)
  case Nil
  show ?case by (simp add: ms_Star_Cls [of P cs "[]"])
next
  case (Cons c s)
  then show ?case by (simp add: ms_Star_Cls [of P cs "c # s"])
qed

lemma rests_RepUpTo_Cls: "t \<in> rests (RepUpTo n (Cls P)) s \<longleftrightarrow> (\<exists>x. s = x @ t \<and> length x \<le> n \<and> list_all P x)"
proof (induction n arbitrary: s)
  case (Suc n)
  have "t \<in> rests (RepUpTo (Suc n) (Cls P)) s \<longleftrightarrow> t = s \<or> (\<exists>c u. s = c # u \<and> P c \<and> t \<in> rests (RepUpTo n (Cls P)) u)"
    unfolding RepUpTo.simps Opt_def rests_simps rests_Seq Un_iff UN_iff Bex_def rests_Cls singleton_iff by blast
  also have "\<dots> \<longleftrightarrow> (\<exists>x. s = x @ t \<and> length x \<le> Suc n \<and> list_all P x)" (is "?l \<longleftrightarrow> ?r")
  proof
    assume ?l
    then show ?r
    proof
      assume "\<exists>c u. s = c # u \<and> P c \<and> t \<in> rests (RepUpTo n (Cls P)) u"
      then obtain c x where "s = (c # x) @ t" "length x \<le> n" "list_all P (c # x)" by (auto simp: Suc.IH)
      then show ?r by (metis Suc_le_mono length_Cons)
    qed auto
  next
    assume ?r
    then obtain x where "s = x @ t" "length x \<le> Suc n" "list_all P x" by blast
    then show ?l using Suc.IH by (cases x) auto
  qed
  finally show ?case .
qed auto

subsection \<open>The first match\<close>

lemma find_match_first:
  assumes "ms r [] s \<noteq> []" and "hd (ms r [] s) = (t, cs)"
  shows "find_match r s = Some (take (length s - length t) s, cs)"
  using assms by (cases "ms r [] s") (simp_all add: find_match.simps [of r s])

lemma find_match_None_iff: "find_match r s = None \<longleftrightarrow> (\<forall>u. suffix u s \<longrightarrow> rests r u = {})"
proof (induction s)
  case Nil
  show ?case by (auto simp: find_match.simps [of r "[]"] rests_def split: list.splits)
next
  case (Cons c s)
  have "find_match r (c # s) = None \<longleftrightarrow> rests r (c # s) = {} \<and> find_match r s = None"
    by (auto simp: find_match.simps [of r "c # s"] rests_def split: list.splits)
  then show ?case using Cons by (auto simp: suffix_Cons)
qed

lemma find_match_SomeE:
  assumes "find_match r s = Some (m, cs)"
  obtains u t where "suffix u s" and "(t, cs) \<in> set (ms r [] u)" and "hd (ms r [] u) = (t, cs)" and "u = m @ t"
    and "\<And>v. suffix v s \<Longrightarrow> length u < length v \<Longrightarrow> rests r v = {}"
  using assms
proof (induction s arbitrary: thesis)
  case Nil
  then obtain t xs where ms: "ms r [] [] = (t, cs) # xs" "m = []"
    by (auto simp: find_match.simps [of r "[]"] split: list.splits)
  have "t = []" using ms_suffix [of t cs r "[]" "[]"] ms by simp
  show ?case by (rule Nil(1) [of "[]" "[]"]) (simp_all add: ms \<open>t = []\<close>)
next
  case (Cons c s)
  show ?case
  proof (cases "ms r [] (c # s)")
    case Nil
    then have "find_match r s = Some (m, cs)" using Cons.prems(2) by (simp add: find_match.simps [of r "c # s"])
    then obtain u t where "suffix u s" "(t, cs) \<in> set (ms r [] u)" "hd (ms r [] u) = (t, cs)" "u = m @ t"
      "\<And>v. suffix v s \<Longrightarrow> length u < length v \<Longrightarrow> rests r v = {}" using Cons.IH by blast
    moreover have "rests r (c # s) = {}" using Nil by (simp add: rests_def)
    ultimately show ?thesis using Cons.prems(1) [of u t] by (auto simp: suffix_Cons)
  next
    case (Cons p xs)
    obtain t where p: "p = (t, cs)" and m: "m = take (length (c # s) - length t) (c # s)"
      using Cons.prems(2) Cons by (cases p) (simp add: find_match.simps [of r "c # s"])
    have "suffix t (c # s)" using ms_suffix [of t cs r "[]" "c # s"] Cons p by simp
    then have "c # s = m @ t" unfolding m by (metis append_take_drop_id suffix_take append_eq_conv_conj suffix_def)
    show ?thesis
    proof (rule Cons.prems(1) [of "c # s" t])
      show "rests r v = {}" if "suffix v (c # s)" and "length (c # s) < length v" for v
        using suffix_length_le [OF that(1)] that(2) by simp
    qed (use Cons p \<open>c # s = m @ t\<close> in simp_all)
  qed
qed

subsection \<open>Groups\<close>

primrec groups :: "re \<Rightarrow> nat set" where
  "groups Eps = {}"
| "groups (Cls P) = {}"
| "groups (Seq a b) = groups a \<union> groups b"
| "groups (Alt a b) = groups a \<union> groups b"
| "groups (Star a) = groups a"
| "groups (Grp n a) = insert n (groups a)"
| "groups EndText = {}"

lemma groups_derived [simp]:
  "groups (Lit x) = {}" "groups (Plus r) = groups r" "groups (Opt r) = groups r" "groups Dot = {}"
  "groups (Rep (Suc n) r) = groups r" "groups (Rep 0 r) = {}" "groups (RepUpTo (Suc n) r) = groups r"
proof -
  show "groups (Lit x) = {}" by (induction x) (auto simp: Lit.simps)
  show "groups (Rep (Suc n) r) = groups r" by (induction n) auto
  show "groups (RepUpTo (Suc n) r) = groups r" by (induction n) (auto simp: Opt_def)
qed (auto simp: Plus_def Opt_def Dot_def)

lemma ms_groups: "(t, ds) \<in> set (ms r cs s) \<Longrightarrow> \<exists>es. ds = es @ cs \<and> fst ` set es \<subseteq> groups r"
proof (induction r cs s arbitrary: t ds rule: ms.induct)
  case (4 a b cs s)
  then obtain u es where u: "(u, es) \<in> set (ms a cs s)" "(t, ds) \<in> set (ms b es u)" by auto
  then obtain e1 where e1: "es = e1 @ cs" "fst ` set e1 \<subseteq> groups a" using 4(1) by blast
  obtain e2 where e2: "ds = e2 @ es" "fst ` set e2 \<subseteq> groups b" using 4(2) [of "(u, es)" u es t ds] u by auto
  show ?case by (rule exI [of _ "e2 @ e1"]) (use e1 e2 in auto)
next
  case (6 a cs s)
  then consider "ds = cs" | u es where "(u, es) \<in> set (ms a cs s)" "length u < length s" "(t, ds) \<in> set (ms (Star a) es u)"
    by (auto simp: ms.simps(6) [of a cs s] split: if_splits)
  then show ?case
  proof cases
    case 2
    then obtain e1 where e1: "es = e1 @ cs" "fst ` set e1 \<subseteq> groups a" using 6(1) by blast
    obtain e2 where e2: "ds = e2 @ es" "fst ` set e2 \<subseteq> groups (Star a)" using 6(2) [of "(u, es)" u es t ds] 2 by auto
    show ?thesis by (rule exI [of _ "e2 @ e1"]) (use e1 e2 in auto)
  qed simp
next
  case (5 a b cs s)
  then show ?case by fastforce
next
  case (7 n a cs s)
  then obtain es where es: "(t, es) \<in> set (ms a cs s)" "ds = (n, take (length s - length t) s) # es" by auto
  then obtain e1 where "es = e1 @ cs" "fst ` set e1 \<subseteq> groups a" using 7(1) by blast
  then show ?case by (intro exI [of _ "(n, take (length s - length t) s) # e1"]) (use es in auto)
qed (auto split: if_splits)

lemma ms_rests: "(t, ds) \<in> set (ms r cs s) \<Longrightarrow> t \<in> rests r s"
  using in_rests_iff by blast

lemma capture_append: "n \<notin> fst ` set es \<Longrightarrow> capture (es @ cs) n = capture cs n"
  by (simp add: capture_def map_add_def map_of_eq_None_iff [THEN iffD2] split: option.splits)

text \<open>What a group holds after a match of an expression in which it occurs once.\<close>

lemma Grp_match:
  assumes "(t, ds) \<in> set (ms (Grp n g) cs s)" and "n \<notin> groups g"
  obtains x where "s = x @ t" and "t \<in> rests g s" and "capture ds n = x"
proof -
  obtain es where es: "(t, es) \<in> set (ms g cs s)" "ds = (n, take (length s - length t) s) # es" using assms(1) by auto
  obtain x where x: "s = x @ t" using ms_suffix [OF es(1)] by (auto simp: suffix_def)
  show ?thesis by (rule that [OF x ms_rests [OF es(1)]]) (simp add: es(2) x capture_def)
qed

lemma Seq_match:
  assumes "(t, ds) \<in> set (ms (Seq a b) cs s)"
  obtains u es where "(u, es) \<in> set (ms a cs s)" and "(t, ds) \<in> set (ms b es u)"
    and "\<And>n. n \<notin> groups b \<Longrightarrow> capture ds n = capture es n"
proof -
  obtain u es where u: "(u, es) \<in> set (ms a cs s)" "(t, ds) \<in> set (ms b es u)" using assms by auto
  then obtain fs where "ds = fs @ es" "fst ` set fs \<subseteq> groups b" using ms_groups by blast
  then show ?thesis using that [OF u] capture_append by (metis subsetD)
qed

lemma one_group:
  assumes "(t, ds) \<in> set (ms (Seq a (Seq (Grp n g) b)) cs s)" and "n \<notin> groups g" and "n \<notin> groups b"
  obtains x v where "x @ v \<in> rests a s" and "v \<in> rests g (x @ v)" and "t \<in> rests b v" and "capture ds n = x"
proof -
  obtain u es where u: "(u, es) \<in> set (ms a cs s)" "(t, ds) \<in> set (ms (Seq (Grp n g) b) es u)"
    using Seq_match [OF assms(1)] by blast
  obtain v fs where v: "(v, fs) \<in> set (ms (Grp n g) es u)" "(t, ds) \<in> set (ms b fs v)" "capture ds n = capture fs n"
    using Seq_match [OF u(2)] assms(3) by metis
  obtain x where "u = x @ v" "v \<in> rests g u" "capture fs n = x" using Grp_match [OF v(1) assms(2)] by blast
  then show ?thesis using that [of x v] ms_rests [OF u(1)] ms_rests [OF v(2)] v(3) by simp
qed

end
