(* ===== verification/Url_Parser.thy ===== *)
theory Url_Parser
  imports Go_Regexp Go_Url
begin

section \<open>Digests in blob addresses: \<open>src/pkg/urlparser/azure.go\<close> and \<open>parser.go\<close>\<close>

text \<open>
  Model of the parser that finds the digest of a blob in the address of an Azure endpoint, with its
  three regular expressions as they are written (the dots of the second one are not escaped). The
  lemmas show that a digest is only taken from the place where the endpoint puts it, and that the
  addresses of the three kinds of endpoint are recognised.
\<close>

subsection \<open>Model\<close>

definition cls_alnum :: "char \<Rightarrow> bool" where "cls_alnum c \<longleftrightarrow> is_alpha c \<or> is_digit c"
definition cls_lower :: "char \<Rightarrow> bool" where "cls_lower c \<longleftrightarrow> 97 \<le> (of_char c :: nat) \<and> (of_char c :: nat) \<le> 122"

definition Cat :: "re list \<Rightarrow> re" where "Cat rs = foldr Seq rs Eps"

definition layer_path :: string where "layer_path = ''//docker/registry/v2/blobs/sha256/''"

definition acr_regex :: re where
  "acr_regex =
     Seq (Cat [Lit ''https://'', Plus (Cls (\<lambda>c. cls_alnum c \<or> c = CHR ''.'')), Lit ''.azurecr.'', Plus (Cls (\<lambda>c. cls_lower c \<or> c = CHR ''.'')),
        Opt (Lit ''/''), Lit ''?'', Plus (Cls (\<lambda>c. cls_alnum c \<or> c \<in> set ''.&=-'')), Lit ''&d=sha256:''])
      (Seq (Grp 1 (Rep 64 (Cls cls_alnum))) (Star (Cls (\<lambda>c. c = CHR ''.''))))"

definition mar_regex :: re where
  "mar_regex =
     Seq (Seq (Cat [Lit ''https://'', Plus (Cls cls_alnum), Lit ''.data'', Dot, Lit ''mcr'', Dot, Lit ''microsoft'', Dot, Lit ''com/'',
          Plus (Cls (\<lambda>c. cls_alnum c \<or> c = CHR ''-''))])
        (Cat [Lit layer_path, Rep 2 (Cls (\<lambda>c. cls_lower c \<or> is_digit c)), Lit ''/'']))
      (Seq (Grp 1 (Rep 64 (Cls cls_alnum))) (Cat [Lit ''/data'', Star Dot]))"

definition abs_regex :: re where
  "abs_regex =
     Seq (Seq (Cat [Lit ''https://'', Plus (Cls cls_alnum), Lit ''.blob.'', Plus (Cls (\<lambda>c. cls_lower c \<or> c = CHR ''.'')), Lit ''/'',
          Plus (Cls (\<lambda>c. cls_alnum c \<or> c = CHR ''-''))])
        (Cat [Lit layer_path, Rep 2 (Cls (\<lambda>c. cls_lower c \<or> is_digit c)), Lit ''/'']))
      (Seq (Grp 1 (Rep 64 (Cls cls_alnum))) (Cat [Lit ''/data'', Star Dot]))"

definition regexes :: "re list" where "regexes = [acr_regex, mar_regex, abs_regex]"

fun try_regexes :: "re list \<Rightarrow> string \<Rightarrow> string result" where
  "try_regexes [] url = Inl (Errorf ''unknown url'')"
| "try_regexes (r # rs) url =
     (let matches = FindStringSubmatch 1 r url in
      if length matches = 2 then Inr (''sha256:'' @ matches ! 1) else try_regexes rs url)"

definition parseDigestFromAzureUrl :: "string \<Rightarrow> string result" where
  "parseDigestFromAzureUrl url = (if url = [] then Inl (Errorf ''empty url'') else try_regexes regexes url)"

text \<open>\<open>parser.ParseDigest\<close>.\<close>

definition ParseDigest :: "string \<Rightarrow> string result" where
  "ParseDigest url = parseDigestFromAzureUrl url"

subsection \<open>Where a digest is taken from\<close>

lemma rests_Cat [simp]: "rests (Cat []) s = {s}" "rests (Cat (r # rs)) s = (\<Union>u \<in> rests r s. rests (Cat rs) u)"
  by (simp_all add: Cat_def)

lemma groups_Cat [simp]: "groups (Cat rs) = \<Union> (groups ` set rs)"
  by (induction rs) (simp_all add: Cat_def)

definition is_hash :: "string \<Rightarrow> bool" where "is_hash h \<longleftrightarrow> length h = 64 \<and> list_all cls_alnum h"

definition in_layer_path :: "string \<Rightarrow> string \<Rightarrow> bool" where
  "in_layer_path url h \<longleftrightarrow> (\<exists>p xy q. length xy = 2 \<and> url = p @ layer_path @ xy @ ''/'' @ h @ ''/data'' @ q)"

definition in_acr_query :: "string \<Rightarrow> string \<Rightarrow> bool" where
  "in_acr_query url h \<longleftrightarrow> (\<exists>p q. Contains p ''.azurecr.'' \<and> url = p @ ''&d=sha256:'' @ h @ q)"

lemma FindStringSubmatch_1:
  "FindStringSubmatch 1 r url = (case find_match r url of None \<Rightarrow> [] | Some (m, cs) \<Rightarrow> [m, capture cs 1])"
  by (simp add: FindStringSubmatch_def numeral_eq_Suc upt_conv_Cons split: option.split)

lemma HasPrefix_append [simp]: "HasPrefix (p @ s) p"
  by (simp add: HasPrefix_def)

lemma Contains_HasPrefix: "HasPrefix s p \<Longrightarrow> Contains s p"
  by (cases s) (auto simp: HasPrefix_def)

lemma Contains_append: "Contains (a @ p @ b) p"
  by (induction a) (simp_all add: Contains_HasPrefix)

lemma is_hash_Rep: "v \<in> rests (Rep 64 (Cls cls_alnum)) (x @ v) \<Longrightarrow> is_hash x"
  by (auto simp: rests_Rep_Cls is_hash_def)

lemma in_layer_path_suffix: "suffix u url \<Longrightarrow> in_layer_path u h \<Longrightarrow> in_layer_path url h"
  unfolding in_layer_path_def suffix_def by (metis append.assoc)

lemma in_acr_query_suffix: "suffix u url \<Longrightarrow> in_acr_query u h \<Longrightarrow> in_acr_query url h"
proof -
  have "Contains (w @ p) x" if "Contains p x" for w p x using that by (induction w) auto
  then show "suffix u url \<Longrightarrow> in_acr_query u h \<Longrightarrow> in_acr_query url h"
    unfolding in_acr_query_def suffix_def by (metis append.assoc)
qed

lemma groups_Rep_Cls [simp]: "groups (Rep n (Cls P)) = {}"
  by (induction n) simp_all

lemma rests_suffix: "t \<in> rests r s \<Longrightarrow> \<exists>p. s = p @ t"
  using ms_suffix unfolding in_rests_iff [of t r s "[]"] suffix_def by blast

lemma rests_Cat_last: "t \<in> rests (Cat (rs @ [Lit l])) s \<Longrightarrow> \<exists>p. s = p @ l @ t"
proof (induction rs arbitrary: s)
  case (Cons r rs)
  then obtain u where "u \<in> rests r s" "t \<in> rests (Cat (rs @ [Lit l])) u" by auto
  then show ?case using Cons.IH rests_suffix by (metis append.assoc)
qed auto

lemma acr_match:
  assumes "find_match acr_regex url = Some (m, cs)"
  shows "is_hash (capture cs 1) \<and> in_acr_query url (capture cs 1)"
proof -
  obtain u t where u: "suffix u url" "(t, cs) \<in> set (ms acr_regex [] u)" using find_match_SomeE [OF assms] by metis
  obtain x v where x: "x @ v \<in> rests (Cat [Lit ''https://'', Plus (Cls (\<lambda>c. cls_alnum c \<or> c = CHR ''.'')), Lit ''.azurecr.'',
        Plus (Cls (\<lambda>c. cls_lower c \<or> c = CHR ''.'')), Opt (Lit ''/''), Lit ''?'', Plus (Cls (\<lambda>c. cls_alnum c \<or> c \<in> set ''.&=-'')),
        Lit ''&d=sha256:'']) u" "v \<in> rests (Rep 64 (Cls cls_alnum)) (x @ v)"
      "t \<in> rests (Star (Cls (\<lambda>c. c = CHR ''.''))) v" "capture cs 1 = x"
    by (rule one_group [OF u(2) [unfolded acr_regex_def]]) simp_all
  obtain a u' where "u = ''https://'' @ a @ ''.azurecr.'' @ u'" and rest: "x @ v \<in> rests (Cat [Plus (Cls (\<lambda>c. cls_lower c \<or> c = CHR ''.'')),
        Opt (Lit ''/''), Lit ''?'', Plus (Cls (\<lambda>c. cls_alnum c \<or> c \<in> set ''.&=-'')), Lit ''&d=sha256:'']) u'"
    using x(1) unfolding rests_Cat(2) [of "Lit ''https://''"] rests_Cat(2) [of "Plus (Cls (\<lambda>c. cls_alnum c \<or> c = CHR ''.''))"]
      rests_Cat(2) [of "Lit ''.azurecr.''"] UN_iff Bex_def rests_Lit rests_Plus_Cls by blast
  moreover obtain b where "u' = b @ ''&d=sha256:'' @ x @ v"
    using rests_Cat_last [of "x @ v" "[Plus (Cls (\<lambda>c. cls_lower c \<or> c = CHR ''.'')), Opt (Lit ''/''), Lit ''?'',
        Plus (Cls (\<lambda>c. cls_alnum c \<or> c \<in> set ''.&=-''))]" "''&d=sha256:''" u'] rest by (simp only: append.simps) blast
  ultimately have "u = (''https://'' @ a @ ''.azurecr.'' @ b) @ ''&d=sha256:'' @ x @ v" by simp
  moreover have "Contains (''https://'' @ a @ ''.azurecr.'' @ b) ''.azurecr.''"
    using Contains_append [of "''https://'' @ a" "''.azurecr.''" b] by (simp only: append.assoc)
  ultimately have "in_acr_query u x" unfolding in_acr_query_def by blast
  then show ?thesis using in_acr_query_suffix [OF u(1)] is_hash_Rep [OF x(2)] x(4) by blast
qed

lemma layer_match:
  assumes "find_match (Seq (Seq a (Cat [Lit layer_path, Rep 2 (Cls P), Lit ''/'']))
      (Seq (Grp 1 (Rep 64 (Cls cls_alnum))) (Cat [Lit ''/data'', Star Dot]))) url = Some (m, cs)"
  shows "is_hash (capture cs 1) \<and> in_layer_path url (capture cs 1)"
proof -
  obtain u t where u: "suffix u url" "(t, cs) \<in> set (ms (Seq (Seq a (Cat [Lit layer_path, Rep 2 (Cls P), Lit ''/'']))
      (Seq (Grp 1 (Rep 64 (Cls cls_alnum))) (Cat [Lit ''/data'', Star Dot]))) [] u)" using find_match_SomeE [OF assms] by metis
  obtain x v where x: "x @ v \<in> rests (Seq a (Cat [Lit layer_path, Rep 2 (Cls P), Lit ''/''])) u"
    "v \<in> rests (Rep 64 (Cls cls_alnum)) (x @ v)" "t \<in> rests (Cat [Lit ''/data'', Star Dot]) v" "capture cs 1 = x"
    by (rule one_group [OF u(2)]) simp_all
  obtain u' xy where "u' \<in> rests a u" "length xy = 2" "u' = layer_path @ xy @ ''/'' @ x @ v"
    using x(1) unfolding rests_Seq rests_Cat UN_iff Bex_def rests_Lit rests_Rep_Cls singleton_iff by (metis (no_types, lifting))
  moreover obtain p where "u = p @ u'" using calculation(1) ms_suffix by (metis in_rests_iff suffix_def)
  moreover obtain q where "v = ''/data'' @ q" using x(3) unfolding rests_Cat UN_iff Bex_def rests_Lit by blast
  ultimately have "in_layer_path u x" unfolding in_layer_path_def by (metis append.assoc)
  then show ?thesis using in_layer_path_suffix [OF u(1)] is_hash_Rep [OF x(2)] x(4) by blast
qed

lemma mar_match: "find_match mar_regex url = Some (m, cs) \<Longrightarrow> is_hash (capture cs 1) \<and> in_layer_path url (capture cs 1)"
  and abs_match: "find_match abs_regex url = Some (m, cs) \<Longrightarrow> is_hash (capture cs 1) \<and> in_layer_path url (capture cs 1)"
  unfolding mar_regex_def abs_regex_def by (rule layer_match, assumption)+

lemma parseDigest_cases:
  assumes "url \<noteq> []"
  shows "parseDigestFromAzureUrl url =
    (case find_match acr_regex url of Some (m, cs) \<Rightarrow> Inr (''sha256:'' @ capture cs 1)
     | None \<Rightarrow> (case find_match mar_regex url of Some (m, cs) \<Rightarrow> Inr (''sha256:'' @ capture cs 1)
       | None \<Rightarrow> (case find_match abs_regex url of Some (m, cs) \<Rightarrow> Inr (''sha256:'' @ capture cs 1)
         | None \<Rightarrow> Inl (Errorf ''unknown url''))))"
  using assms by (simp add: parseDigestFromAzureUrl_def regexes_def FindStringSubmatch_1 del: One_nat_def split: option.split)

text \<open>
  C19: what the parser reports as a digest is \<open>sha256:\<close> with 64 letters and digits of the address,
  found after \<open>&d=sha256:\<close> in an address of a container registry, or in the directory of layers
  of a blob endpoint, followed by \<open>/data\<close>.
\<close>

theorem ParseDigest_sound:
  assumes "ParseDigest url = Inr d"
  shows "\<exists>h. d = ''sha256:'' @ h \<and> is_hash h \<and> (in_acr_query url h \<or> in_layer_path url h)"
proof -
  have ne: "url \<noteq> []" using assms by (auto simp: ParseDigest_def parseDigestFromAzureUrl_def)
  show ?thesis
    using assms [unfolded ParseDigest_def parseDigest_cases [OF ne]] acr_match [of url] mar_match [of url] abs_match [of url]
    by (auto split: option.splits prod.splits)
qed

subsection \<open>The addresses of the endpoints\<close>

datatype endpoint =
    ACR string string bool string
  | MAR string string string
  | ABS string string string string

fun url_of :: "endpoint \<Rightarrow> string \<Rightarrow> string \<Rightarrow> string" where
  "url_of (ACR reg tld slash q) h post =
     ''https://'' @ reg @ ''.azurecr.'' @ tld @ (if slash then ''/'' else []) @ ''?'' @ q @ ''&d=sha256:'' @ h @ post"
| "url_of (MAR acct cont xy) h post =
     ''https://'' @ acct @ ''.data.mcr.microsoft.com/'' @ cont @ layer_path @ xy @ ''/'' @ h @ ''/data'' @ post"
| "url_of (ABS acct tld cont xy) h post =
     ''https://'' @ acct @ ''.blob.'' @ tld @ ''/'' @ cont @ layer_path @ xy @ ''/'' @ h @ ''/data'' @ post"

definition some_of :: "(char \<Rightarrow> bool) \<Rightarrow> string \<Rightarrow> bool" where
  "some_of P s \<longleftrightarrow> s \<noteq> [] \<and> list_all P s"

definition occurrences :: "string \<Rightarrow> string \<Rightarrow> nat" where
  "occurrences p s = length (filter (\<lambda>i. HasPrefix (drop i s) p) [0..<Suc (length s)])"

text \<open>The parts of an address have the characters of their kind, and what marks the digest occurs once.\<close>

fun endpoint_ok :: "endpoint \<Rightarrow> string \<Rightarrow> bool" where
  "endpoint_ok (ACR reg tld slash q) url \<longleftrightarrow>
     some_of (\<lambda>c. cls_alnum c \<or> c = CHR ''.'') reg \<and> some_of (\<lambda>c. cls_lower c \<or> c = CHR ''.'') tld
     \<and> some_of (\<lambda>c. cls_alnum c \<or> c \<in> set ''.&=-'') q \<and> occurrences ''&d=sha256:'' url = 1"
| "endpoint_ok (MAR acct cont xy) url \<longleftrightarrow>
     some_of cls_alnum acct \<and> some_of (\<lambda>c. cls_alnum c \<or> c = CHR ''-'') cont
     \<and> length xy = 2 \<and> list_all (\<lambda>c. cls_lower c \<or> is_digit c) xy
     \<and> occurrences layer_path url = 1 \<and> \<not> Contains url ''.azurecr.''"
| "endpoint_ok (ABS acct tld cont xy) url \<longleftrightarrow>
     some_of cls_alnum acct \<and> some_of (\<lambda>c. cls_lower c \<or> c = CHR ''.'') tld \<and> some_of (\<lambda>c. cls_alnum c \<or> c = CHR ''-'') cont
     \<and> length xy = 2 \<and> list_all (\<lambda>c. cls_lower c \<or> is_digit c) xy
     \<and> occurrences layer_path url = 1 \<and> \<not> Contains url ''.azurecr.''"

lemma occurs_once:
  assumes "occurrences p s = 1" and "s = a @ p @ b" and "s = a' @ p @ b'"
  shows "a = a'" and "b = b'"
proof -
  let ?ps = "filter (\<lambda>i. HasPrefix (drop i s) p) [0..<Suc (length s)]"
  have at: "length x \<in> set ?ps" if "s = x @ p @ y" for x y unfolding that set_filter by (simp del: upt_Suc)
  obtain i where "?ps = [i]" using assms(1) unfolding occurrences_def by (metis length_0_conv length_Suc_conv One_nat_def)
  then have "length a = length a'" using at [OF assms(2)] at [OF assms(3)] by simp
  then show "a = a'" and "b = b'" using assms(2,3) by auto
qed

lemma layer_hash_unique:
  assumes "occurrences layer_path url = 1" and "url = p @ layer_path @ xy @ ''/'' @ h @ ''/data'' @ q" and "length xy = 2"
    and "is_hash h" and "in_layer_path url h'" and "is_hash h'"
  shows "h' = h"
proof -
  obtain p' xy' q' where "length xy' = 2" "url = p' @ layer_path @ xy' @ ''/'' @ h' @ ''/data'' @ q'"
    using assms(5) unfolding in_layer_path_def by blast
  then have "xy' @ ''/'' @ h' @ ''/data'' @ q' = xy @ ''/'' @ h @ ''/data'' @ q"
    using occurs_once(2) [OF assms(1)] assms(2) by blast
  then show ?thesis using assms(3,4,6) \<open>length xy' = 2\<close> by (simp add: is_hash_def)
qed

lemma not_in_acr_query: "\<not> Contains url ''.azurecr.'' \<Longrightarrow> \<not> in_acr_query url h"
proof -
  have pre: "HasPrefix (p @ q) x" if "HasPrefix p x" for p q x
    using that unfolding HasPrefix_def by (metis append_take_drop_id append.assoc append_eq_conv_conj)
  have "Contains (p @ q) x" if "Contains p x" for p q x :: string
    using that
  proof (induction p)
    case Nil
    then show ?case by (simp add: Contains_HasPrefix HasPrefix_def)
  next
    case (Cons c p)
    then show ?case using pre [of "c # p" x q] by auto
  qed
  then show "\<not> Contains url ''.azurecr.'' \<Longrightarrow> \<not> in_acr_query url h" unfolding in_acr_query_def by metis
qed

lemma find_matchI: "t \<in> rests r s \<Longrightarrow> find_match r s \<noteq> None"
  unfolding find_match_None_iff by (auto intro: exI [of _ s])

text \<open>A part that matches its piece of the address, whatever follows.\<close>

definition accepts :: "re \<Rightarrow> string \<Rightarrow> bool" where
  "accepts r x \<longleftrightarrow> (\<forall>t. t \<in> rests r (x @ t))"

lemma Cat_accepts: "list_all2 accepts rs xs \<Longrightarrow> t \<in> rests (Cat rs) (concat xs @ t)"
  by (induction rs xs rule: list_all2_induct) (auto simp: accepts_def)

lemma accepts_simps:
  "accepts (Lit l) l" "accepts Dot ''.''" "accepts (Opt (Lit ''/'')) (if slash then ''/'' else [])"
  "some_of P x \<Longrightarrow> accepts (Plus (Cls P)) x" "length x = n \<Longrightarrow> list_all P x \<Longrightarrow> accepts (Rep n (Cls P)) x"
  "accepts (Star r) []"
  by (auto simp: accepts_def rests_Plus_Cls rests_Rep_Cls some_of_def Opt_def Dot_def rests_StarI)

text \<open>Each expression matches the addresses of its kind of endpoint.\<close>

lemma hash_rests: "is_hash h \<Longrightarrow> t \<in> rests (Rep 64 (Cls cls_alnum)) (h @ t)"
  by (auto simp: is_hash_def rests_Rep_Cls)

lemma layer_tail_matches:
  assumes "is_hash h" and "length xy = 2" and "list_all P xy"
    and "layer_path @ xy @ ''/'' @ h @ ''/data'' @ q \<in> rests a s"
  shows "\<exists>t. t \<in> rests (Seq (Seq a (Cat [Lit layer_path, Rep 2 (Cls P), Lit ''/'']))
      (Seq (Grp 1 (Rep 64 (Cls cls_alnum))) (Cat [Lit ''/data'', Star Dot]))) s"
proof -
  have "h @ ''/data'' @ q \<in> rests (Cat [Lit layer_path, Rep 2 (Cls P), Lit ''/'']) (layer_path @ xy @ ''/'' @ h @ ''/data'' @ q)"
    using Cat_accepts [of "[Lit layer_path, Rep 2 (Cls P), Lit ''/'']" "[layer_path, xy, ''/'']"] assms(2,3) by (simp add: accepts_simps)
  moreover have "''/data'' @ q \<in> rests (Rep 64 (Cls cls_alnum)) (h @ ''/data'' @ q)" by (rule hash_rests [OF assms(1)])
  moreover have "q \<in> rests (Cat [Lit ''/data'', Star Dot]) (''/data'' @ q)"
    using Cat_accepts [of "[Lit ''/data'', Star Dot]" "[''/data'', []]"] by (simp add: accepts_simps)
  ultimately show ?thesis using assms(4) unfolding rests_Seq rests_simps UN_iff by blast
qed

lemma abs_matches:
  assumes "endpoint_ok (ABS acct tld cont xy) (url_of (ABS acct tld cont xy) h q)" and "is_hash h"
  shows "find_match abs_regex (url_of (ABS acct tld cont xy) h q) \<noteq> None"
proof -
  let ?rest = "layer_path @ xy @ ''/'' @ h @ ''/data'' @ q"
  have "?rest \<in> rests (Cat [Lit ''https://'', Plus (Cls cls_alnum), Lit ''.blob.'', Plus (Cls (\<lambda>c. cls_lower c \<or> c = CHR ''.'')), Lit ''/'',
      Plus (Cls (\<lambda>c. cls_alnum c \<or> c = CHR ''-''))]) (url_of (ABS acct tld cont xy) h q)"
    using Cat_accepts [of "[Lit ''https://'', Plus (Cls cls_alnum), Lit ''.blob.'', Plus (Cls (\<lambda>c. cls_lower c \<or> c = CHR ''.'')), Lit ''/'',
        Plus (Cls (\<lambda>c. cls_alnum c \<or> c = CHR ''-''))]" "[''https://'', acct, ''.blob.'', tld, ''/'', cont]"] assms(1) by (simp add: accepts_simps)
  then obtain t where "t \<in> rests abs_regex (url_of (ABS acct tld cont xy) h q)"
    unfolding abs_regex_def using layer_tail_matches [OF assms(2), of xy] assms(1) by (metis (no_types, lifting) endpoint_ok.simps(3))
  then show ?thesis by (rule find_matchI)
qed

lemma mar_matches:
  assumes "endpoint_ok (MAR acct cont xy) (url_of (MAR acct cont xy) h q)" and "is_hash h"
  shows "find_match mar_regex (url_of (MAR acct cont xy) h q) \<noteq> None"
proof -
  let ?rest = "layer_path @ xy @ ''/'' @ h @ ''/data'' @ q"
  have url: "url_of (MAR acct cont xy) h q =
      ''https://'' @ acct @ ''.data'' @ ''.'' @ ''mcr'' @ ''.'' @ ''microsoft'' @ ''.'' @ ''com/'' @ cont @ ?rest" by simp
  have "?rest \<in> rests (Cat [Lit ''https://'', Plus (Cls cls_alnum), Lit ''.data'', Dot, Lit ''mcr'', Dot, Lit ''microsoft'', Dot, Lit ''com/'',
      Plus (Cls (\<lambda>c. cls_alnum c \<or> c = CHR ''-''))]) (url_of (MAR acct cont xy) h q)"
    unfolding url using Cat_accepts [of "[Lit ''https://'', Plus (Cls cls_alnum), Lit ''.data'', Dot, Lit ''mcr'', Dot, Lit ''microsoft'', Dot, Lit ''com/'',
        Plus (Cls (\<lambda>c. cls_alnum c \<or> c = CHR ''-''))]" "[''https://'', acct, ''.data'', ''.'', ''mcr'', ''.'', ''microsoft'', ''.'', ''com/'', cont]"] assms(1)
    by (simp add: accepts_simps)
  then obtain t where "t \<in> rests mar_regex (url_of (MAR acct cont xy) h q)"
    unfolding mar_regex_def using layer_tail_matches [OF assms(2), of xy] assms(1) by (metis (no_types, lifting) endpoint_ok.simps(2))
  then show ?thesis by (rule find_matchI)
qed

lemma acr_matches:
  assumes "endpoint_ok (ACR reg tld slash q) (url_of (ACR reg tld slash q) h post)" and "is_hash h"
  shows "find_match acr_regex (url_of (ACR reg tld slash q) h post) \<noteq> None"
proof -
  have "h @ post \<in> rests (Cat [Lit ''https://'', Plus (Cls (\<lambda>c. cls_alnum c \<or> c = CHR ''.'')), Lit ''.azurecr.'', Plus (Cls (\<lambda>c. cls_lower c \<or> c = CHR ''.'')),
      Opt (Lit ''/''), Lit ''?'', Plus (Cls (\<lambda>c. cls_alnum c \<or> c \<in> set ''.&=-'')), Lit ''&d=sha256:'']) (url_of (ACR reg tld slash q) h post)"
    using Cat_accepts [of "[Lit ''https://'', Plus (Cls (\<lambda>c. cls_alnum c \<or> c = CHR ''.'')), Lit ''.azurecr.'', Plus (Cls (\<lambda>c. cls_lower c \<or> c = CHR ''.'')),
        Opt (Lit ''/''), Lit ''?'', Plus (Cls (\<lambda>c. cls_alnum c \<or> c \<in> set ''.&=-'')), Lit ''&d=sha256:'']"
        "[''https://'', reg, ''.azurecr.'', tld, if slash then ''/'' else [], ''?'', q, ''&d=sha256:'']"] assms(1)
    by (simp add: accepts_simps)
  moreover have "post \<in> rests (Rep 64 (Cls cls_alnum)) (h @ post)" by (rule hash_rests [OF assms(2)])
  ultimately have "post \<in> rests acr_regex (url_of (ACR reg tld slash q) h post)"
    unfolding acr_regex_def rests_Seq rests_simps UN_iff using rests_StarI(1) by blast
  then show ?thesis by (rule find_matchI)
qed

text \<open>
  The digest of a blob is found. For every address of a container registry's data endpoint, of a
  Microsoft artifact registry endpoint or of an Azure blob endpoint, whatever follows the digest, the
  parser returns the digest that the address was built from.
\<close>

lemma ParseDigest_endpoint:
  assumes "endpoint_ok e (url_of e h post)" and "is_hash h"
  shows "ParseDigest (url_of e h post) = Inr (''sha256:'' @ h)"
proof -
  let ?url = "url_of e h post"
  have ne: "?url \<noteq> []" by (cases e) simp_all
  note cases = parseDigest_cases [OF ne, folded ParseDigest_def]
  have layer: "ParseDigest ?url = Inr (''sha256:'' @ h)"
    if "occurrences layer_path ?url = 1" "\<not> Contains ?url ''.azurecr.''" "?url = p @ layer_path @ xy @ ''/'' @ h @ ''/data'' @ post" "length xy = 2"
      and found: "find_match mar_regex ?url \<noteq> None \<or> find_match abs_regex ?url \<noteq> None" for p xy
  proof -
    have "find_match acr_regex ?url = None"
      using acr_match not_in_acr_query [OF that(2)] by (metis option.exhaust surj_pair)
    moreover have "capture cs 1 = h" if "find_match mar_regex ?url = Some (m, cs) \<or> find_match abs_regex ?url = Some (m, cs)" for m cs
      using layer_hash_unique [OF \<open>occurrences layer_path ?url = 1\<close> \<open>?url = _\<close> \<open>length xy = 2\<close> assms(2)] mar_match abs_match that by blast
    ultimately show ?thesis using found unfolding cases by (auto split: option.splits)
  qed
  show ?thesis
  proof (cases e)
    case (ACR reg tld slash q)
    obtain m cs where m: "find_match acr_regex ?url = Some (m, cs)" using acr_matches assms unfolding ACR by (metis option.exhaust surj_pair)
    obtain p q' where "?url = p @ ''&d=sha256:'' @ capture cs 1 @ q'" "is_hash (capture cs 1)"
      using acr_match [OF m] unfolding in_acr_query_def by blast
    moreover have "?url = (''https://'' @ reg @ ''.azurecr.'' @ tld @ (if slash then ''/'' else []) @ ''?'' @ q) @ ''&d=sha256:'' @ h @ post"
      by (simp add: ACR)
    moreover have "occurrences ''&d=sha256:'' ?url = 1" using assms(1) unfolding ACR by simp
    ultimately have "capture cs 1 @ q' = h @ post" using occurs_once(2) by blast
    then have "capture cs 1 = h" using assms(2) \<open>is_hash (capture cs 1)\<close> by (simp add: is_hash_def)
    then show ?thesis by (simp add: cases m)
  next
    case (MAR acct cont xy)
    show ?thesis
      by (rule layer [of "''https://'' @ acct @ ''.data.mcr.microsoft.com/'' @ cont" xy]) (use assms mar_matches in \<open>simp_all add: MAR\<close>)
  next
    case (ABS acct tld cont xy)
    show ?thesis
      by (rule layer [of "''https://'' @ acct @ ''.blob.'' @ tld @ ''/'' @ cont" xy]) (use assms abs_matches in \<open>simp_all add: ABS\<close>)
  qed
qed

definition demo_hash :: string where
  "demo_hash = concat (replicate 8 ''0123abcd'')"

theorem ParseDigest_sound_witness:
  "\<exists>h. (''sha256:'' @ demo_hash) = ''sha256:'' @ h \<and> is_hash h \<and>
    (in_acr_query (url_of (ACR ''r.x'' ''io'' True ''a=b'') demo_hash []) h \<or> in_layer_path (url_of (ACR ''r.x'' ''io'' True ''a=b'') demo_hash []) h)"
proof (rule ParseDigest_sound)
  show "ParseDigest (url_of (ACR ''r.x'' ''io'' True ''a=b'') demo_hash []) = Inr (''sha256:'' @ demo_hash)"
    by (rule ParseDigest_endpoint) code_simp+
qed

end
