(* ===== verification/Node.thy ===== *)
theory Node
  imports Files_Handler Url_Parser
begin

section \<open>The states of a node\<close>

text \<open>
  The files store over the file cache: every state that a node can reach by serving, reading,
  prefetching and evicting satisfies the invariant of the cache for the contents \<open>D\<close> of the files.
\<close>

text \<open>A segment as \<open>prefetch\<close> sends it: a chunk of a file, with a reader of this file.\<close>

definition seg_of :: "(string \<Rightarrow> bytes) \<Rightarrow> 'w prefetchableSegment \<Rightarrow> bool" where
  "seg_of D p \<longleftrightarrow> plain_seg (ps_name p) \<and> file_reader (ps_reader p) (D (ps_name p))
     \<and> 0 \<le> ps_offset p \<and> ps_offset p \<le> int (length (D (ps_name p))) \<and> in_int64 (ps_offset p)
     \<and> ps_count p = int (length (chunk_of (D (ps_name p)) (ps_offset p)))"

definition context_of :: "(string \<Rightarrow> bytes) \<Rightarrow> ('c, 'w) Files_Store.store \<Rightarrow> Context \<Rightarrow> bool" where
  "context_of D s c \<longleftrightarrow> (\<forall>a. file_of D (open_file s c (hd (Split (GetString c FileChunkCtxKey) FileChunkKeySep)) a))"

text \<open>
  The states of a node's cache: it starts with an empty directory; requests open files and read
  them, prefetch workers fetch segments, ristretto evicts, all in any order, with other calls of
  \<open>GetOrCreate\<close> and evictions in the windows of each call, and with any failures of the network and of
  the file system but one: no write stores only a part of its data and then fails (\<open>whole_faults\<close>). The
  readers of all these steps return the content of their file or an error (\<open>file_reader\<close>).
\<close>

inductive node_state :: "'w itself \<Rightarrow> (string \<Rightarrow> bytes) \<Rightarrow> 'c cacheState \<Rightarrow> bool"
  for T :: "'w itself" and D :: "string \<Rightarrow> bytes" where
  start: "\<lbrakk>New_cache rc fs = Some (cs_cache cs); fs_dir fs = []; fs_data fs = []; whole_faults fs;
     ristretto_ok rc holds; holds (rc_state rc) = {}; list_all (gaps_ok (\<lambda>n. chunk_of (D n))) (cs_gaps cs)\<rbrakk> \<Longrightarrow> node_state T D cs"
| opened: "\<lbrakk>node_state T D cs; st_cache s = fileCache_ops; context_of D s c;
     Open s c cs (w :: 'w) = Ret (r, job, cs', w')\<rbrakk> \<Longrightarrow> node_state T D cs'"
| read: "\<lbrakk>node_state T D cs; file_of D f; 0 \<le> off; off \<le> int (length (D (fl_Name f))); in_int64 (off + int (length buff));
     ReadAt fileCache_ops f buff off cs (w :: 'w) = Ret (r, f', cs', w')\<rbrakk> \<Longrightarrow> node_state T D cs'"
| prefetched: "\<lbrakk>node_state T D cs; st_cache s = fileCache_ops; seg_of D p;
     prefetch_step s p cs (w :: 'w) = Ret (k, cs', w')\<rbrakk> \<Longrightarrow> node_state T D cs'"
| evicted: "\<lbrakk>node_state T D cs; on_exit refs (cs_cache cs) = Ret c'\<rbrakk> \<Longrightarrow> node_state T D (cs\<lparr>cs_cache := c'\<rparr>)"

abbreviation node_ok :: "(string \<Rightarrow> bytes) \<Rightarrow> 'c cacheState \<Rightarrow> bool" where
  "node_ok D \<equiv> state_ok (\<lambda>n. chunk_of (D n)) (sizes_of D)"

lemma New_cache_meta: "New_cache rc fs = Some c \<Longrightarrow> fc_meta c = NewSyncMap 10000000"
  by (auto simp: New_cache_def split: prod.splits option.splits)

lemma start_ok:
  assumes "New_cache rc fs = Some (cs_cache cs)" and "fs_dir fs = []" and "fs_data fs = []" and "whole_faults fs"
    and "ristretto_ok rc holds" and "holds (rc_state rc) = {}" and "list_all (gaps_ok (\<lambda>n. chunk_of (D n))) (cs_gaps cs)"
  shows "node_ok D cs"
  using New_cache_ok [OF assms(1-6)] New_cache_meta [OF assms(1)] assms(7)
  by (simp add: state_ok_def sizes_ok_def NewSyncMap_def Get_def)

lemma Open_ok:
  assumes "node_ok D cs" and "st_cache s = fileCache_ops" and "context_of D s c"
    and "Open s c cs w = Ret (r, job, cs', w')"
  shows "node_ok D cs'"
proof -
  let ?t = "Split (GetString c FileChunkCtxKey) FileChunkKeySep"
  obtain ok cs1 where ex: "(if IsRequestFromAPeer c then cm_Exists (st_cache s) (?t ! 0) (fst (ParseInt (?t ! 1))) cs
      else (True, cs)) = (ok, cs1)" by (metis prod.exhaust)
  have ok1: "node_ok D cs1" using ex assms(1,2) fc.exists_inv by (auto split: if_splits)
  have f: "file_of D (open_file s c (?t ! 0) a)" for a
    using assms(3) by (simp add: context_of_def hd_conv_nth)
  show ?thesis
    using assms(4) ex ok1 fc.Fstat_ok [OF ok1 f] assms(2)
    by (auto simp: Open_def Let_def split: if_splits prod.splits)
qed

lemma prefetch_step_ok:
  assumes "node_ok D cs" and "st_cache s = fileCache_ops" and "seg_of D p"
    and "prefetch_step s p cs w = Ret (k, cs', w')"
  shows "node_ok D cs'"
proof -
  let ?f = "FetchFile (ps_reader p) (ps_name p) (ps_offset p) (ps_count p)"
  have fo: "fetch_ok (chunk_of (D (ps_name p)) (ps_offset p)) ?f"
    using assms(3) by (intro FetchFile_ok) (auto simp: seg_of_def)
  obtain x where "cm_GetOrCreate fileCache_ops (ps_name p) (ps_offset p) (ps_count p) ?f cs w = Ret (x, cs', w')"
    using assms(2,4) by (auto simp: prefetch_step_def split: option.splits)
  then show ?thesis
    using fc.get_inv [where E = "\<lambda>n. chunk_of (D n)", OF assms(1) _ _ fo] assms(3) by (auto simp: seg_of_def)
qed

lemma node_state_ok: "node_state T D cs \<Longrightarrow> node_ok D cs"
proof (induction rule: node_state.induct)
  case (start rc fs cs holds)
  then show ?case by (rule start_ok)
next
  case (opened cs s c w r job cs' w')
  then show ?case by (auto intro: Open_ok)
next
  case (read cs f off buff w r f' cs' w')
  then show ?case using fc.ReadAt_ok [of D cs f off buff w "fst r" "fst (snd r)" "snd (snd r)" f' cs' w'] by simp
next
  case (prefetched cs s p w k cs' w')
  then show ?case by (auto intro: prefetch_step_ok)
next
  case (evicted cs refs c')
  then have "core_ok (\<lambda>n. chunk_of (D n)) c' \<and> cache_step (cs_cache cs) c'"
    by (intro on_exit_ok) (auto simp: state_ok_def intro: cache_ok_core)
  with evicted.IH show ?case by (auto simp: state_ok_def cache_step_def intro: cache_ok_step [unfolded cache_step_def])
qed

text \<open>A node that has just started, and a file that is read through the mock of a reader.\<close>

definition demo_cs :: "(string \<times> nat) list cacheState" where
  "demo_cs = \<lparr>cs_gaps = [], cs_orders = [], cs_cache = empty_cache []\<rparr>"

definition demo_file :: "unit storeFile" where
  "demo_file = \<lparr>fl_Name = ''d'', fl_cur = 0, fl_size = 0, fl_statLocked = False, fl_chunkOffset = 0,
     fl_reader = NewMockReader [1, 2, 3, 4]\<rparr>"

lemma demo_node: "node_state T D demo_cs"
  by (rule node_state.start [OF _ _ _ _ keep_all_ok, of "empty_fs []"])
    (simp_all add: demo_cs_def New_cache_keep_all, simp_all add: empty_fs_def whole_faults_def keep_all_def)

lemma demo_file_of: "file_of (\<lambda>n. [1, 2, 3, 4]) demo_file"
  using mock.file_reader_axioms [of "[1, 2, 3, 4]"] by (simp add: file_of_def demo_file_def plain_seg_def in_int64_def)

lemma hash_plain: "is_hash h \<Longrightarrow> plain_seg (''sha256:'' @ h) \<and> CHR ''_'' \<notin> set (''sha256:'' @ h)"
proof -
  assume "is_hash h"
  then have "cls_alnum c" if "c \<in> set h" for c using that by (simp add: is_hash_def list_all_iff)
  moreover have "\<not> cls_alnum CHR ''_''" "\<not> cls_alnum CHR ''/''" by code_simp+
  ultimately show ?thesis by (auto simp: plain_seg_def)
qed

end
