(* ===== verification/Registry_Mirror.thy ===== *)
theory Registry_Mirror
  imports Network_Interface Gin_Writer
begin

section \<open>The registry mirror: \<open>src/pkg/discovery/content/registry/mirror.go\<close>\<close>

text \<open>
  Model of the handler that answers a container runtime from the peers. Router, network and metrics
  are the interface records over a world; \<open>conn\<close> is the connection to the runtime. The handler
  uses \<open>httputil.ReverseProxy\<close> of the standard library: what it does to the headers, when it calls
  the error handler (which only logs) and that a copy that breaks off panics with
  \<open>http.ErrAbortHandler\<close> is written out; protocol upgrades, trailers and the default user agent are
  left out. The list of events is what the \<open>select\<close> of the handler sees before its deadline, which is
  shorter the longer the attempts on slow peers take: a run in which the deadline passes during an attempt
  is the run with the list that ends there.
\<close>

subsection \<open>The reverse proxy\<close>

definition hopHeaders :: "string list" where
  "hopHeaders = [''Connection'', ''Proxy-Connection'', ''Keep-Alive'', ''Proxy-Authenticate'', ''Proxy-Authorization'', ''Te'',
     ''Trailer'', ''Transfer-Encoding'', ''Upgrade'']"

text \<open>The headers that a \<open>Connection\<close> header names, and the fixed ones, are for the next hop only.\<close>

definition connection_names :: "Header \<Rightarrow> string list" where
  "connection_names h =
     filter (\<lambda>s. s \<noteq> []) (map TrimString (concat (map (\<lambda>f. Split f CHR '','') (case map_of h ''Connection'' of None \<Rightarrow> [] | Some vs \<Rightarrow> vs))))"

definition removeHopByHopHeaders :: "Header \<Rightarrow> Header" where
  "removeHopByHopHeaders h = fold Header_Del (connection_names h @ hopHeaders) h"

definition add_forwarded_for :: "string option \<Rightarrow> Header \<Rightarrow> Header" where
  "add_forwarded_for clientIP h =
     (case clientIP of
        None \<Rightarrow> h
      | Some ip \<Rightarrow>
          Header_Set ''X-Forwarded-For''
            (case map_of h ''X-Forwarded-For'' of None \<Rightarrow> ip | Some [] \<Rightarrow> ip | Some prior \<Rightarrow> Join prior '', '' @ '', '' @ ip) h)"

definition copy_header_calls :: "Header \<Rightarrow> gin_call list" where
  "copy_header_calls h = concat (map (\<lambda>(k, vs). map (AddHeader k) vs) h)"

subsection \<open>The handler\<close>

record 'w Mirror =
  mi_resolveTimeout :: int64
  mi_router :: "'w Router"
  mi_resolveRetries :: int64
  mi_n :: "'w Network"
  mi_metricsRecorder :: "'w Metrics"

definition MirrorResolveRetries :: int64 where "MirrorResolveRetries = 3"
definition MirrorResolveTimeout :: int64 where "MirrorResolveTimeout = 1000"

definition New_mirror :: "'w Metrics \<Rightarrow> 'w Router \<Rightarrow> 'w Mirror" where
  "New_mirror metrics router = \<lparr>mi_resolveTimeout = MirrorResolveTimeout, mi_router = router,
     mi_resolveRetries = MirrorResolveRetries, mi_n = rt_Net router, mi_metricsRecorder = metrics\<rparr>"

text \<open>The request that goes out: the \<open>Director\<close>, then the headers of the reverse proxy.\<close>

definition outbound :: "string \<Rightarrow> string option \<Rightarrow> Context \<Rightarrow> URL \<Rightarrow> http_Request" where
  "outbound NodeName clientIP c u =
     \<lparr>hr_Method = req_Method (ctx_Request c),
      hr_URL = u\<lparr>u_Path := req_Path (ctx_Request c), u_RawQuery := req_RawQuery (ctx_Request c)\<rparr>,
      hr_Header = add_forwarded_for clientIP (removeHopByHopHeaders (SetOutboundHeaders NodeName c (req_Header (ctx_Request c))))\<rparr>"

text \<open>
  \<open>ServeHTTP\<close>: \<open>None\<close> when the error handler was called (\<open>ModifyResponse\<close> refuses a response other
  than 200), otherwise the calls on the writer, how it ends and the declared length.
\<close>

definition proxy_serve :: "writer \<Rightarrow> 'w http_client \<Rightarrow> http_Request \<Rightarrow> 'w \<Rightarrow> (handling \<times> int64) option \<times> 'w" where
  "proxy_serve conn transport req w =
     (case transport req w of
        (Inl e, w') \<Rightarrow> (None, w')
      | (Inr resp, w') \<Rightarrow>
          if hs_StatusCode resp \<noteq> 200 then (None, w')
          else
            (let (out, werr) = conn (hs_Body resp);
                 calls = copy_header_calls (removeHopByHopHeaders (hs_Header resp)) @ [SetStatus 200]
                   @ (if hs_Body resp = [] then [] else [Write out]);
                 err = (if hs_Body resp \<noteq> [] \<and> werr \<noteq> None then werr else hs_BodyErr resp)
             in (Some ((calls, if err = None then Ret () else Panic AbortHandler), hs_ContentLength resp), w')))"

fun mirror_loop :: "string \<Rightarrow> string option \<Rightarrow> writer \<Rightarrow> 'w Mirror \<Rightarrow> Context \<Rightarrow> string \<Rightarrow> nat \<Rightarrow> select_event list \<Rightarrow> 'w \<Rightarrow>
    handling \<times> 'w" where
  "mirror_loop NodeName clientIP conn m c key peerCount [] w = (([AbortWithError 404 (Errorf ''peer not found'')], Ret ()), w)"
| "mirror_loop NodeName clientIP conn m c key peerCount (Closed # events) w =
     (([AbortWithError 500 (Errorf ''peer resolution exhausted'')], Ret ()), w)"
| "mirror_loop NodeName clientIP conn m c key peerCount (Peer peer # events) w =
     (let w1 = (if peerCount = 0 then mt_RecordPeerDiscovery (mi_metricsRecorder m) (pi_HttpHost peer) w else w) in
      case url_Parse (pi_HttpHost peer) of
        Inl e \<Rightarrow> (([AbortWithError 500 e], Ret ()), w1)
      | Inr u \<Rightarrow>
          (case proxy_serve conn (nw_RoundTripperFor (mi_n m) (pi_ID peer)) (outbound NodeName clientIP c u) w1 of
             (None, w2) \<Rightarrow> mirror_loop NodeName clientIP conn m c key (if peerCount = 0 then 1 else peerCount) events w2
           | (Some ((calls, Ret x), count), w2) \<Rightarrow>
               ((calls, Ret x), mt_RecordPeerResponse (mi_metricsRecorder m) (pi_HttpHost peer) key ''pull'' count w2)
           | (Some ((calls, end), count), w2) \<Rightarrow> ((calls, end), w2)))"

definition Handle_mirror :: "string \<Rightarrow> string option \<Rightarrow> writer \<Rightarrow> 'w Mirror \<Rightarrow> Context \<Rightarrow> 'w \<Rightarrow> handling \<times> 'w" where
  "Handle_mirror NodeName clientIP conn m c w =
     (let key = (if GetString c DigestCtxKey = [] then GetString c ReferenceCtxKey else GetString c DigestCtxKey);
          calls1 = (if key = [] then [AbortWithError 500 (Errorf ''neither digest nor reference provided'')] else []);
          (r, w1) = rt_Resolve (mi_router m) (mi_resolveTimeout m) key False (mi_resolveRetries m) w;
          (calls2, events) = (case r of Inl e \<Rightarrow> ([AbortWithError 500 e], []) | Inr events \<Rightarrow> ([], events));
          ((calls3, end), w2) = mirror_loop NodeName clientIP conn m c key 0 events w1
      in ((calls1 @ calls2 @ calls3, end), w2))"

subsection \<open>What the runtime receives\<close>

lemma copy_header_calls_frame:
  assumes "\<not> rsp_written r"
  shows "\<not> rsp_written (fold gin_apply (copy_header_calls h) r) \<and> rsp_body (fold gin_apply (copy_header_calls h) r) = rsp_body r"
proof -
  have add: "\<not> rsp_written (fold gin_apply (map (AddHeader k) vs) r) \<and> rsp_body (fold gin_apply (map (AddHeader k) vs) r) = rsp_body r"
    if "\<not> rsp_written r" for k vs r
    using that by (induction vs arbitrary: r) (simp_all add: uncommitted_def)
  show ?thesis using assms
  proof (induction h arbitrary: r)
    case (Cons kv h)
    then show ?case using add [OF Cons.prems, of "fst kv" "snd kv"] by (simp add: copy_header_calls_def split_beta)
  qed (simp add: copy_header_calls_def)
qed

text \<open>A response that is relayed: status 200 and what the connection accepts of the body.\<close>

lemma proxy_serve_Some:
  assumes "proxy_serve conn transport req w = (Some ((calls, out), count), w')" and "writer_ok conn"
  obtains resp where "transport req w = (Inr resp, w')" and "hs_StatusCode resp = 200"
    and "rsp_status (respond calls) = 200" and "prefix (rsp_body (respond calls)) (hs_Body resp)"
    and "out = Ret () \<or> out = Panic AbortHandler"
    and "out = Ret () \<Longrightarrow> rsp_body (respond calls) = hs_Body resp \<and> hs_BodyErr resp = None"
proof -
  obtain resp where resp: "transport req w = (Inr resp, w')" "hs_StatusCode resp = 200"
    using assms(1) by (auto simp: proxy_serve_def Let_def split: prod.splits sum.splits if_splits)
  obtain b werr where b: "conn (hs_Body resp) = (b, werr)" by fastforce
  let ?hs = "copy_header_calls (removeHopByHopHeaders (hs_Header resp))"
  let ?err = "if hs_Body resp \<noteq> [] \<and> werr \<noteq> None then werr else hs_BodyErr resp"
  have calls: "calls = ?hs @ [SetStatus 200] @ (if hs_Body resp = [] then [] else [Write b])"
    and out: "out = (if ?err = None then Ret () else Panic AbortHandler)"
    using assms(1) resp b by (auto simp: proxy_serve_def Let_def)
  have frame: "\<not> rsp_written (respond ?hs)" "rsp_body (respond ?hs) = []"
    using copy_header_calls_frame [of new_response "removeHopByHopHeaders (hs_Header resp)"]
    by (simp_all add: respond_def new_response_def)
  have status: "rsp_status (respond calls) = 200"
    and body: "rsp_body (respond calls) = (if hs_Body resp = [] then [] else b)"
    unfolding calls respond_append using frame by (simp_all add: uncommitted_def)
  note ok = writer_okD [OF assms(2) b]
  show ?thesis
  proof (rule that [OF resp status])
    show "prefix (rsp_body (respond calls)) (hs_Body resp)" using ok body by simp
    show "out = Ret () \<or> out = Panic AbortHandler" by (simp add: out)
    show "rsp_body (respond calls) = hs_Body resp \<and> hs_BodyErr resp = None" if "out = Ret ()"
      using that ok body by (auto simp: out split: if_splits)
  qed
qed

definition relayed :: "string \<Rightarrow> string option \<Rightarrow> 'w Mirror \<Rightarrow> Context \<Rightarrow> select_event list \<Rightarrow> handling \<Rightarrow> bool" where
  "relayed NodeName clientIP m c events h \<longleftrightarrow>
     (\<exists>peer u resp w1 w2. Peer peer \<in> set events \<and> url_Parse (pi_HttpHost peer) = Inr u
        \<and> nw_RoundTripperFor (mi_n m) (pi_ID peer) (outbound NodeName clientIP c u) w1 = (Inr resp, w2)
        \<and> hs_StatusCode resp = 200 \<and> prefix (rsp_body (respond (fst h))) (hs_Body resp)
        \<and> (snd h = Ret () \<longrightarrow> rsp_body (respond (fst h)) = hs_Body resp \<and> hs_BodyErr resp = None))"

lemma mirror_loop_relays:
  assumes "writer_ok conn" and "mirror_loop NodeName clientIP conn m c key k events w = (h, w')"
    and "rsp_status (respond (fst h)) = 200"
  shows "relayed NodeName clientIP m c events h"
  using assms(2,3)
proof (induction events arbitrary: k w)
  case Nil
  then show ?case by (auto simp: respond_defs)
next
  case (Cons e events)
  show ?case
  proof (cases e)
    case Closed
    then show ?thesis using Cons.prems by (auto simp: respond_defs)
  next
    case (Peer peer)
    define w1 where "w1 = (if k = 0 then mt_RecordPeerDiscovery (mi_metricsRecorder m) (pi_HttpHost peer) w else w)"
    show ?thesis
    proof (cases "url_Parse (pi_HttpHost peer)")
      case (Inl err)
      then show ?thesis using Cons.prems Peer by (auto simp: respond_defs)
    next
      case (Inr u)
      let ?rt = "nw_RoundTripperFor (mi_n m) (pi_ID peer)" and ?req = "outbound NodeName clientIP c u"
      obtain r w2 where serve: "proxy_serve conn ?rt ?req w1 = (r, w2)" by fastforce
      note loop = Cons.prems(1) [unfolded Peer mirror_loop.simps Let_def w1_def [symmetric] Inr sum.case serve prod.case]
      show ?thesis
      proof (cases r)
        case None
        then show ?thesis using Cons.IH [of "if k = 0 then 1 else k" w2] loop Cons.prems(2) unfolding relayed_def
          by (simp split: if_splits) blast+
      next
        case (Some a)
        obtain calls out count where a: "a = ((calls, out), count)" by (metis surj_pair)
        have h: "h = (calls, out)" using loop by (cases out) (auto simp: Some a)
        have "Peer peer \<in> set (e # events)" by (simp add: Peer)
        with proxy_serve_Some [OF serve [unfolded Some a] assms(1)] Inr show ?thesis
          unfolding relayed_def h fst_conv snd_conv by metis
      qed
    qed
  qed
qed

definition mirror_key :: "Context \<Rightarrow> string" where
  "mirror_key c = (if GetString c DigestCtxKey = [] then GetString c ReferenceCtxKey else GetString c DigestCtxKey)"

lemma respond_abort_first: "rsp_status (respond (AbortWithError code e # calls)) = code"
proof -
  have "rsp_written (respond [AbortWithError code e])" and "rsp_status (respond [AbortWithError code e]) = code"
    by (simp_all add: respond_defs)
  with respond_committed(1) [of "[AbortWithError code e]" calls] show ?thesis by simp
qed

lemma Handle_mirror_eq:
  "Handle_mirror NodeName clientIP conn m c w =
     (case rt_Resolve (mi_router m) (mi_resolveTimeout m) (mirror_key c) False (mi_resolveRetries m) w of
        (r, w1) \<Rightarrow>
          (case mirror_loop NodeName clientIP conn m c (mirror_key c) 0 (case r of Inl e \<Rightarrow> [] | Inr events \<Rightarrow> events) w1 of
             ((calls, end), w2) \<Rightarrow>
               (((if mirror_key c = [] then [AbortWithError 500 (Errorf ''neither digest nor reference provided'')] else [])
                  @ (case r of Inl e \<Rightarrow> [AbortWithError 500 e] | Inr events \<Rightarrow> []) @ calls, end), w2)))"
  by (simp add: Handle_mirror_def mirror_key_def Let_def split: prod.splits sum.splits)

text \<open>
  A runtime that is answered with status 200 receives a peer's content. The handler then had a
  digest or reference to resolve, the router delivered the peer, the peer answered the forwarded
  request with 200, and the body is the peer's, or a beginning of it when the copy broke off, in
  which case the handler panics.
\<close>

lemma mirror_relays:
  assumes "writer_ok conn" and "Handle_mirror NodeName clientIP conn m c w = (h, w')"
    and "rsp_status (respond (fst h)) = 200"
  shows "mirror_key c \<noteq> [] \<and> (\<exists>events w1.
    rt_Resolve (mi_router m) (mi_resolveTimeout m) (mirror_key c) False (mi_resolveRetries m) w = (Inr events, w1)
    \<and> relayed NodeName clientIP m c events h)"
proof -
  obtain r w1 where r: "rt_Resolve (mi_router m) (mi_resolveTimeout m) (mirror_key c) False (mi_resolveRetries m) w = (r, w1)"
    by fastforce
  obtain calls out w2 where
    loop: "mirror_loop NodeName clientIP conn m c (mirror_key c) 0 (case r of Inl e \<Rightarrow> [] | Inr events \<Rightarrow> events) w1 = ((calls, out), w2)"
    by (metis surj_pair)
  note h = assms(2) [unfolded Handle_mirror_eq r loop prod.case]
  have key: "mirror_key c \<noteq> []" using assms(3) h respond_abort_first by fastforce
  moreover obtain events where ev: "r = Inr events" using assms(3) h key respond_abort_first by (cases r) fastforce+
  ultimately have "h = (calls, out)" using h by simp
  with mirror_loop_relays [OF assms(1) loop] assms(3) ev key r show ?thesis by simp
qed

lemma mirror_loop_skips:
  assumes "\<And>p. p \<in> set bad \<Longrightarrow> \<exists>u. url_Parse (pi_HttpHost p) = Inr u \<and>
      (\<forall>w r w'. nw_RoundTripperFor (mi_n m) (pi_ID p) (outbound NodeName clientIP c u) w = (Inr r, w') \<longrightarrow> hs_StatusCode r \<noteq> 200)"
  shows "\<exists>k' w'. mirror_loop NodeName clientIP conn m c key k (map Peer bad @ events) w =
      mirror_loop NodeName clientIP conn m c key k' events w'"
  using assms
proof (induction bad arbitrary: k w)
  case (Cons p bad)
  obtain u where u: "url_Parse (pi_HttpHost p) = Inr u" and refuse: "\<And>w r w'. nw_RoundTripperFor (mi_n m) (pi_ID p)
      (outbound NodeName clientIP c u) w = (Inr r, w') \<Longrightarrow> hs_StatusCode r \<noteq> 200"
    using Cons.prems [of p] by auto
  have none: "\<exists>w'. proxy_serve conn (nw_RoundTripperFor (mi_n m) (pi_ID p)) (outbound NodeName clientIP c u) v = (None, w')" for v
    using refuse [of v] by (auto simp: proxy_serve_def split: prod.splits sum.splits)
  define w1 where "w1 = (if k = 0 then mt_RecordPeerDiscovery (mi_metricsRecorder m) (pi_HttpHost p) w else w)"
  obtain w2 where "proxy_serve conn (nw_RoundTripperFor (mi_n m) (pi_ID p)) (outbound NodeName clientIP c u) w1 = (None, w2)"
    using none by blast
  then have "mirror_loop NodeName clientIP conn m c key k (map Peer (p # bad) @ events) w =
      mirror_loop NodeName clientIP conn m c key (if k = 0 then 1 else k) (map Peer bad @ events) w2"
    by (simp add: u Let_def w1_def [symmetric] del: One_nat_def)
  then show ?case using Cons.IH [of "if k = 0 then 1 else k" w2] Cons.prems by auto
qed auto

text \<open>
  The mirror tries the peers in the order in which they are found. Peers that cannot be reached
  or that answer with another status are passed over without a trace in the response, and the first
  peer that answers 200 is relayed in full; the remaining ones are not asked.
\<close>

lemma Handle_mirror_first_good:
  assumes "mirror_key c \<noteq> []"
    and "rt_Resolve (mi_router m) (mi_resolveTimeout m) (mirror_key c) False (mi_resolveRetries m) w =
      (Inr (map Peer bad @ Peer good # rest), w1)"
    and "\<And>p. p \<in> set bad \<Longrightarrow> \<exists>u. url_Parse (pi_HttpHost p) = Inr u \<and>
      (\<forall>w r w'. nw_RoundTripperFor (mi_n m) (pi_ID p) (outbound NodeName clientIP c u) w = (Inr r, w') \<longrightarrow> hs_StatusCode r \<noteq> 200)"
    and "url_Parse (pi_HttpHost good) = Inr u"
    and "\<And>w. fst (nw_RoundTripperFor (mi_n m) (pi_ID good) (outbound NodeName clientIP c u) w) = Inr resp"
    and "hs_StatusCode resp = 200" and "hs_BodyErr resp = None" and "conn (hs_Body resp) = (hs_Body resp, None)"
  shows "\<exists>calls w'. Handle_mirror NodeName clientIP conn m c w = ((calls, Ret ()), w')
    \<and> rsp_status (respond calls) = 200 \<and> rsp_body (respond calls) = hs_Body resp"
proof -
  obtain k w2 where skip: "mirror_loop NodeName clientIP conn m c (mirror_key c) 0 (map Peer bad @ Peer good # rest) w1 =
      mirror_loop NodeName clientIP conn m c (mirror_key c) k (Peer good # rest) w2"
    using mirror_loop_skips [OF assms(3)] by blast
  let ?rt = "nw_RoundTripperFor (mi_n m) (pi_ID good)" and ?req = "outbound NodeName clientIP c u"
  let ?calls = "copy_header_calls (removeHopByHopHeaders (hs_Header resp)) @ [SetStatus 200] @ (if hs_Body resp = [] then [] else [Write (hs_Body resp)])"
  define w3 where "w3 = (if k = 0 then mt_RecordPeerDiscovery (mi_metricsRecorder m) (pi_HttpHost good) w2 else w2)"
  obtain w4 where rt: "?rt ?req w3 = (Inr resp, w4)" using assms(5) [of w3] by (metis prod.collapse)
  have serve: "proxy_serve conn ?rt ?req w3 = (Some ((?calls, Ret ()), hs_ContentLength resp), w4)"
    by (simp add: proxy_serve_def rt assms(6-8))
  have "\<exists>w'. Handle_mirror NodeName clientIP conn m c w = ((?calls, Ret ()), w')"
    using assms(1,4) by (simp add: Handle_mirror_eq assms(2) skip w3_def [symmetric] serve)
  moreover have "rsp_status (respond ?calls) = 200 \<and> rsp_body (respond ?calls) = hs_Body resp"
    using copy_header_calls_frame [of new_response "removeHopByHopHeaders (hs_Header resp)"]
    by (simp add: respond_append uncommitted_def) (simp add: respond_def new_response_def)
  ultimately show ?thesis by blast
qed

definition answering :: "int64 \<Rightarrow> bytes \<Rightarrow> unit http_client" where
  "answering code b = (\<lambda>req w. (Inr \<lparr>hs_StatusCode = code, hs_ContentLength = int (length b), hs_Header = [], hs_Body = b, hs_BodyErr = None\<rparr>, w))"

definition demo_peer :: "string \<Rightarrow> PeerInfo" where
  "demo_peer n = \<lparr>pi_ID = n, pi_HttpHost = ''https://10.0.0.1:5001''\<rparr>"

definition demo_mirror :: "unit Mirror" where
  "demo_mirror = New_mirror \<lparr>mt_RecordRequest = (\<lambda>_ _ w. w), mt_RecordPeerDiscovery = (\<lambda>_ w. w),
       mt_RecordPeerResponse = (\<lambda>_ _ _ _ w. w), mt_RecordUpstreamResponse = (\<lambda>_ _ _ _ w. w)\<rparr>
     \<lparr>rt_Net = \<lparr>nw_HTTPClientFor = (\<lambda>p. answering 404 []), nw_RoundTripperFor = (\<lambda>p. if p = ''good'' then answering 200 [7, 8] else answering 404 [])\<rparr>,
      rt_Resolve = (\<lambda>_ _ _ _ w. (Inr [Peer (demo_peer ''bad''), Peer (demo_peer ''good''), Closed], w)),
      rt_ResolveWithNegativeCacheCallback = (\<lambda>_ _ _ _ w. (Inl EOF, w)), rt_Provide = (\<lambda>_ w. (None, w))\<rparr>"

definition mirror_context :: Context where
  "mirror_context = \<lparr>ctx_Request = \<lparr>req_Method = ''GET'', req_Path = ''/v2/r/blobs/sha256:d'', req_RawQuery = [], req_Header = []\<rparr>,
     ctx_Params = [], ctx_Query = [], ctx_Keys = [(DigestCtxKey, CtxString ''sha256:d'')]\<rparr>"

lemma mirror_key_demo: "mirror_key mirror_context = ''sha256:d''"
  by (simp add: mirror_key_def mirror_context_def GetString_def ctx_Get_def)

lemma demo_peer_url: "url_Parse (pi_HttpHost (demo_peer n)) = Inr (empty_URL\<lparr>u_Scheme := ''https'', u_Host := ''10.0.0.1:5001''\<rparr>)"
  unfolding demo_peer_def by simp code_simp

lemma demo_mirror_simps [simp]:
  "rt_Resolve (mi_router demo_mirror) t k s n w = (Inr [Peer (demo_peer ''bad''), Peer (demo_peer ''good''), Closed], w)"
  "nw_RoundTripperFor (mi_n demo_mirror) p = (if p = ''good'' then answering 200 [7, 8] else answering 404 [])"
  by (simp_all add: demo_mirror_def New_mirror_def)

lemma fold_Header_Del:
  "Header_Get (fold Header_Del ks h) k = (if CanonicalHeaderKey k \<in> set (map CanonicalHeaderKey ks) then [] else Header_Get h k)"
proof (induction ks arbitrary: h)
  case (Cons k' ks)
  have "map_of (Header_Del k' h) (CanonicalHeaderKey k) =
      (if CanonicalHeaderKey k = CanonicalHeaderKey k' then None else map_of h (CanonicalHeaderKey k))"
    by (simp add: Header_Del_def delete_conv')
  then show ?case using Cons.IH [of "Header_Del k' h"] by (auto simp: Header_Get_def)
qed simp

lemma connection_names_Set: "CanonicalHeaderKey k \<noteq> ''Connection'' \<Longrightarrow> connection_names (Header_Set k v h) = connection_names h"
  by (simp add: connection_names_def Header_Set_def update_conv')

lemma hopHeaders_canonical: "map CanonicalHeaderKey hopHeaders = hopHeaders"
  and forwarded_canonical: "CanonicalHeaderKey ''X-Forwarded-For'' = ''X-Forwarded-For''"
  by code_simp+

lemma outbound_mark:
  "Header_Get (hr_Header (outbound NodeName clientIP c u)) P2PHeaderKey =
    (if CanonicalHeaderKey P2PHeaderKey \<in> set (map CanonicalHeaderKey (connection_names (req_Header (ctx_Request c))))
     then [] else ''true'')"
proof -
  have *: "Header_Get (add_forwarded_for clientIP h) P2PHeaderKey = Header_Get h P2PHeaderKey" for h
    by (simp add: add_forwarded_for_def Header_Get_Set forwarded_canonical header_keys_canonical split: option.split)
  have "CanonicalHeaderKey P2PHeaderKey \<notin> set (map CanonicalHeaderKey hopHeaders)"
    unfolding hopHeaders_canonical header_keys_canonical by (simp add: hopHeaders_def)
  then show ?thesis
    by (simp add: outbound_def * removeHopByHopHeaders_def fold_Header_Del SetOutboundHeaders_def connection_names_Set
        Header_Get_Set header_keys_canonical)
qed

text \<open>
  C35: the mark of a request between peers. The forwarded request carries the header by which a peer
  recognises it and answers from its own content only, except when the runtime's request names this
  header in \<open>Connection\<close>: the reverse proxy removes such headers after the mirror has set the mark.
\<close>

theorem mirror_request_mark:
  "Header_Get (hr_Header (outbound NodeName clientIP c u)) P2PHeaderKey =
    (if CanonicalHeaderKey P2PHeaderKey \<in> set (map CanonicalHeaderKey (connection_names (req_Header (ctx_Request c))))
     then [] else ''true'')"
  by (rule outbound_mark)

text \<open>
  Failures. Without a digest or reference, and when the router fails, the runtime is answered
  500 (although the handler goes on resolving); when every peer that is found before the deadline
  fails, it is answered 404; when the channel is closed after them, 500.
\<close>

theorem mirror_failures:
  assumes "rt_Resolve (mi_router m) (mi_resolveTimeout m) (mirror_key c) False (mi_resolveRetries m) w = (r, w1)"
    and "Handle_mirror NodeName clientIP conn m c w = ((calls, out), w')"
    and "\<And>p. p \<in> set bad \<Longrightarrow> \<exists>u. url_Parse (pi_HttpHost p) = Inr u \<and>
      (\<forall>w r w'. nw_RoundTripperFor (mi_n m) (pi_ID p) (outbound NodeName clientIP c u) w = (Inr r, w') \<longrightarrow> hs_StatusCode r \<noteq> 200)"
  shows "(mirror_key c = [] \<or> (\<exists>e. r = Inl e) \<longrightarrow> rsp_status (respond calls) = 500)
    \<and> (mirror_key c \<noteq> [] \<and> r = Inr (map Peer bad) \<longrightarrow> rsp_status (respond calls) = 404 \<and> out = Ret ())
    \<and> (mirror_key c \<noteq> [] \<and> r = Inr (map Peer bad @ [Closed]) \<longrightarrow> rsp_status (respond calls) = 500 \<and> out = Ret ())"
proof -
  have skip: "\<exists>k' v'. mirror_loop NodeName clientIP conn m c (mirror_key c) 0 (map Peer bad @ events) w1 =
      mirror_loop NodeName clientIP conn m c (mirror_key c) k' events v'" for events
    by (rule mirror_loop_skips [OF assms(3)])
  note eq = assms(2) [unfolded Handle_mirror_eq assms(1) prod.case]
  have "rsp_status (respond calls) = 500" if "mirror_key c = [] \<or> (\<exists>e. r = Inl e)"
    using that eq by (auto split: prod.splits sum.splits simp: respond_abort_first)
  moreover have "rsp_status (respond calls) = 404 \<and> out = Ret ()" if "mirror_key c \<noteq> []" and "r = Inr (map Peer bad)"
    using that eq skip [of "[]"] by (auto simp: respond_defs)
  moreover have "rsp_status (respond calls) = 500 \<and> out = Ret ()" if "mirror_key c \<noteq> []" and "r = Inr (map Peer bad @ [Closed])"
    using that eq skip [of "[Closed]"] by (auto simp: respond_defs)
  ultimately show ?thesis by blast
qed

theorem mirror_failures_witness:
  "rsp_status (respond (fst (fst (Handle_mirror ''n'' None (\<lambda>b. (b, None)) demo_mirror (mirror_context\<lparr>ctx_Keys := []\<rparr>) ())))) = 500"
proof -
  have "mirror_key (mirror_context\<lparr>ctx_Keys := []\<rparr>) = []" by (simp add: mirror_key_def GetString_def ctx_Get_def)
  then show ?thesis
    using mirror_failures [of demo_mirror "mirror_context\<lparr>ctx_Keys := []\<rparr>" "()" _ _ "''n''" None "\<lambda>b. (b, None)" _ _ _ "[]", OF demo_mirror_simps(1)]
    by (metis list.set(1) empty_iff surj_pair fst_conv)
qed

end
