(* ===== verification/Containerd_Reference.thy ===== *)
theory Containerd_Reference
  imports Go_Url
begin

section \<open>Image references: \<open>src/pkg/containerd/reference.go\<close>\<close>

text \<open>
  Model of \<open>Reference\<close> and of its parser. \<open>ParseReference\<close> parses the name as the rest of a URL with
  the scheme \<open>localhost\<close>, cuts tag and digest off the path, and checks them against the digest that
  containerd reports. The lemmas show what a parsed reference satisfies, and that names of the forms
  \<open>host/repository:tag\<close> and \<open>host/repository@digest\<close> are parsed into their parts and printed back.
\<close>

record reference =
  ref_name :: string
  ref_dgst :: string
  ref_tag :: string
  ref_repo :: string
  ref_host :: string

definition ref_String :: "reference \<Rightarrow> string" where
  "ref_String r =
     (if ref_tag r \<noteq> [] then ref_host r @ ''/'' @ ref_repo r @ '':'' @ ref_tag r
      else ref_host r @ ''/'' @ ref_repo r @ ''@'' @ ref_dgst r)"

definition splitTagAndDigest :: "string \<Rightarrow> string \<times> string" where
  "splitTagAndDigest obj =
     (case SplitAfter2 obj CHR ''@'' of p0 # p1 # _ \<Rightarrow> (p0, p1) | [p0] \<Rightarrow> (p0, []) | [] \<Rightarrow> ([], []))"

definition is_separator :: "char \<Rightarrow> bool" where
  "is_separator c \<longleftrightarrow> c = CHR '':'' \<or> c = CHR ''@''"

text \<open>The path up to the first separator, and the object after it (a colon is dropped, an \<open>@\<close> is kept).\<close>

definition cut_object :: "string \<Rightarrow> string \<times> string" where
  "cut_object path =
     (let obj = dropWhile (\<lambda>c. \<not> is_separator c) path
      in (takeWhile (\<lambda>c. \<not> is_separator c) path,
          if obj \<noteq> [] \<and> hd obj = CHR '':'' then tl obj else obj))"

definition ParseReference :: "string \<Rightarrow> string \<Rightarrow> reference result" where
  "ParseReference name targetDigest =
     (if Contains name ''://'' then Inl (Errorf ''invalid reference'')
      else (case url_Parse (''localhost://'' @ name) of
        Inl e \<Rightarrow> Inl e
      | Inr u \<Rightarrow>
          if u_Scheme u \<noteq> ''localhost'' then Inl (Errorf ''invalid reference'')
          else if u_Host u = [] then Inl (Errorf ''hostname required'')
          else
            (let (path, obj) = cut_object (u_Path u);
                 (tag0, dgst0) = splitTagAndDigest obj;
                 tag = fst (Cut tag0 CHR ''@'');
                 repository = TrimPrefix path ''/'';
                 dgst = (if dgst0 = [] then targetDigest else dgst0)
             in if targetDigest \<noteq> [] \<and> dgst \<noteq> targetDigest
                then Inl (Errorf ''invalid digest, target does not match parsed digest'')
                else if repository = [] then Inl (Errorf ''invalid repository'')
                else if dgst = [] then Inl (Errorf ''invalid digest'')
                else Inr \<lparr>ref_name = name, ref_dgst = dgst, ref_tag = tag, ref_repo = repository, ref_host = u_Host u\<rparr>)))"

subsection \<open>Properties\<close>

lemma ParseReference_complete:
  assumes "ParseReference name target = Inr r"
  shows "ref_name r = name \<and> ref_host r \<noteq> [] \<and> ref_repo r \<noteq> [] \<and> ref_dgst r \<noteq> []
    \<and> (target \<noteq> [] \<longrightarrow> ref_dgst r = target)"
  using assms by (auto simp: ParseReference_def Let_def split: if_splits sum.splits prod.splits)

lemma SplitAfter2_absent: "sep \<notin> set s \<Longrightarrow> SplitAfter2 s sep = [s]"
  by (induction s) auto

lemma cut_object_sep:
  assumes "\<And>c. c \<in> set p \<Longrightarrow> \<not> is_separator c" and "is_separator c"
  shows "cut_object (p @ c # s) = (p, if c = CHR '':'' then s else c # s)"
  using assms by (simp add: cut_object_def takeWhile_append dropWhile_append takeWhile_eq_all_conv Let_def)

text \<open>What host, repository and tag may contain so that the name is taken literally.\<close>

definition plain_name :: "string \<Rightarrow> bool" where
  "plain_name s \<longleftrightarrow> s \<noteq> [] \<and> list_all (\<lambda>c. is_alpha c \<or> is_digit c \<or> c \<in> set ''._-/'') s"

lemma plain_nameD:
  assumes "plain_name s"
  shows "CHR ''?'' \<notin> set s" "CHR ''#'' \<notin> set s" "CHR 37 \<notin> set s" "\<not> list_ex is_ctl s" "CHR ''@'' \<notin> set s" "CHR '':'' \<notin> set s"
    "s \<noteq> []"
  using assms by (auto simp: plain_name_def list_all_iff list_ex_iff is_alpha_def is_digit_def is_ctl_def)

lemma lower_localhost: "map ascii_lower ''localhost'' = ''localhost''" "list_all is_alpha ''localhost''" "\<not> list_ex is_ctl ''localhost''"
  by code_simp+

lemma url_Parse_name:
  assumes "parseAuthority h = Inr (usr, h)" and "plain_name repo" and "set h \<inter> set ''/?#'' = {}" and "\<not> list_ex is_ctl h"
    and "set obj \<inter> {CHR ''?'', CHR ''#'', CHR 37} = {}" and "\<not> list_ex is_ctl obj"
  shows "url_Parse (''localhost://'' @ h @ ''/'' @ repo @ obj) =
    Inr (empty_URL\<lparr>u_Scheme := ''localhost'', u_User := usr, u_Host := h, u_Path := ''/'' @ repo @ obj\<rparr>)"
  using url_Parse_plain [of "''localhost''" h usr h "''/'' @ repo @ obj"] assms plain_nameD [OF assms(2)] lower_localhost
  by (auto simp: is_ctl_def)

lemma cut_object_name:
  assumes "plain_name repo"
  shows "cut_object (''/'' @ repo @ CHR '':'' # s) = (CHR ''/'' # repo, s)"
    and "cut_object (''/'' @ repo @ CHR ''@'' # s) = (CHR ''/'' # repo, CHR ''@'' # s)"
  using cut_object_sep [of "CHR ''/'' # repo" "CHR '':''" s] cut_object_sep [of "CHR ''/'' # repo" "CHR ''@''" s]
    plain_nameD(5,6) [OF assms] by (auto simp: is_separator_def)

text \<open>
  C21: names are parsed into their parts and printed back. For a host (with or without a port), a
  repository and a tag of the usual characters, \<open>host/repository:tag\<close> with the digest that containerd
  reports, and \<open>host/repository@digest\<close> with no digest or the same one, give a reference with exactly
  these parts, whose string is the name; a digest that differs from the reported one is refused.
\<close>

theorem ParseReference_roundtrip:
  assumes "parseAuthority h = Inr (None, h)" and "h \<noteq> []" and "set h \<inter> set ''/?#'' = {}" and "\<not> list_ex is_ctl h"
    and "plain_name repo" and "plain_name tag" and "plain_name hex" and "d \<noteq> []"
    and "\<not> Contains (h @ ''/'' @ repo @ '':'' @ tag) ''://''" and "\<not> Contains (h @ ''/'' @ repo @ ''@sha256:'' @ hex) ''://''"
  shows "(\<exists>r. ParseReference (h @ ''/'' @ repo @ '':'' @ tag) d = Inr r \<and> ref_host r = h \<and> ref_repo r = repo
      \<and> ref_tag r = tag \<and> ref_dgst r = d \<and> ref_String r = h @ ''/'' @ repo @ '':'' @ tag)
    \<and> (\<exists>r. ParseReference (h @ ''/'' @ repo @ ''@sha256:'' @ hex) [] = Inr r \<and> ref_host r = h \<and> ref_repo r = repo
      \<and> ref_tag r = [] \<and> ref_dgst r = ''sha256:'' @ hex \<and> ref_String r = h @ ''/'' @ repo @ ''@sha256:'' @ hex)
    \<and> ParseReference (h @ ''/'' @ repo @ ''@sha256:'' @ hex) (''sha256:'' @ hex)
      = ParseReference (h @ ''/'' @ repo @ ''@sha256:'' @ hex) []
    \<and> (d \<noteq> ''sha256:'' @ hex \<longrightarrow> (\<exists>e. ParseReference (h @ ''/'' @ repo @ ''@sha256:'' @ hex) d = Inl e))"
proof -
  have tag: "SplitAfter2 tag CHR ''@'' = [tag]" "Cut tag CHR ''@'' = (tag, [], False)"
    using plain_nameD(5) [OF assms(6)] by (simp_all add: SplitAfter2_absent Cut_absent)
  have u1: "url_Parse (''localhost://'' @ h @ ''/'' @ repo @ '':'' @ tag) =
      Inr (empty_URL\<lparr>u_Scheme := ''localhost'', u_User := None, u_Host := h, u_Path := ''/'' @ repo @ '':'' @ tag\<rparr>)"
    using assms(1,3-5) plain_nameD [OF assms(6)] by (intro url_Parse_name) (auto simp: is_ctl_def)
  have u2: "url_Parse (''localhost://'' @ h @ ''/'' @ repo @ ''@sha256:'' @ hex) =
      Inr (empty_URL\<lparr>u_Scheme := ''localhost'', u_User := None, u_Host := h, u_Path := ''/'' @ repo @ ''@sha256:'' @ hex\<rparr>)"
    using assms(1,3-5) plain_nameD [OF assms(7)] by (intro url_Parse_name) (auto simp: is_ctl_def)
  have p1: "ParseReference (h @ ''/'' @ repo @ '':'' @ tag) d =
      Inr \<lparr>ref_name = h @ ''/'' @ repo @ '':'' @ tag, ref_dgst = d, ref_tag = tag, ref_repo = repo, ref_host = h\<rparr>"
    using u1 assms(2,8,9) cut_object_name(1) [OF assms(5), of tag] tag plain_nameD(7) [OF assms(5)]
    by (simp add: ParseReference_def splitTagAndDigest_def TrimPrefix_def HasPrefix_def Let_def)
  have p2: "ParseReference (h @ ''/'' @ repo @ ''@sha256:'' @ hex) t =
      (if t \<noteq> [] \<and> t \<noteq> ''sha256:'' @ hex then Inl (Errorf ''invalid digest, target does not match parsed digest'')
       else Inr \<lparr>ref_name = h @ ''/'' @ repo @ ''@sha256:'' @ hex, ref_dgst = ''sha256:'' @ hex, ref_tag = [],
         ref_repo = repo, ref_host = h\<rparr>)" for t
    using u2 assms(2,10) cut_object_name(2) [OF assms(5), of "''sha256:'' @ hex"] plain_nameD(7) [OF assms(5)]
    by (auto simp: ParseReference_def splitTagAndDigest_def TrimPrefix_def HasPrefix_def Let_def)
  show ?thesis
    unfolding p1 p2 using plain_nameD(7) [OF assms(6)] assms(8) by (auto simp: ref_String_def)
qed

theorem ParseReference_roundtrip_witness:
  "\<exists>r. ParseReference ''docker.io/library/ubuntu:latest'' ''sha256:d'' = Inr r \<and> ref_repo r = ''library/ubuntu''
    \<and> ref_tag r = ''latest'' \<and> ref_String r = ''docker.io/library/ubuntu:latest''"
proof -
  have a: "parseAuthority ''docker.io'' = Inr (None, ''docker.io'')" "plain_name ''library/ubuntu''" "plain_name ''latest''"
      "plain_name ''ab''" "\<not> list_ex is_ctl ''docker.io''"
    by code_simp+
  show ?thesis
    using ParseReference_roundtrip [OF a(1) _ _ a(5) a(2,3,4), of "''sha256:d''"] by (auto simp: HasPrefix_def)
qed

end
