(* ===== verification/Containerd_Store.thy ===== *)
theory Containerd_Store
  imports Containerd_Reference
begin

section \<open>The containerd content store: \<open>src/pkg/containerd/store.go\<close> and \<open>mock.go\<close>\<close>

text \<open>
  The Go interface \<open>Store\<close> is a record of methods; \<open>store\<close> implements it over a containerd client and
  \<open>MockContainerdStore\<close> over a list of references. The client (images, content, platform matching),
  the decoding of OCI documents and \<open>images.Walk\<close> belong to containerd and the image specification:
  they are fields of the client record. The client is a snapshot, so the methods are functions; a
  subscription turns what containerd delivers on its channels of events and of errors, in the order
  of delivery, into what arrives on the channel of errors (\<open>Inl\<close>) and of references (\<open>Inr\<close>).
\<close>

subsection \<open>The client\<close>

record 'p Descriptor =
  de_MediaType :: string
  de_Digest :: string
  de_Platform :: "'p option"

record Image =
  im_Name :: string
  im_Digest :: string

datatype image_event = ImageCreate string | ImageUpdate string | OtherEvent string | BadEvent string

type_synonym ('p, 's) walk_handler = "'p Descriptor \<Rightarrow> 's \<Rightarrow> ('p Descriptor list result \<times> 's) outcome"

record ('p, 's) Client =
  cl_IsServing :: "bool result"
  cl_GetImage :: "string \<Rightarrow> Image result"
  cl_ListImages :: "string \<Rightarrow> Image list result"
  cl_ImageTarget :: "string \<Rightarrow> 'p Descriptor result"
  cl_Info :: "string \<Rightarrow> int64 result"
  cl_ReadBlob :: "string \<Rightarrow> bytes result"
  cl_Reader :: "string \<Rightarrow> (bytes \<times> go_error option) result"
  cl_UnmarshalIndex :: "bytes \<Rightarrow> 'p Descriptor list result"
  cl_UnmarshalManifest :: "bytes \<Rightarrow> (string \<times> string list) result"
  cl_UnmarshalVersioned :: "bytes \<Rightarrow> string result"
  cl_Match :: "'p \<Rightarrow> bool"
  cl_Less :: "'p \<Rightarrow> 'p \<Rightarrow> bool"
  cl_Walk :: "('p, 's) walk_handler \<Rightarrow> 'p Descriptor \<Rightarrow> 's \<Rightarrow> (go_error option \<times> 's) outcome"

text \<open>The keys that \<open>All\<close> collects are the state of the walk.\<close>

type_synonym 'p client = "('p, string list) Client"

record 'p store =
  cs_client :: "'p client"
  cs_listFilter :: string
  cs_eventFilter :: string

subsection \<open>The interface\<close>

text \<open>
  \<open>Write\<close> copies to a writer: it returns what the writer has accepted (\<open>None\<close> when nothing was written,
  not even an empty slice) and the error.
\<close>

record Store =
  sm_Subscribe :: "(go_error + image_event) list \<Rightarrow> (go_error + reference) list"
  sm_List :: "reference list result"
  sm_Resolve :: "string \<Rightarrow> string result"
  sm_Size :: "string \<Rightarrow> int64 result"
  sm_Bytes :: "string \<Rightarrow> (bytes \<times> string) result"
  sm_Write :: "writer \<Rightarrow> string \<Rightarrow> bytes option \<times> go_error option"
  sm_Verify :: "go_error option"
  sm_All :: "reference \<Rightarrow> string list result outcome"

subsection \<open>Filters\<close>

definition add_scheme :: "string \<Rightarrow> string" where
  "add_scheme host = (if \<not> HasPrefix host ''http://'' \<and> \<not> HasPrefix host ''https://'' then ''http://'' @ host else host)"

definition getHostNames :: "string list \<Rightarrow> string list" where
  "getHostNames hosts =
     map (\<lambda>host. case url_Parse (add_scheme host) of Inl e \<Rightarrow> add_scheme host | Inr u \<Rightarrow> u_Host u) hosts"

definition quote :: string where "quote = [CHR 34]"

definition getListFilter :: "string list \<Rightarrow> string" where
  "getListFilter hosts = ''name~='' @ quote @ Join (getHostNames hosts) ''|'' @ quote"

definition getEventFilter :: "string list \<Rightarrow> string" where
  "getEventFilter hosts =
     ''topic~='' @ quote @ ''/images/create|/images/update'' @ quote @ '',event.name~='' @ quote
       @ Join (getHostNames hosts) ''|'' @ quote"

subsection \<open>Methods\<close>

fun check_hosts :: "string list \<Rightarrow> go_error option" where
  "check_hosts [] = None"
| "check_hosts (host # hosts) = (case url_Parse host of Inl e \<Rightarrow> Some e | Inr u \<Rightarrow> check_hosts hosts)"

definition newStore :: "string list \<Rightarrow> 'p client \<Rightarrow> 'p store result" where
  "newStore hosts client =
     (case check_hosts hosts of
        Some e \<Rightarrow> Inl e
      | None \<Rightarrow> Inr \<lparr>cs_client = client, cs_listFilter = getListFilter hosts, cs_eventFilter = getEventFilter hosts\<rparr>)"

definition NewStore :: "(string \<Rightarrow> string \<Rightarrow> 'p client result) \<Rightarrow> string \<Rightarrow> string \<Rightarrow> string list \<Rightarrow> 'p store result" where
  "NewStore containerdNew sock ns hosts =
     (if sock = [] then Inl (Errorf ''containerd socket path cannot be empty'')
      else if ns = [] then Inl (Errorf ''containerd namespace cannot be empty'')
      else (case containerdNew sock ns of
              Inl e \<Rightarrow> Inl (WrapErr ''could not create containerd client'' e)
            | Inr client \<Rightarrow> newStore hosts client))"

definition DefaultSock :: string where "DefaultSock = ''/run/containerd/containerd.sock''"
definition DefaultNamespace :: string where "DefaultNamespace = ''k8s.io''"

definition NewDefaultStore :: "(string \<Rightarrow> string \<Rightarrow> 'p client result) \<Rightarrow> string list \<Rightarrow> 'p store result" where
  "NewDefaultStore containerdNew hosts = NewStore containerdNew DefaultSock DefaultNamespace hosts"

definition Verify :: "'p store \<Rightarrow> go_error option" where
  "Verify c =
     (case cl_IsServing (cs_client c) of
        Inl e \<Rightarrow> Some e
      | Inr ok \<Rightarrow> if \<not> ok then Some (Errorf ''could not reach containerd service'') else None)"

definition getEventImageName :: "image_event \<Rightarrow> string result" where
  "getEventImageName e =
     (case e of
        BadEvent x \<Rightarrow> Inl (WrapErr ''failed to unmarshal any'' (Errorf x))
      | ImageCreate n \<Rightarrow> Inr n
      | ImageUpdate n \<Rightarrow> Inr n
      | OtherEvent x \<Rightarrow> Inl (Errorf ''unsupported event''))"

definition subscribe_event :: "'p store \<Rightarrow> image_event \<Rightarrow> go_error + reference" where
  "subscribe_event c e =
     (case getEventImageName e of
        Inl err \<Rightarrow> Inl err
      | Inr name \<Rightarrow>
          (case cl_GetImage (cs_client c) name of
             Inl err \<Rightarrow> Inl err
           | Inr img \<Rightarrow> ParseReference (im_Name img) (im_Digest img)))"

definition Subscribe :: "'p store \<Rightarrow> (go_error + image_event) list \<Rightarrow> (go_error + reference) list" where
  "Subscribe c events = map (case_sum Inl (subscribe_event c)) events"

fun parse_images :: "Image list \<Rightarrow> reference list result" where
  "parse_images [] = Inr []"
| "parse_images (img # imgs) =
     (case ParseReference (im_Name img) (im_Digest img) of
        Inl e \<Rightarrow> Inl e
      | Inr ref \<Rightarrow> (case parse_images imgs of Inl e \<Rightarrow> Inl e | Inr refs \<Rightarrow> Inr (ref # refs)))"

definition List_images :: "'p store \<Rightarrow> reference list result" where
  "List_images c =
     (case cl_ListImages (cs_client c) (cs_listFilter c) of Inl e \<Rightarrow> Inl e | Inr imgs \<Rightarrow> parse_images imgs)"

text \<open>The manifests of an index that match the platform; a descriptor without a platform is dereferenced.\<close>

fun match_manifests :: "('p \<Rightarrow> bool) \<Rightarrow> 'p Descriptor list \<Rightarrow> 'p Descriptor list outcome" where
  "match_manifests mat [] = Ret []"
| "match_manifests mat (m # ms) =
     (case de_Platform m of
        None \<Rightarrow> Panic NilDeref
      | Some p \<Rightarrow> obind (match_manifests mat ms) (\<lambda>ds. Ret (if mat p then m # ds else ds)))"

text \<open>\<open>sort.SliceStable\<close> with the given order.\<close>

definition desc_less :: "('p \<Rightarrow> 'p \<Rightarrow> bool) \<Rightarrow> 'p Descriptor \<Rightarrow> 'p Descriptor \<Rightarrow> bool" where
  "desc_less lt x y =
     (case de_Platform x of None \<Rightarrow> False | Some px \<Rightarrow> (case de_Platform y of None \<Rightarrow> True | Some py \<Rightarrow> lt px py))"

fun insert_stable :: "('a \<Rightarrow> 'a \<Rightarrow> bool) \<Rightarrow> 'a \<Rightarrow> 'a list \<Rightarrow> 'a list" where
  "insert_stable lt x [] = [x]"
| "insert_stable lt x (y # ys) = (if lt y x then y # insert_stable lt x ys else x # y # ys)"

definition sort_stable :: "('a \<Rightarrow> 'a \<Rightarrow> bool) \<Rightarrow> 'a list \<Rightarrow> 'a list" where
  "sort_stable lt xs = foldr (insert_stable lt) xs []"

definition is_index :: "string \<Rightarrow> bool" where
  "is_index t \<longleftrightarrow> t = ''application/vnd.docker.distribution.manifest.list.v2+json'' \<or> t = ''application/vnd.oci.image.index.v1+json''"

definition is_manifest :: "string \<Rightarrow> bool" where
  "is_manifest t \<longleftrightarrow> t = ''application/vnd.docker.distribution.manifest.v2+json'' \<or> t = ''application/vnd.oci.image.manifest.v1+json''"

definition all_handler :: "'p client \<Rightarrow> ('p, string list) walk_handler" where
  "all_handler client desc keys0 =
     (let keys = keys0 @ [de_Digest desc] in
      if is_index (de_MediaType desc) then
        (case cl_ReadBlob client (de_Digest desc) of
           Inl e \<Rightarrow> Ret (Inl e, keys)
         | Inr b \<Rightarrow>
             (case cl_UnmarshalIndex client b of
                Inl e \<Rightarrow> Ret (Inl e, keys)
              | Inr ms \<Rightarrow>
                  obind (match_manifests (cl_Match client) ms) (\<lambda>descs.
                    if descs = [] then Ret (Inl (Errorf ''could not find platform architecture in manifest''), keys)
                    else Ret (Inr [hd (sort_stable (desc_less (cl_Less client)) descs)], keys))))
      else if is_manifest (de_MediaType desc) then
        (case cl_ReadBlob client (de_Digest desc) of
           Inl e \<Rightarrow> Ret (Inl e, keys)
         | Inr b \<Rightarrow>
             (case cl_UnmarshalManifest client b of
                Inl e \<Rightarrow> Ret (Inl e, keys)
              | Inr (config, layers) \<Rightarrow> Ret (Inr [], keys @ config # layers)))
      else Ret (Inl (Errorf ''unexpected media type''), keys))"

definition All_digests :: "'p store \<Rightarrow> reference \<Rightarrow> string list result outcome" where
  "All_digests c ref =
     (case cl_ImageTarget (cs_client c) (ref_name ref) of
        Inl e \<Rightarrow> Ret (Inl e)
      | Inr target \<Rightarrow>
          obind (cl_Walk (cs_client c) (all_handler (cs_client c)) target []) (\<lambda>(err, keys).
            case err of
              Some e \<Rightarrow> Ret (Inl (WrapErr ''failed to walk image manifests'' e))
            | None \<Rightarrow> Ret (if keys = [] then Inl (Errorf ''no image digests found'') else Inr keys)))"

definition Resolve_ref :: "'p store \<Rightarrow> string \<Rightarrow> string result" where
  "Resolve_ref c ref = (case cl_GetImage (cs_client c) ref of Inl e \<Rightarrow> Inl e | Inr img \<Rightarrow> Inr (im_Digest img))"

definition Size_blob :: "'p store \<Rightarrow> string \<Rightarrow> int64 result" where
  "Size_blob c dgst = cl_Info (cs_client c) dgst"

definition Bytes_blob :: "'p store \<Rightarrow> string \<Rightarrow> (bytes \<times> string) result" where
  "Bytes_blob c dgst =
     (case cl_ReadBlob (cs_client c) dgst of
        Inl e \<Rightarrow> Inl e
      | Inr b \<Rightarrow> (case cl_UnmarshalVersioned (cs_client c) b of Inl e \<Rightarrow> Inl e | Inr mt \<Rightarrow> Inr (b, mt)))"

definition Write_blob :: "'p store \<Rightarrow> writer \<Rightarrow> string \<Rightarrow> bytes option \<times> go_error option" where
  "Write_blob c dst dgst =
     (case cl_Reader (cs_client c) dgst of
        Inl e \<Rightarrow> (None, Some e)
      | Inr (b, err) \<Rightarrow>
          if b = [] then (None, err)
          else (case dst b of (out, Some e) \<Rightarrow> (Some out, Some e) | (out, None) \<Rightarrow> (Some out, err)))"

definition store_iface :: "'p store \<Rightarrow> Store" where
  "store_iface c = \<lparr>sm_Subscribe = Subscribe c, sm_List = List_images c, sm_Resolve = Resolve_ref c, sm_Size = Size_blob c,
     sm_Bytes = Bytes_blob c, sm_Write = Write_blob c, sm_Verify = Verify c, sm_All = All_digests c\<rparr>"

subsection \<open>The mock\<close>

definition test_bytes :: bytes where
  "test_bytes = map (\<lambda>c. of_nat (of_char c)) ''test''"

definition NewMockContainerdStore :: "reference list \<Rightarrow> Store" where
  "NewMockContainerdStore refs = \<lparr>
     sm_Subscribe = (\<lambda>events. []),
     sm_List = Inr refs,
     sm_Resolve = (\<lambda>ref. Inr []),
     sm_Size = (\<lambda>dgst. if list_ex (\<lambda>r. ref_dgst r = dgst) refs then Inr 4 else Inr (-1)),
     sm_Bytes = (\<lambda>dgst. if list_ex (\<lambda>r. ref_dgst r = dgst) refs
        then Inr (test_bytes, ''application/vnd.oci.image.manifest.v1+json'') else Inr ([], [])),
     sm_Write = (\<lambda>dst dgst. (case dst test_bytes of (out, err) \<Rightarrow> (Some out, err))),
     sm_Verify = None,
     sm_All = (\<lambda>ref. Ret (Inr [ref_dgst ref]))\<rparr>"

subsection \<open>The digests of an image\<close>

lemma set_insert_stable [simp]: "set (insert_stable lt x xs) = insert x (set xs)"
  by (induction xs) auto

lemma set_sort_stable [simp]: "set (sort_stable lt xs) = set xs"
  by (induction xs) (simp_all add: sort_stable_def)

lemma hd_insert_stable: "hd (insert_stable lt x xs) = (if xs \<noteq> [] \<and> lt (hd xs) x then hd xs else x)"
  by (cases xs) auto

text \<open>The head of the sorted list: nothing is less than it, for an order that is a strict weak order.\<close>

lemma hd_sort_stable_min:
  assumes "\<And>x y z. \<not> lt x y \<Longrightarrow> \<not> lt y z \<Longrightarrow> \<not> lt x z" and "\<And>x y. lt x y \<Longrightarrow> \<not> lt y x"
    and "x \<in> set xs"
  shows "\<not> lt x (hd (sort_stable lt xs))"
  using assms(3)
proof (induction xs)
  case (Cons y ys)
  let ?h = "hd (sort_stable lt ys)"
  have eq: "sort_stable lt (y # ys) = insert_stable lt y (sort_stable lt ys)" by (simp add: sort_stable_def)
  have irr: "\<not> lt z z" for z using assms(2) by blast
  show ?case
  proof (cases "ys = []")
    case True
    then show ?thesis using Cons.prems irr by (simp add: sort_stable_def)
  next
    case False
    have ne: "sort_stable lt ys \<noteq> []" using False set_sort_stable [of lt ys] by (metis set_empty)
    show ?thesis
    proof (cases "lt ?h y")
      case True
      then have "hd (sort_stable lt (y # ys)) = ?h" using ne by (simp add: eq hd_insert_stable)
      then show ?thesis using Cons True assms(2) by auto
    next
      case F: False
      then have h: "hd (sort_stable lt (y # ys)) = y" by (simp add: eq hd_insert_stable)
      have "\<not> lt x y" if "x \<in> set ys" using assms(1) [OF Cons.IH [OF that] F] .
      then show ?thesis using Cons.prems h irr by auto
    qed
  qed
qed simp

lemma hd_sort_stable_in: "xs \<noteq> [] \<Longrightarrow> hd (sort_stable lt xs) \<in> set xs"
  using set_sort_stable [of lt xs] hd_in_set [of "sort_stable lt xs"] by (metis set_empty)

lemma desc_less_asym:
  assumes "\<And>p q. lt p q \<Longrightarrow> \<not> lt q p" and "desc_less lt x y"
  shows "\<not> desc_less lt y x"
  using assms by (auto simp: desc_less_def split: option.splits)

lemma desc_less_neg_trans:
  assumes "\<And>p q r. \<not> lt p q \<Longrightarrow> \<not> lt q r \<Longrightarrow> \<not> lt p r" and "\<not> desc_less lt x y" and "\<not> desc_less lt y z"
  shows "\<not> desc_less lt x z"
  using assms(2,3) assms(1) by (auto simp: desc_less_def split: option.splits)

lemma match_manifests_ret:
  assumes "list_all (\<lambda>m. de_Platform m \<noteq> None) ms"
  shows "match_manifests mat ms = Ret (filter (\<lambda>m. mat (the (de_Platform m))) ms)"
  using assms by (induction ms) auto

lemma match_manifests_panic: "list_ex (\<lambda>m. de_Platform m = None) ms \<Longrightarrow> match_manifests mat ms = Panic NilDeref"
  by (induction ms) (auto split: option.splits)

text \<open>
  What containerd documents of \<open>images.Walk\<close>, for handlers with at most one child: the handler is
  called on the descriptor, its error ends the walk, and the walk goes on with the child.
\<close>

definition walk_ok :: "('p, 's) Client \<Rightarrow> ('p, 's) walk_handler \<Rightarrow> bool" where
  "walk_ok client h \<longleftrightarrow> (\<forall>d s. cl_Walk client h d s =
     obind (h d s) (\<lambda>(r, s').
       case r of
         Inl e \<Rightarrow> Ret (Some e, s')
       | Inr [] \<Rightarrow> Ret (None, s')
       | Inr (x # _) \<Rightarrow> cl_Walk client h x s'))"

text \<open>
  A containerd whose index documents list manifests only, with the walk cut off after more steps
  than such an image has levels: its walk is the documented one.
\<close>

fun walk_fuel :: "nat \<Rightarrow> ('p, 's) walk_handler \<Rightarrow> 'p Descriptor \<Rightarrow> 's \<Rightarrow> (go_error option \<times> 's) outcome" where
  "walk_fuel 0 h d s = Blocked"
| "walk_fuel (Suc n) h d s =
     obind (h d s) (\<lambda>(r, s'). case r of Inl e \<Rightarrow> Ret (Some e, s') | Inr [] \<Rightarrow> Ret (None, s') | Inr (x # _) \<Rightarrow> walk_fuel n h x s')"

lemma all_handler_leaf:
  "\<not> is_index (de_MediaType d) \<Longrightarrow>
     (\<exists>e s'. all_handler client d s = Ret (Inl e, s')) \<or> (\<exists>s'. all_handler client d s = Ret (Inr [], s'))"
  by (auto simp: all_handler_def Let_def split: sum.split)

lemma all_handler_index:
  assumes "\<And>b ms. cl_UnmarshalIndex client b = Inr ms \<Longrightarrow> list_all (\<lambda>m. \<not> is_index (de_MediaType m)) ms"
    and "all_handler client d s = Ret (Inr (x # xs), s')"
  shows "\<not> is_index (de_MediaType x)"
proof -
  obtain b ms ds where "cl_UnmarshalIndex client b = Inr ms" "match_manifests (cl_Match client) ms = Ret ds" "ds \<noteq> []"
    "x = hd (sort_stable (desc_less (cl_Less client)) ds)"
    using assms(2) by (auto simp: all_handler_def Let_def split: sum.splits if_splits elim!: obind_RetE)
  moreover have "set ds \<subseteq> set ms" using calculation(2)
    by (induction ms arbitrary: ds) (auto split: option.splits if_splits elim!: obind_RetE)
  moreover have "x \<in> set ds" unfolding calculation(4) by (rule hd_sort_stable_in [OF calculation(3)])
  ultimately have "x \<in> set ms" and "list_all (\<lambda>m. \<not> is_index (de_MediaType m)) ms" using assms(1) by auto
  then show ?thesis by (simp add: list_all_iff)
qed

lemma walk_fuel_ok:
  assumes "\<And>b ms. cl_UnmarshalIndex client b = Inr ms \<Longrightarrow> list_all (\<lambda>m. \<not> is_index (de_MediaType m)) ms"
    and "cl_Walk client = walk_fuel 2"
  shows "walk_ok client (all_handler client)"
proof -
  let ?h = "all_handler client"
  have leaf: "walk_fuel (Suc n) ?h x s = walk_fuel (Suc 0) ?h x s" if "\<not> is_index (de_MediaType x)" for x s n
    using all_handler_leaf [OF that, of client s] by (elim disjE exE) simp_all
  have "walk_fuel 2 ?h d s = obind (?h d s) (\<lambda>(r, s'). case r of Inl e \<Rightarrow> Ret (Some e, s') | Inr [] \<Rightarrow> Ret (None, s')
      | Inr (x # _) \<Rightarrow> walk_fuel 2 ?h x s')" for d s
  proof (cases "\<exists>x xs s'. ?h d s = Ret (Inr (x # xs), s')")
    case True
    then obtain x xs s' where eq: "?h d s = Ret (Inr (x # xs), s')" by blast
    have "\<not> is_index (de_MediaType x)" by (rule all_handler_index [OF assms(1) eq])
    from leaf [OF this, of 1 s'] show ?thesis by (simp add: eq numeral_2_eq_2)
  next
    case False
    then show ?thesis by (cases "?h d s") (auto simp: numeral_2_eq_2 split: sum.splits list.splits)
  qed
  then show ?thesis unfolding walk_ok_def assms(2) by blast
qed

definition platform_desc :: "string \<Rightarrow> string option \<Rightarrow> string Descriptor" where
  "platform_desc dgst p = \<lparr>de_MediaType = ''application/vnd.oci.image.manifest.v1+json'', de_Digest = dgst, de_Platform = p\<rparr>"

definition demo_client :: "string Descriptor list \<Rightarrow> string client" where
  "demo_client ms = \<lparr>cl_IsServing = Inr True, cl_GetImage = (\<lambda>n. Inr \<lparr>im_Name = n, im_Digest = ''sha256:i''\<rparr>),
     cl_ListImages = (\<lambda>f. Inr []),
     cl_ImageTarget = (\<lambda>n. Inr \<lparr>de_MediaType = ''application/vnd.oci.image.index.v1+json'', de_Digest = ''sha256:i'', de_Platform = None\<rparr>),
     cl_Info = (\<lambda>d. Inr 0), cl_ReadBlob = (\<lambda>d. Inr []), cl_Reader = (\<lambda>d. Inr ([], None)),
     cl_UnmarshalIndex = (\<lambda>b. Inr (filter (\<lambda>m. \<not> is_index (de_MediaType m)) ms)),
     cl_UnmarshalManifest = (\<lambda>b. Inr (''sha256:c'', [''sha256:l''])),
     cl_UnmarshalVersioned = (\<lambda>b. Inr []), cl_Match = (\<lambda>p. p \<in> {''amd64'', ''386''}),
     cl_Less = (\<lambda>p q. p = ''amd64'' \<and> q \<noteq> ''amd64''), cl_Walk = walk_fuel 2\<rparr>"

definition demo_runtime_store :: "string Descriptor list \<Rightarrow> string store" where
  "demo_runtime_store ms = \<lparr>cs_client = demo_client ms, cs_listFilter = [], cs_eventFilter = []\<rparr>"

lemma demo_walk_ok: "walk_ok (cs_client (demo_runtime_store ms)) (all_handler (cs_client (demo_runtime_store ms)))"
  by (rule walk_fuel_ok) (auto simp: demo_runtime_store_def demo_client_def list_all_iff)

definition demo_ref :: reference where
  "demo_ref = \<lparr>ref_name = ''h/r:t'', ref_dgst = ''sha256:i'', ref_tag = ''t'', ref_repo = ''r'', ref_host = ''h''\<rparr>"

text \<open>
  C22: the keys of an image. For an image that is an index, \<open>All\<close> lists the index, the first manifest
  of the stable sort of the matching ones, and this manifest's configuration and layers, in this
  order. That manifest is one of the index, it matches the platform, and no other matching manifest
  is preferred to it by the platform matcher (whose \<open>Less\<close> is a strict weak order).
\<close>

theorem All_lists_index_manifest_and_layers:
  assumes "walk_ok (cs_client c) (all_handler (cs_client c))"
    and "cl_ImageTarget (cs_client c) (ref_name ref) = Inr idx" and "is_index (de_MediaType idx)"
    and "cl_ReadBlob (cs_client c) (de_Digest idx) = Inr b" and "cl_UnmarshalIndex (cs_client c) b = Inr ms"
    and "list_all (\<lambda>m. de_Platform m \<noteq> None) ms"
    and "best = hd (sort_stable (desc_less (cl_Less (cs_client c))) (filter (\<lambda>m. cl_Match (cs_client c) (the (de_Platform m))) ms))"
    and "list_ex (\<lambda>m. cl_Match (cs_client c) (the (de_Platform m))) ms"
    and "is_manifest (de_MediaType best)" and "\<not> is_index (de_MediaType best)"
    and "cl_ReadBlob (cs_client c) (de_Digest best) = Inr b'" and "cl_UnmarshalManifest (cs_client c) b' = Inr (config, layers)"
    and "\<And>p q. cl_Less (cs_client c) p q \<Longrightarrow> \<not> cl_Less (cs_client c) q p"
    and "\<And>p q r. \<not> cl_Less (cs_client c) p q \<Longrightarrow> \<not> cl_Less (cs_client c) q r \<Longrightarrow> \<not> cl_Less (cs_client c) p r"
  shows "All_digests c ref = Ret (Inr ([de_Digest idx, de_Digest best, config] @ layers))
    \<and> best \<in> set ms \<and> cl_Match (cs_client c) (the (de_Platform best))
    \<and> (\<forall>m \<in> set ms. cl_Match (cs_client c) (the (de_Platform m))
          \<longrightarrow> \<not> cl_Less (cs_client c) (the (de_Platform m)) (the (de_Platform best)))"
proof -
  let ?client = "cs_client c" and ?h = "all_handler (cs_client c)"
  let ?ds = "filter (\<lambda>m. cl_Match ?client (the (de_Platform m))) ms"
  have ne: "?ds \<noteq> []" using assms(8) by (auto simp: list_ex_iff filter_empty_conv)
  have h1: "?h idx [] = Ret (Inr [best], [de_Digest idx])"
    using assms(3-7) ne by (simp add: all_handler_def match_manifests_ret Let_def)
  have h2: "?h best [de_Digest idx] = Ret (Inr [], [de_Digest idx, de_Digest best] @ config # layers)"
    using assms(9-12) by (simp add: all_handler_def Let_def)
  have w: "cl_Walk ?client ?h d s = obind (?h d s) (\<lambda>(r, s'). case r of Inl e \<Rightarrow> Ret (Some e, s') | Inr [] \<Rightarrow> Ret (None, s')
      | Inr (x # _) \<Rightarrow> cl_Walk ?client ?h x s')" for d s
    using assms(1) unfolding walk_ok_def by blast
  have "cl_Walk ?client ?h idx [] = Ret (None, [de_Digest idx, de_Digest best, config] @ layers)"
    by (subst w, simp add: h1, subst w, simp add: h2)
  moreover have best: "best \<in> set ms" "cl_Match ?client (the (de_Platform best))"
    using hd_sort_stable_in [OF ne, of "desc_less (cl_Less ?client)"] unfolding assms(7) by auto
  moreover have "\<not> cl_Less ?client (the (de_Platform m)) (the (de_Platform best))"
    if "m \<in> set ms" and "cl_Match ?client (the (de_Platform m))" for m
  proof -
    have "\<not> desc_less (cl_Less ?client) m (hd (sort_stable (desc_less (cl_Less ?client)) ?ds))"
      using that by (intro hd_sort_stable_min [of "desc_less (cl_Less ?client)", OF desc_less_neg_trans desc_less_asym, OF assms(14) _ _ assms(13)]) auto
    then have "\<not> desc_less (cl_Less ?client) m best" unfolding assms(7) .
    moreover have "de_Platform m \<noteq> None" and "de_Platform best \<noteq> None"
      using that(1) best(1) assms(6) by (simp_all add: list_all_iff)
    ultimately show ?thesis by (auto simp: desc_less_def)
  qed
  ultimately show ?thesis unfolding All_digests_def assms(2) by simp
qed

definition two_platforms :: "string Descriptor list" where
  "two_platforms = [platform_desc ''sha256:3'' (Some ''386''), platform_desc ''sha256:6'' (Some ''amd64''),
     platform_desc ''sha256:a'' (Some ''arm64'')]"

lemmas demo_defs = demo_runtime_store_def demo_client_def platform_desc_def two_platforms_def is_index_def is_manifest_def

theorem All_lists_index_manifest_and_layers_witness:
  "All_digests (demo_runtime_store two_platforms) demo_ref = Ret (Inr [''sha256:i'', ''sha256:6'', ''sha256:c'', ''sha256:l''])"
proof -
  let ?best = "platform_desc ''sha256:6'' (Some ''amd64'')"
  have best: "?best = hd (sort_stable (desc_less (cl_Less (cs_client (demo_runtime_store two_platforms))))
      (filter (\<lambda>m. cl_Match (cs_client (demo_runtime_store two_platforms)) (the (de_Platform m))) two_platforms))"
    by (simp add: demo_defs sort_stable_def desc_less_def)
  have tgt: "cl_ImageTarget (cs_client (demo_runtime_store two_platforms)) (ref_name demo_ref) =
      Inr \<lparr>de_MediaType = ''application/vnd.oci.image.index.v1+json'', de_Digest = ''sha256:i'', de_Platform = None\<rparr>"
    by (simp add: demo_defs)
  have "All_digests (demo_runtime_store two_platforms) demo_ref = Ret (Inr ([''sha256:i'', de_Digest ?best, ''sha256:c''] @ [''sha256:l'']))"
    using All_lists_index_manifest_and_layers [OF demo_walk_ok tgt _ _ _ _ best, of "[]" "[]" "''sha256:c''" "[''sha256:l'']"]
    by (simp add: demo_defs)
  then show ?thesis by (simp add: platform_desc_def)
qed

text \<open>
  An index with a manifest that carries no platform (which the image specification allows)
  crashes the process, although the sort below the match is prepared for such descriptors.
\<close>

theorem All_panics_on_missing_platform:
  assumes "walk_ok (cs_client c) (all_handler (cs_client c))"
    and "cl_ImageTarget (cs_client c) (ref_name ref) = Inr idx" and "is_index (de_MediaType idx)"
    and "cl_ReadBlob (cs_client c) (de_Digest idx) = Inr b" and "cl_UnmarshalIndex (cs_client c) b = Inr ms"
    and "list_ex (\<lambda>m. de_Platform m = None) ms"
  shows "All_digests c ref = Panic NilDeref"
proof -
  let ?client = "cs_client c" and ?h = "all_handler (cs_client c)"
  have h: "?h idx [] = Panic NilDeref"
    using assms(3-6) by (simp add: all_handler_def match_manifests_panic Let_def)
  have "cl_Walk ?client ?h idx [] = obind (?h idx []) (\<lambda>(r, s'). case r of Inl e \<Rightarrow> Ret (Some e, s') | Inr [] \<Rightarrow> Ret (None, s')
      | Inr (x # _) \<Rightarrow> cl_Walk ?client ?h x s')"
    using assms(1) unfolding walk_ok_def by blast
  then have "cl_Walk ?client ?h idx [] = Panic NilDeref" by (simp add: h)
  then show ?thesis using assms(2) by (simp add: All_digests_def)
qed

theorem All_panics_on_missing_platform_witness:
  "All_digests (demo_runtime_store [platform_desc ''sha256:6'' (Some ''amd64''), platform_desc ''sha256:n'' None]) demo_ref = Panic NilDeref"
  using All_panics_on_missing_platform [OF demo_walk_ok, of "[platform_desc ''sha256:6'' (Some ''amd64''), platform_desc ''sha256:n'' None]"
      demo_ref _ "[]" "[platform_desc ''sha256:6'' (Some ''amd64''), platform_desc ''sha256:n'' None]"]
  by (simp add: demo_defs)

end
