(* ===== verification/Containerd_Registry.thy ===== *)
theory Containerd_Registry
  imports Containerd_Store Gin_Writer
begin

section \<open>The registry handler: \<open>src/pkg/containerd/handler.go\<close>\<close>

text \<open>
  Model of the handler that answers a peer from the local containerd. The store is reached through
  its interface; \<open>digest.Parse\<close> of go-digest is the argument \<open>digestParse\<close>, the connection to the
  client is the writer \<open>conn\<close>. The contract of the store is the locale \<open>blob_store\<close>: it is satisfied
  by the store over a containerd whose operations agree on the content, and by the mock.
\<close>

subsection \<open>Operations\<close>

definition maxManifestSize :: int64 where "maxManifestSize = 4 * 1024 * 1024"
definition dockerContentDigestHeader :: string where "dockerContentDigestHeader = ''Docker-Content-Digest''"
definition contentLengthHeader :: string where "contentLengthHeader = ''Content-Length''"
definition contentTypeHeader :: string where "contentTypeHeader = ''Content-Type''"

record Registry =
  rg_containerdStore :: Store

definition NewRegistry :: "Store \<Rightarrow> Registry" where
  "NewRegistry containerdStore = \<lparr>rg_containerdStore = containerdStore\<rparr>"

definition handleManifest :: "writer \<Rightarrow> Registry \<Rightarrow> Context \<Rightarrow> string \<Rightarrow> gin_call list" where
  "handleManifest conn r c dgst =
     (case sm_Size (rg_containerdStore r) dgst of
        Inl e \<Rightarrow> [AbortWithError 404 e]
      | Inr sz \<Rightarrow>
          if sz \<ge> maxManifestSize then [AbortWithError 404 (Errorf ''refusing to serve a manifest larger than'')]
          else (case sm_Bytes (rg_containerdStore r) dgst of
                  Inl e \<Rightarrow> [AbortWithError 404 e]
                | Inr (b, mediaType) \<Rightarrow>
                    [SetHeader contentTypeHeader mediaType, SetHeader contentLengthHeader (FormatInt (int (length b))),
                     SetHeader dockerContentDigestHeader dgst]
                    @ (if req_Method (ctx_Request c) = ''HEAD'' then []
                       else (case conn b of (out, err) \<Rightarrow>
                         Write out # (case err of Some e \<Rightarrow> [AbortWithError 503 e] | None \<Rightarrow> [])))))"

definition handleBlob :: "writer \<Rightarrow> Registry \<Rightarrow> Context \<Rightarrow> string \<Rightarrow> gin_call list" where
  "handleBlob conn r c dgst =
     (case sm_Size (rg_containerdStore r) dgst of
        Inl e \<Rightarrow> [AbortWithError 404 e]
      | Inr sz \<Rightarrow>
          [SetHeader contentLengthHeader (FormatInt sz), SetHeader dockerContentDigestHeader dgst]
          @ (if req_Method (ctx_Request c) = ''HEAD'' then []
             else (case sm_Write (rg_containerdStore r) conn dgst of (out, err) \<Rightarrow>
               (case out of Some b \<Rightarrow> [Write b] | None \<Rightarrow> [])
               @ (case err of Some e \<Rightarrow> [AbortWithError 500 e] | None \<Rightarrow> []))))"

definition Handle_registry :: "(string \<Rightarrow> string result) \<Rightarrow> writer \<Rightarrow> Registry \<Rightarrow> Context \<Rightarrow> handling" where
  "Handle_registry digestParse conn r c =
     (let dgstStr = GetString c DigestCtxKey; ref = GetString c ReferenceCtxKey in
      case (if dgstStr = [] then map_sum (Pair 404) id (sm_Resolve (rg_containerdStore r) ref)
            else map_sum (Pair 400) id (digestParse dgstStr)) of
        Inl (code, e) \<Rightarrow> ([AbortWithError code e], Ret ())
      | Inr d \<Rightarrow>
          (case ctx_Get c RefTypeCtxKey of
             None \<Rightarrow> ([AbortWithError 500 (Errorf ''ref type not found in context'')], Panic TypeAssertion)
           | Some (CtxString s) \<Rightarrow> ([], Panic TypeAssertion)
           | Some (CtxRefType t) \<Rightarrow>
               if t = ''Manifest'' then (handleManifest conn r c d, Ret ())
               else if t = ''Blob'' then (handleBlob conn r c d, Ret ())
               else ([SetStatus 404], Ret ())))"

subsection \<open>The contract of the store\<close>

locale blob_store =
  fixes st :: Store and blob :: "string \<Rightarrow> bytes option"
  assumes size_blob: "blob d = Some b \<Longrightarrow> sm_Size st d = Inr n \<Longrightarrow> n = int (length b)"
    and bytes_blob: "blob d = Some b \<Longrightarrow> sm_Bytes st d = Inr (b', mt) \<Longrightarrow> b' = b"
    and write_blob: "blob d = Some b \<Longrightarrow> writer_ok dst \<Longrightarrow> sm_Write st dst d = (out, err) \<Longrightarrow>
      (case out of None \<Rightarrow> err = None \<longrightarrow> b = [] | Some x \<Rightarrow> prefix x b \<and> (err = None \<longrightarrow> x = b))"

text \<open>
  A containerd whose content store is consistent: the information, the reader and \<open>ReadBlob\<close> agree on
  the content of a blob (a reader that breaks off has an error).
\<close>

definition client_content :: "'p client \<Rightarrow> (string \<Rightarrow> bytes option) \<Rightarrow> bool" where
  "client_content client blob \<longleftrightarrow> (\<forall>d b. blob d = Some b \<longrightarrow>
     (\<forall>n. cl_Info client d = Inr n \<longrightarrow> n = int (length b)) \<and>
     (\<forall>b'. cl_ReadBlob client d = Inr b' \<longrightarrow> b' = b) \<and>
     (\<forall>b' err. cl_Reader client d = Inr (b', err) \<longrightarrow> prefix b' b \<and> (err = None \<longrightarrow> b' = b)))"

lemma client_contentD:
  assumes "client_content client blob" and "blob d = Some b"
  shows "cl_Info client d = Inr n \<Longrightarrow> n = int (length b)"
    and "cl_ReadBlob client d = Inr b' \<Longrightarrow> b' = b"
    and "cl_Reader client d = Inr (b', err) \<Longrightarrow> prefix b' b \<and> (err = None \<longrightarrow> b' = b)"
  using assms unfolding client_content_def by blast+

lemma store_blob_store:
  assumes "client_content (cs_client c) blob"
  shows "blob_store (store_iface c) blob"
proof
  fix d b n b' mt dst out err
  assume b: "blob d = Some b"
  note content = client_contentD [OF assms b]
  show "sm_Size (store_iface c) d = Inr n \<Longrightarrow> n = int (length b)"
    using content(1) by (simp add: store_iface_def Size_blob_def)
  show "sm_Bytes (store_iface c) d = Inr (b', mt) \<Longrightarrow> b' = b"
    using content(2) by (simp add: store_iface_def Bytes_blob_def split: sum.splits)
  assume "writer_ok dst" and w: "sm_Write (store_iface c) dst d = (out, err)"
  note dst = writer_okD [OF this(1)]
  show "case out of None \<Rightarrow> err = None \<longrightarrow> b = [] | Some x \<Rightarrow> prefix x b \<and> (err = None \<longrightarrow> x = b)"
  proof (cases "cl_Reader (cs_client c) d")
    case (Inl e)
    then show ?thesis using w by (auto simp: store_iface_def Write_blob_def)
  next
    case (Inr p)
    obtain x rerr where p: "p = (x, rerr)" by fastforce
    have x: "prefix x b \<and> (rerr = None \<longrightarrow> x = b)" using content(3) Inr p by blast
    obtain y werr where y: "dst x = (y, werr)" by fastforce
    show ?thesis using w x dst [OF y] Inr p y
      by (cases werr) (auto simp: store_iface_def Write_blob_def split: if_splits dest: prefix_order.trans)
  qed
qed

text \<open>
  The content on which a containerd client agrees with itself, as far as its calls succeed: over this
  content the store of \<open>store.go\<close> satisfies the contract.
\<close>

definition client_blob :: "'p client \<Rightarrow> string \<Rightarrow> bytes option" where
  "client_blob client d =
     (case cl_ReadBlob client d of
        Inl e \<Rightarrow> None
      | Inr b \<Rightarrow>
          if (case cl_Info client d of Inl e \<Rightarrow> True | Inr n \<Rightarrow> n = int (length b)) \<and>
             (case cl_Reader client d of Inl e \<Rightarrow> True | Inr (b', err) \<Rightarrow> prefix b' b \<and> (err = None \<longrightarrow> b' = b))
          then Some b else None)"

interpretation containerd: blob_store "store_iface c" "client_blob (cs_client c)" for c
  by (rule store_blob_store) (auto simp: client_content_def client_blob_def split: sum.splits if_splits)

definition mock_blob :: "reference list \<Rightarrow> string \<Rightarrow> bytes option" where
  "mock_blob refs d = (if list_ex (\<lambda>r. ref_dgst r = d) refs then Some test_bytes else None)"

interpretation mock_store: blob_store "NewMockContainerdStore refs" "mock_blob refs" for refs
proof
  fix d b n b' mt dst out err
  assume b: "mock_blob refs d = Some b"
  then have t: "b = test_bytes" "list_ex (\<lambda>r. ref_dgst r = d) refs" by (simp_all add: mock_blob_def split: if_splits)
  show "sm_Size (NewMockContainerdStore refs) d = Inr n \<Longrightarrow> n = int (length b)"
    using t by (simp add: NewMockContainerdStore_def test_bytes_def)
  show "sm_Bytes (NewMockContainerdStore refs) d = Inr (b', mt) \<Longrightarrow> b' = b"
    using t by (simp add: NewMockContainerdStore_def)
  assume "writer_ok dst" and "sm_Write (NewMockContainerdStore refs) dst d = (out, err)"
  then show "case out of None \<Rightarrow> err = None \<longrightarrow> b = [] | Some x \<Rightarrow> prefix x b \<and> (err = None \<longrightarrow> x = b)"
    using t writer_okD by (fastforce simp: NewMockContainerdStore_def split: prod.splits)
qed

subsection \<open>What a peer receives\<close>

lemma registry_headers_canonical:
  "CanonicalHeaderKey contentTypeHeader = ''Content-Type''"
  "CanonicalHeaderKey contentLengthHeader = ''Content-Length''"
  "CanonicalHeaderKey dockerContentDigestHeader = ''Docker-Content-Digest''"
  by code_simp+

lemma FormatInt_nonempty: "FormatInt x \<noteq> []"
  by (simp add: FormatInt_def format_nat.simps [of "nat x"])

lemmas response_simps = respond_defs Header_Get_Set registry_headers_canonical FormatInt_nonempty

text \<open>
  What a response that promises content looks like: the declared length and digest are the blob's,
  and its body is the blob, or a beginning of it with an error in the log of the request.
\<close>

definition promises :: "Context \<Rightarrow> string \<Rightarrow> bytes \<Rightarrow> Response \<Rightarrow> bool" where
  "promises c d b r \<longleftrightarrow>
     Header_Get (rsp_header r) contentLengthHeader = FormatInt (int (length b)) \<and>
     Header_Get (rsp_header r) dockerContentDigestHeader = d \<and> prefix (rsp_body r) b \<and>
     (if req_Method (ctx_Request c) = ''HEAD'' then rsp_body r = [] else rsp_errors r = [] \<longrightarrow> rsp_body r = b)"

text \<open>Either the store knows the content, or the answer is 404.\<close>

lemma handleManifest_cases:
  obtains e where "handleManifest conn r c d = [AbortWithError 404 e]"
  | sz b mt where "sm_Size (rg_containerdStore r) d = Inr sz" and "sz < maxManifestSize"
      and "sm_Bytes (rg_containerdStore r) d = Inr (b, mt)"
  by (cases "sm_Size (rg_containerdStore r) d"; cases "sm_Bytes (rg_containerdStore r) d")
    (fastforce simp: handleManifest_def not_le split: if_splits)+

lemma handleBlob_cases:
  obtains e where "handleBlob conn r c d = [AbortWithError 404 e]"
  | sz where "sm_Size (rg_containerdStore r) d = Inr sz"
  by (cases "sm_Size (rg_containerdStore r) d") (auto simp: handleBlob_def)

lemma respond_404: "rsp_status (respond [AbortWithError 404 e]) \<noteq> 200"
  by (simp add: respond_defs)

context blob_store
begin

lemma handleManifest_promises:
  assumes "blob d = Some b" and "writer_ok conn" and "d \<noteq> []"
    and "rsp_status (respond (handleManifest conn \<lparr>rg_containerdStore = st\<rparr> c d)) = 200"
  shows "promises c d b (respond (handleManifest conn \<lparr>rg_containerdStore = st\<rparr> c d)) \<and> int (length b) < maxManifestSize"
proof -
  obtain sz b' mt where sz: "sm_Size st d = Inr sz" "sz < maxManifestSize" and bt: "sm_Bytes st d = Inr (b', mt)"
    using handleManifest_cases [of conn "\<lparr>rg_containerdStore = st\<rparr>" c d] respond_404 assms(4) by (metis Registry.select_convs(1))
  have len: "sz = int (length b)" and b: "b' = b" using size_blob [OF assms(1) sz(1)] bytes_blob [OF assms(1) bt] by simp_all
  obtain out err where out: "conn b = (out, err)" by fastforce
  show ?thesis using writer_okD [OF assms(2) out] assms(3) sz len
    by (simp add: promises_def handleManifest_def bt b out response_simps split: option.splits)
qed

lemma handleBlob_promises:
  assumes "blob d = Some b" and "writer_ok conn" and "d \<noteq> []"
    and "rsp_status (respond (handleBlob conn \<lparr>rg_containerdStore = st\<rparr> c d)) = 200"
  shows "promises c d b (respond (handleBlob conn \<lparr>rg_containerdStore = st\<rparr> c d))"
proof -
  obtain sz where sz: "sm_Size st d = Inr sz"
    using handleBlob_cases [of conn "\<lparr>rg_containerdStore = st\<rparr>" c d] respond_404 assms(4) by (metis Registry.select_convs(1))
  have len: "sz = int (length b)" by (rule size_blob [OF assms(1) sz])
  obtain out err where out: "sm_Write st conn d = (out, err)" by fastforce
  show ?thesis using write_blob [OF assms(1,2) out] assms(3)
    by (simp add: promises_def handleBlob_def sz len out response_simps split: option.splits)
qed

end

text \<open>
  C13: a peer is served stored content. When the store holds a blob under the requested digest and
  the handler answers with status 200, the declared length and digest are the blob's and the body is
  the blob; if the transfer breaks off, the body is a beginning of the blob shorter than declared and
  the request carries an error. This holds for manifests and for blobs, on GET and on HEAD.
\<close>

theorem registry_serves_stored_content:
  assumes "blob_store st blob" and "writer_ok conn"
    and "GetString c DigestCtxKey = dgst" and "dgst \<noteq> []" and "digestParse dgst = Inr d" and "d \<noteq> []"
    and "ctx_Get c RefTypeCtxKey = Some (CtxRefType t)" and "blob d = Some b"
    and "rsp_status (respond (fst (Handle_registry digestParse conn (NewRegistry st) c))) = 200"
  shows "snd (Handle_registry digestParse conn (NewRegistry st) c) = Ret ()
    \<and> promises c d b (respond (fst (Handle_registry digestParse conn (NewRegistry st) c)))"
proof -
  have eq: "Handle_registry digestParse conn (NewRegistry st) c =
      (if t = ''Manifest'' then (handleManifest conn \<lparr>rg_containerdStore = st\<rparr> c d, Ret ())
       else if t = ''Blob'' then (handleBlob conn \<lparr>rg_containerdStore = st\<rparr> c d, Ret ()) else ([SetStatus 404], Ret ()))"
    using assms(3-7) by (simp add: Handle_registry_def NewRegistry_def)
  consider "t = ''Manifest''" | "t = ''Blob''" | "t \<noteq> ''Manifest''" "t \<noteq> ''Blob''" by blast
  then show ?thesis
  proof cases
    case 1
    then show ?thesis using blob_store.handleManifest_promises [OF assms(1,8,2,6)] assms(9) by (simp add: eq)
  next
    case 2
    then show ?thesis using blob_store.handleBlob_promises [OF assms(1,8,2,6)] assms(9) by (simp add: eq)
  next
    case 3
    then show ?thesis using assms(9) by (simp add: eq respond_defs)
  qed
qed

definition registry_context :: "string \<Rightarrow> string \<Rightarrow> string \<Rightarrow> Context" where
  "registry_context method dgst t = \<lparr>ctx_Request = \<lparr>req_Method = method, req_Path = [], req_RawQuery = [], req_Header = []\<rparr>,
     ctx_Params = [], ctx_Query = [], ctx_Keys = [(DigestCtxKey, CtxString dgst), (RefTypeCtxKey, CtxRefType t)]\<rparr>"

lemma registry_context_gets [simp]:
  "GetString (registry_context method dgst t) DigestCtxKey = dgst"
  "ctx_Get (registry_context method dgst t) RefTypeCtxKey = Some (CtxRefType t)"
  "req_Method (ctx_Request (registry_context method dgst t)) = method"
  by (simp_all add: registry_context_def GetString_def ctx_Get_def ctx_key_defs)

theorem registry_serves_stored_content_witness:
  "rsp_body (respond (fst (Handle_registry Inr (\<lambda>b. (b, None)) (NewRegistry (NewMockContainerdStore [demo_ref]))
     (registry_context ''GET'' ''sha256:i'' ''Blob'')))) = test_bytes"
proof -
  let ?c = "registry_context ''GET'' ''sha256:i'' ''Blob''"
  let ?r = "respond (fst (Handle_registry Inr (\<lambda>b. (b, None)) (NewRegistry (NewMockContainerdStore [demo_ref])) ?c))"
  have *: "rsp_status ?r = 200" "rsp_errors ?r = []"
    by (simp_all add: Handle_registry_def handleBlob_def NewRegistry_def NewMockContainerdStore_def demo_ref_def response_simps)
  have "promises ?c ''sha256:i'' test_bytes ?r"
    by (rule registry_serves_stored_content [OF mock_store.blob_store_axioms _ _ _ _ _ _ _ *(1), THEN conjunct2])
      (simp_all add: writer_ok_def mock_blob_def demo_ref_def)
  then show ?thesis using * by (simp add: promises_def)
qed

text \<open>
  How the handler refuses. It never answers 200 without content: an unknown reference and a
  blob or manifest that the store does not know are answered 404, a malformed digest 400, a manifest
  of \<open>maxManifestSize\<close> bytes or more 404; a context without a reference type makes it panic after
  it has answered 500.
\<close>

theorem registry_refusals:
  assumes "Handle_registry digestParse conn (NewRegistry st) c = (calls, out)" and "GetString c DigestCtxKey = dgst"
    and "ctx_Get c RefTypeCtxKey = rt"
  shows "if dgst = [] \<and> sm_Resolve st (GetString c ReferenceCtxKey) = Inl e then rsp_status (respond calls) = 404 \<and> out = Ret ()
    else if dgst \<noteq> [] \<and> digestParse dgst = Inl e then rsp_status (respond calls) = 400 \<and> out = Ret ()
    else if dgst \<noteq> [] \<and> digestParse dgst = Inr d \<and> rt = None then rsp_status (respond calls) = 500 \<and> out = Panic TypeAssertion
    else if dgst \<noteq> [] \<and> digestParse dgst = Inr d \<and> rt = Some (CtxRefType t) \<and>
      (sm_Size st d = Inl e \<or> t = ''Manifest'' \<and> (sm_Bytes st d = Inl e \<or> sm_Size st d = Inr n \<and> maxManifestSize \<le> n))
    then rsp_status (respond calls) = 404 \<and> out = Ret ()
    else True"
  using assms by (auto simp: Handle_registry_def handleManifest_def handleBlob_def NewRegistry_def respond_defs
      split: sum.splits if_splits)

theorem registry_refusals_witness:
  "rsp_status (respond (fst (Handle_registry (\<lambda>s. Inl ErrSyntax) (\<lambda>b. (b, None)) (NewRegistry (NewMockContainerdStore []))
     (registry_context ''GET'' ''x'' ''Blob'')))) = 400"
  using registry_refusals [of "\<lambda>s. Inl ErrSyntax" "\<lambda>b. (b, None)" "NewMockContainerdStore []" "registry_context ''GET'' ''x'' ''Blob''"
      _ _ "''x''" _ ErrSyntax]
  by (simp add: prod_eq_iff)

end
