(* ===== verification/Oci_Path.thy ===== *)
theory Oci_Path
  imports Url_Parser
begin

section \<open>Paths of the distribution API: \<open>src/pkg/oci/distribution/v2.go\<close>\<close>

text \<open>
  Model of \<open>ParsePathComponents\<close>: three regular expressions, tried in turn, tell a manifest by tag, a
  manifest by digest and a blob by digest apart. The theorems show that paths built from a repository
  name and a tag or a digest are taken apart again.
\<close>

subsection \<open>Model\<close>

definition name_char :: "char \<Rightarrow> bool" where "name_char c \<longleftrightarrow> cls_lower c \<or> is_digit c"
definition name_sep :: "char \<Rightarrow> bool" where "name_sep c \<longleftrightarrow> c \<in> set ''._-''"
definition tag_first :: "char \<Rightarrow> bool" where "tag_first c \<longleftrightarrow> cls_alnum c \<or> c = CHR ''_''"
definition tag_char :: "char \<Rightarrow> bool" where "tag_char c \<longleftrightarrow> cls_alnum c \<or> c \<in> set ''._-''"

definition name_part :: "nat \<Rightarrow> re" where
  "name_part g = Seq (Plus (Cls name_char)) (Star (Grp g (Seq (Cls name_sep) (Plus (Cls name_char)))))"

definition nameRegex :: re where
  "nameRegex = Grp 1 (Seq (name_part 2) (Star (Grp 3 (Seq (Lit ''/'') (name_part 4)))))"

definition tagRegex :: re where
  "tagRegex = Grp 5 (Seq (Cls tag_first) (RepUpTo 127 (Cls tag_char)))"

definition manifestRegexTag :: re where
  "manifestRegexTag = Seq (Lit ''/v2/'') (Seq nameRegex (Seq (Lit ''/manifests/'') (Seq tagRegex EndText)))"

definition manifestRegexDigest :: re where
  "manifestRegexDigest = Seq (Lit ''/v2/'') (Seq nameRegex (Seq (Lit ''/manifests/'') (Grp 5 (Star Dot))))"

definition blobsRegexDigest :: re where
  "blobsRegexDigest = Seq (Lit ''/v2/'') (Seq nameRegex (Seq (Lit ''/blobs/'') (Grp 5 (Star Dot))))"

definition ReferenceTypeManifest :: string where "ReferenceTypeManifest = ''Manifest''"
definition ReferenceTypeBlob :: string where "ReferenceTypeBlob = ''Blob''"

definition ParsePathComponents :: "string \<Rightarrow> string \<Rightarrow> (string \<times> string \<times> string) result" where
  "ParsePathComponents registry path =
     (let comps = FindStringSubmatch 5 manifestRegexTag path in
      if length comps = 6 then
        (if registry = [] then Inl (Errorf ''registry parameter needs to be set for tag references'')
         else Inr (registry @ ''/'' @ comps ! 1 @ '':'' @ comps ! 5, [], ReferenceTypeManifest))
      else
        (let comps = FindStringSubmatch 5 manifestRegexDigest path in
         if length comps = 6 then Inr ([], comps ! 5, ReferenceTypeManifest)
         else
           (let comps = FindStringSubmatch 5 blobsRegexDigest path in
            if length comps = 6 then Inr ([], comps ! 5, ReferenceTypeBlob)
            else Inl (Errorf ''distribution path could not be parsed''))))"

lemma ParsePathComponents_cases:
  "ParsePathComponents registry path =
    (case find_match manifestRegexTag path of
       Some (m, cs) \<Rightarrow> if registry = [] then Inl (Errorf ''registry parameter needs to be set for tag references'')
         else Inr (registry @ ''/'' @ capture cs 1 @ '':'' @ capture cs 5, [], ReferenceTypeManifest)
     | None \<Rightarrow> (case find_match manifestRegexDigest path of
         Some (m, cs) \<Rightarrow> Inr ([], capture cs 5, ReferenceTypeManifest)
       | None \<Rightarrow> (case find_match blobsRegexDigest path of
           Some (m, cs) \<Rightarrow> Inr ([], capture cs 5, ReferenceTypeBlob)
         | None \<Rightarrow> Inl (Errorf ''distribution path could not be parsed''))))"
  by (simp add: ParsePathComponents_def FindStringSubmatch_def Let_def split: option.split)

subsection \<open>Repository names\<close>

text \<open>Runs of lower-case letters and digits, separated by single dots, underscores, dashes or slashes.\<close>

fun name_rest :: "bool \<Rightarrow> string \<Rightarrow> bool" where
  "name_rest after_char [] \<longleftrightarrow> after_char"
| "name_rest after_char (c # s) \<longleftrightarrow>
     (if name_char c then name_rest True s else after_char \<and> (name_sep c \<or> c = CHR ''/'') \<and> name_rest False s)"

definition name_ok :: "string \<Rightarrow> bool" where "name_ok s \<longleftrightarrow> name_rest False s"

definition tag_ok :: "string \<Rightarrow> bool" where
  "tag_ok s \<longleftrightarrow> s \<noteq> [] \<and> length s \<le> 128 \<and> tag_first (hd s) \<and> list_all tag_char (tl s)"

definition runs_ok :: "(char \<times> string) list \<Rightarrow> bool" where
  "runs_ok ps \<longleftrightarrow> (\<forall>(c, x) \<in> set ps. (name_sep c \<or> c = CHR ''/'') \<and> x \<noteq> [] \<and> list_all name_char x)"

lemma name_rest_runs:
  "name_rest b s \<Longrightarrow> \<exists>a ps. s = a @ concat (map (\<lambda>(c, x). c # x) ps) \<and> list_all name_char a \<and> runs_ok ps \<and> (b \<or> a \<noteq> [])"
proof (induction b s rule: name_rest.induct)
  case (1 b)
  then show ?case by (intro exI [of _ "[]"]) (simp add: runs_ok_def)
next
  case (2 b c s)
  show ?case
  proof (cases "name_char c")
    case True
    then obtain a ps where "s = a @ concat (map (\<lambda>(c, x). c # x) ps)" "list_all name_char a" "runs_ok ps" using 2 by auto
    then show ?thesis by (intro exI [of _ "c # a"] exI [of _ ps]) (simp add: True)
  next
    case False
    then obtain a ps where "s = a @ concat (map (\<lambda>(c, x). c # x) ps)" "list_all name_char a" "runs_ok ps" "a \<noteq> []" using 2 by auto
    then show ?thesis using 2(3) False by (intro exI [of _ "[]"] exI [of _ "(c, a) # ps"]) (auto simp: runs_ok_def)
  qed
qed

abbreviation sep_runs :: "nat \<Rightarrow> re" where "sep_runs g \<equiv> Star (Grp g (Seq (Cls name_sep) (Plus (Cls name_char))))"
abbreviation slash_parts :: re where "slash_parts \<equiv> Star (Grp 3 (Seq (Lit ''/'') (name_part 4)))"

lemma Plus_name_char: "x \<noteq> [] \<Longrightarrow> list_all name_char x \<Longrightarrow> t \<in> rests (Plus (Cls name_char)) (x @ t)"
  by (auto simp: rests_Plus_Cls)

lemma rests_length: "t \<in> rests r s \<Longrightarrow> length t \<le> length s"
  using rests_suffix by fastforce

lemma sep_runs_step:
  assumes "name_sep c" and "x \<noteq> []" and "list_all name_char x" and "u \<in> rests (sep_runs g) t"
  shows "u \<in> rests (sep_runs g) (c # x @ t)"
proof (rule rests_StarI(2) [OF _ _ assms(4)])
  show "t \<in> rests (Grp g (Seq (Cls name_sep) (Plus (Cls name_char)))) (c # x @ t)" using assms(1-3) Plus_name_char by simp
qed simp

lemma runs_accepted:
  assumes "runs_ok ps"
  shows "\<exists>u. u \<in> rests (sep_runs g) (concat (map (\<lambda>(c, x). c # x) ps) @ t) \<and> t \<in> rests slash_parts u"
  using assms
proof (induction ps arbitrary: g)
  case Nil
  show ?case using rests_StarI(1) by auto
next
  case (Cons p ps)
  obtain c x where p: "p = (c, x)" by fastforce
  let ?s = "concat (map (\<lambda>(c, x). c # x) ps) @ t"
  have x: "x \<noteq> []" "list_all name_char x" "name_sep c \<or> c = CHR ''/''" and ps: "runs_ok ps"
    using Cons.prems by (auto simp: runs_ok_def p)
  show ?case
  proof (cases "name_sep c")
    case True
    obtain u where "u \<in> rests (sep_runs g) ?s" "t \<in> rests slash_parts u" using Cons.IH [OF ps] by blast
    then show ?thesis using sep_runs_step [OF True x(1,2)] by (auto simp: p)
  next
    case False
    obtain u where u: "u \<in> rests (sep_runs 4) ?s" "t \<in> rests slash_parts u" using Cons.IH [OF ps] by blast
    have "u \<in> rests (Grp 3 (Seq (Lit ''/'') (name_part 4))) (''/'' @ x @ ?s)"
    proof -
      have "x @ ?s \<in> rests (Lit ''/'') (''/'' @ x @ ?s)" unfolding rests_Lit ..
      then show ?thesis using Plus_name_char [OF x(1,2), of ?s] u(1) unfolding name_part_def rests_simps rests_Seq UN_iff by blast
    qed
    moreover have "length u < length (''/'' @ x @ ?s)" using rests_length [OF u(1)] by simp
    ultimately have "t \<in> rests slash_parts (''/'' @ x @ ?s)" by (rule rests_StarI(2) [OF _ _ u(2)])
    then show ?thesis using False x(3) by (intro exI [of _ "''/'' @ x @ ?s"]) (auto simp: p rests_StarI(1))
  qed
qed

lemma name_accepted:
  assumes "name_ok name" shows "t \<in> rests nameRegex (name @ t)"
proof -
  obtain a ps where a: "name = a @ concat (map (\<lambda>(c, x). c # x) ps)" "list_all name_char a" "runs_ok ps" "a \<noteq> []"
    using name_rest_runs [of False name] assms unfolding name_ok_def by blast
  obtain u where u: "u \<in> rests (sep_runs 2) (concat (map (\<lambda>(c, x). c # x) ps) @ t)" "t \<in> rests slash_parts u"
    using runs_accepted [OF a(3)] by blast
  have "concat (map (\<lambda>(c, x). c # x) ps) @ t \<in> rests (Plus (Cls name_char)) (name @ t)"
    using Plus_name_char [OF a(4,2)] by (simp add: a(1))
  then show ?thesis using u unfolding nameRegex_def name_part_def rests_simps rests_Seq UN_iff by blast
qed

lemma tag_accepted:
  assumes "tag_ok tag" shows "t \<in> rests tagRegex (tag @ t)"
proof -
  obtain c x where "tag = c # x" "tag_first c" "list_all tag_char x" "length x \<le> 127" using assms by (cases tag) (auto simp: tag_ok_def)
  then show ?thesis by (auto simp: tagRegex_def rests_RepUpTo_Cls)
qed

subsection \<open>What a path is taken apart into\<close>

lemma groups_name: "groups nameRegex = {1, 2, 3, 4}"
  by (auto simp: nameRegex_def name_part_def)

lemma groups_RepUpTo_Cls [simp]: "groups (RepUpTo n (Cls P)) = {}"
  by (induction n) (simp_all add: Opt_def)

lemma path_groups:
  assumes "(t, ds) \<in> set (ms (Seq (Lit a) (Seq nameRegex (Seq (Lit b) r))) [] s)" and "groups r \<subseteq> {5}"
  obtains n u es where "s = a @ n @ b @ u" and "capture ds 1 = n" and "(t, ds) \<in> set (ms r es u)"
proof -
  obtain u1 e1 where 1: "(u1, e1) \<in> set (ms (Lit a) [] s)" "(t, ds) \<in> set (ms (Seq nameRegex (Seq (Lit b) r)) e1 u1)"
    using Seq_match [OF assms(1)] by metis
  obtain u2 e2 where 2: "(u2, e2) \<in> set (ms nameRegex e1 u1)" "(t, ds) \<in> set (ms (Seq (Lit b) r) e2 u2)" "capture ds 1 = capture e2 1"
    using Seq_match [OF 1(2)] assms(2) by (metis (no_types, lifting) groups.simps(3) groups_derived(1) Un_empty_left insertE empty_iff subsetD
        one_eq_numeral_iff semiring_norm(84))
  obtain u3 e3 where 3: "(u3, e3) \<in> set (ms (Lit b) e2 u2)" "(t, ds) \<in> set (ms r e3 u3)" using Seq_match [OF 2(2)] by metis
  obtain n where "u1 = n @ u2" "capture e2 1 = n"
    using Grp_match [OF 2(1) [unfolded nameRegex_def]] by (auto simp: name_part_def)
  moreover have "s = a @ u1" "u2 = b @ u3" using ms_rests [OF 1(1)] ms_rests [OF 3(1)] by simp_all
  ultimately show ?thesis using that [OF _ _ 3(2)] 2(3) by simp
qed

lemma last_slash_unique:
  assumes "a @ ''/'' @ x = b @ ''/'' @ y" and "CHR ''/'' \<notin> set x" and "CHR ''/'' \<notin> set y"
  shows "a = b" and "x = y"
proof -
  have "rev x @ CHR ''/'' # rev a = rev y @ CHR ''/'' # rev b" using arg_cong [OF assms(1), of rev] by simp
  moreover from arg_cong [OF this, of "takeWhile (\<lambda>c. c \<noteq> CHR ''/'')"] have "rev x = rev y"
    using assms(2,3) by (subst (asm) takeWhile_append2, fastforce, subst (asm) takeWhile_append2, fastforce) simp
  ultimately have "rev x = rev y \<and> rev a = rev b" by simp
  then show "a = b" and "x = y" by simp_all
qed

lemma tag_ok_chars: "tag_ok tag \<Longrightarrow> c \<in> set tag \<Longrightarrow> tag_char c"
  by (cases tag) (auto simp: tag_ok_def tag_first_def tag_char_def list_all_iff)

lemma tag_no_slash: "tag_ok tag \<Longrightarrow> CHR ''/'' \<notin> set tag"
proof
  assume "tag_ok tag" and "CHR ''/'' \<in> set tag"
  then have "tag_char CHR ''/''" by (rule tag_ok_chars)
  moreover have "\<not> tag_char CHR ''/''" by code_simp
  ultimately show False by simp
qed

lemma tag_no_colon: "CHR '':'' \<in> set d \<Longrightarrow> \<not> tag_ok d"
proof
  assume "tag_ok d" and "CHR '':'' \<in> set d"
  then have "tag_char CHR '':''" by (rule tag_ok_chars)
  moreover have "\<not> tag_char CHR '':''" by code_simp
  ultimately show False by simp
qed

lemma groups_tag: "groups (Seq tagRegex EndText) \<subseteq> {5}"
  by (simp add: tagRegex_def)

lemma tag_match:
  assumes "(t, ds) \<in> set (ms manifestRegexTag [] s)"
  obtains n where "s = ''/v2/'' @ n @ ''/manifests/'' @ capture ds 5" and "capture ds 1 = n" and "tag_ok (capture ds 5)"
proof -
  obtain n u es where n: "s = ''/v2/'' @ n @ ''/manifests/'' @ u" "capture ds 1 = n" and r: "(t, ds) \<in> set (ms (Seq tagRegex EndText) es u)"
    using path_groups [OF assms [unfolded manifestRegexTag_def]] groups_tag by blast
  obtain v fs where v: "(v, fs) \<in> set (ms tagRegex es u)" "(t, ds) \<in> set (ms EndText fs v)" "capture ds 5 = capture fs 5"
    using Seq_match [OF r] by (metis groups.simps(7) empty_iff)
  have "v = []" using v(2) by (auto split: if_splits)
  obtain x where x: "u = x @ v" "v \<in> rests (Seq (Cls tag_first) (RepUpTo 127 (Cls tag_char))) u" "capture fs 5 = x"
    by (rule Grp_match [OF v(1) [unfolded tagRegex_def]]) simp
  with \<open>v = []\<close> have "u = x" "[] \<in> rests (Seq (Cls tag_first) (RepUpTo 127 (Cls tag_char))) u" by simp_all
  moreover from this(2) obtain c y where "u = c # y" "tag_first c" "list_all tag_char y" "length y \<le> 127"
    by (auto simp: rests_Cls rests_RepUpTo_Cls)
  ultimately show ?thesis using that [of n] n v(3) x(3) by (auto simp: tag_ok_def)
qed

lemma find_match_at_start:
  assumes "x \<in> rests r s"
  obtains m cs t where "find_match r s = Some (m, cs)" and "hd (ms r [] s) = (t, cs)" and "(t, cs) \<in> set (ms r [] s)"
proof -
  have ne: "ms r [] s \<noteq> []" using assms by (auto simp: rests_def)
  obtain t cs where "hd (ms r [] s) = (t, cs)" by fastforce
  then show ?thesis using that find_match_first [OF ne] hd_in_set [OF ne] by metis
qed

text \<open>The first match of a digest expression: the group takes everything up to the end of the line.\<close>

lemma concat_map_concat: "concat (map f (concat xss)) = concat (map (\<lambda>xs. concat (map f xs)) xss)"
  by (induction xss) simp_all

lemma ms_Seq_assoc: "ms (Seq a (Seq b c)) cs s = ms (Seq (Seq a b) c) cs s"
  by (simp add: concat_map_concat comp_def case_prod_unfold)

lemma hd_concat_map: "xs \<noteq> [] \<Longrightarrow> f (hd xs) \<noteq> [] \<Longrightarrow> hd (concat (map f xs)) = hd (f (hd xs))"
  by (cases xs) simp_all

lemma digest_first_match:
  assumes "x \<in> rests (Seq (Lit a) (Seq nameRegex (Seq (Lit b) (Grp 5 (Star Dot))))) s"
    and "find_match (Seq (Lit a) (Seq nameRegex (Seq (Lit b) (Grp 5 (Star Dot))))) s = Some (m, cs)"
  obtains n u where "s = a @ n @ b @ u" and "capture cs 5 = takeWhile (\<lambda>c. of_char c \<noteq> (10::nat)) u"
proof -
  let ?A = "Seq (Lit a) (Seq nameRegex (Lit b))" and ?G = "Grp 5 (Star Dot)"
  have assoc: "ms (Seq (Lit a) (Seq nameRegex (Seq (Lit b) ?G))) [] s = ms (Seq ?A ?G) [] s"
    by (simp only: ms_Seq_assoc [of nameRegex] ms_Seq_assoc [of "Lit a"] ms.simps(4) [of "Lit a"]) (simp add: ms_Lit ms_Seq_assoc)
  obtain t where hd: "hd (ms (Seq ?A ?G) [] s) = (t, cs)" and mem: "(t, cs) \<in> set (ms (Seq ?A ?G) [] s)"
    using find_match_at_start [OF assms(1)] assms(2) unfolding assoc by (metis option.inject prod.inject)
  have ne: "ms ?A [] s \<noteq> []" using Seq_match [OF mem] by (metis list.set(1) empty_iff)
  obtain u es where u: "hd (ms ?A [] s) = (u, es)" by fastforce
  have star: "ms (Star Dot) es u \<noteq> []" "hd (ms (Star Dot) es u) = (dropWhile (\<lambda>c. of_char c \<noteq> (10::nat)) u, es)"
    using hd_ms_Star_Cls [of "\<lambda>c. of_char c \<noteq> (10::nat)" es u] by (simp_all add: Dot_def)
  have "hd (ms (Seq ?A ?G) [] s) = hd (ms ?G es u)"
    using hd_concat_map [OF ne, of "\<lambda>(t, ds). ms ?G ds t"] star(1)
    unfolding ms.simps(4) [of ?A] u prod.case by (simp del: ms.simps(4))
  also have "\<dots> = (dropWhile (\<lambda>c. of_char c \<noteq> (10::nat)) u,
      (5, take (length u - length (dropWhile (\<lambda>c. of_char c \<noteq> (10::nat)) u)) u) # es)"
    using star by (simp add: hd_map)
  also have "take (length u - length (dropWhile P u)) u = takeWhile P u" for P :: "char \<Rightarrow> bool"
  proof -
    have "length u = length (takeWhile P u) + length (dropWhile P u)" by (metis length_append takeWhile_dropWhile_id)
    then show ?thesis by (simp add: takeWhile_eq_take [symmetric])
  qed
  finally have "cs = (5, takeWhile (\<lambda>c. of_char c \<noteq> (10::nat)) u) # es" using hd by simp
  then have "capture cs 5 = takeWhile (\<lambda>c. of_char c \<noteq> (10::nat)) u" by (simp add: capture_def)
  moreover have "u \<in> rests ?A s" using hd_in_set [OF ne] u ms_rests by metis
  then obtain w where "s = a @ w" "b @ u \<in> rests nameRegex w" by auto
  moreover obtain n where "w = n @ b @ u" using rests_suffix [OF calculation(3)] by blast
  ultimately show ?thesis using that by blast
qed

definition no_newline :: "string \<Rightarrow> bool" where "no_newline s \<longleftrightarrow> list_all (\<lambda>c. of_char c \<noteq> (10::nat)) s"

lemma takeWhile_no_newline: "no_newline s \<Longrightarrow> takeWhile (\<lambda>c. of_char c \<noteq> (10::nat)) s = s"
  by (simp add: no_newline_def list_all_iff takeWhile_eq_all_conv)

lemma digest_path_matches:
  assumes "name_ok name" shows "d \<in> rests (Seq (Lit a) (Seq nameRegex (Seq (Lit b) (Grp 5 (Star Dot))))) (a @ name @ b @ d)"
proof -
  have "name @ b @ d \<in> rests (Lit a) (a @ name @ b @ d)" "d \<in> rests (Lit b) (b @ d)" by simp_all
  then show ?thesis using name_accepted [OF assms, of "b @ d"] rests_StarI(1) [of d Dot] unfolding rests_Seq rests_simps UN_iff by blast
qed

lemma digest_path_capture:
  assumes "name_ok name" and "no_newline d" and "occurrences b (a @ name @ b @ d) = 1"
  obtains m cs where "find_match (Seq (Lit a) (Seq nameRegex (Seq (Lit b) (Grp 5 (Star Dot))))) (a @ name @ b @ d) = Some (m, cs)"
    and "capture cs 5 = d"
proof -
  note match = digest_path_matches [OF assms(1), of d a b]
  obtain m cs where m: "find_match (Seq (Lit a) (Seq nameRegex (Seq (Lit b) (Grp 5 (Star Dot))))) (a @ name @ b @ d) = Some (m, cs)"
    using find_matchI [OF match] by auto
  obtain n u where n: "a @ name @ b @ d = a @ n @ b @ u" and u: "capture cs 5 = takeWhile (\<lambda>c. of_char c \<noteq> (10::nat)) u"
    using digest_first_match [OF match m] by blast
  have "d = u" using occurs_once(2) [OF assms(3), of "a @ name" d "a @ n" u] n by simp
  then show ?thesis using that [OF m] u takeWhile_no_newline [OF assms(2)] by simp
qed

text \<open>No match of the tag expression when the last segment of the path is not a tag.\<close>

lemma no_tag_match:
  assumes "s = p @ ''/'' @ d" and "CHR ''/'' \<notin> set d" and "\<not> tag_ok d"
  shows "find_match manifestRegexTag s = None"
proof (rule ccontr)
  assume "find_match manifestRegexTag s \<noteq> None"
  then obtain m cs where "find_match manifestRegexTag s = Some (m, cs)" by auto
  then obtain u t where u: "suffix u s" "(t, cs) \<in> set (ms manifestRegexTag [] u)" using find_match_SomeE by metis
  obtain n where n: "u = ''/v2/'' @ n @ ''/manifests/'' @ capture cs 5" "tag_ok (capture cs 5)" using tag_match [OF u(2)] by metis
  obtain w where "s = w @ u" using u(1) by (auto simp: suffix_def)
  then have "p @ ''/'' @ d = (w @ ''/v2/'' @ n @ ''/manifests'') @ ''/'' @ capture cs 5" using assms(1) n(1) by simp
  then have "d = capture cs 5" by (rule last_slash_unique(2) [OF _ assms(2) tag_no_slash [OF n(2)]])
  then show False using n(2) assms(3) by simp
qed

lemma no_manifest_match:
  assumes "occurrences ''/manifests/'' s = 0"
  shows "find_match manifestRegexTag s = None" and "find_match manifestRegexDigest s = None"
proof -
  have absent: "s \<noteq> p @ ''/manifests/'' @ q" for p q
  proof
    assume s: "s = p @ ''/manifests/'' @ q"
    have "length p \<in> set (filter (\<lambda>i. HasPrefix (drop i s) ''/manifests/'') [0..<Suc (length s)])"
      unfolding s set_filter by (simp del: upt_Suc) (simp add: HasPrefix_def)
    then show False using assms unfolding occurrences_def by (metis length_pos_if_in_set not_less_zero)
  qed
  have none: "find_match (Seq (Lit a) (Seq nameRegex (Seq (Lit ''/manifests/'') r))) s = None" if r: "groups r \<subseteq> {5}" for a r
  proof (rule ccontr)
    assume "find_match (Seq (Lit a) (Seq nameRegex (Seq (Lit ''/manifests/'') r))) s \<noteq> None"
    then obtain m cs where "find_match (Seq (Lit a) (Seq nameRegex (Seq (Lit ''/manifests/'') r))) s = Some (m, cs)" by auto
    then obtain u t where u: "suffix u s" and t: "(t, cs) \<in> set (ms (Seq (Lit a) (Seq nameRegex (Seq (Lit ''/manifests/'') r))) [] u)"
      by (rule find_match_SomeE)
    obtain n v where "u = a @ n @ ''/manifests/'' @ v" using path_groups [OF t r] by blast
    moreover obtain w where "s = w @ u" using u by (auto simp: suffix_def)
    ultimately show False using absent [of "w @ a @ n" v] by simp
  qed
  show "find_match manifestRegexTag s = None" unfolding manifestRegexTag_def by (rule none [OF groups_tag])
  show "find_match manifestRegexDigest s = None" unfolding manifestRegexDigest_def by (rule none) simp
qed

lemma ParsePathComponents_by_tag:
  assumes "name_ok name" and "tag_ok tag" and "registry \<noteq> []"
  shows "ParsePathComponents registry (''/v2/'' @ name @ ''/manifests/'' @ tag) =
    Inr (registry @ ''/'' @ name @ '':'' @ tag, [], ReferenceTypeManifest)"
proof -
  let ?s = "''/v2/'' @ name @ ''/manifests/'' @ tag"
  have "name @ ''/manifests/'' @ tag \<in> rests (Lit ''/v2/'') ?s" "tag \<in> rests (Lit ''/manifests/'') (''/manifests/'' @ tag)"
    "[] \<in> rests EndText []" "[] \<in> rests tagRegex tag" using tag_accepted [OF assms(2), of "[]"] by simp_all
  then have "[] \<in> rests manifestRegexTag ?s"
    using name_accepted [OF assms(1), of "''/manifests/'' @ tag"] unfolding manifestRegexTag_def rests_Seq UN_iff by blast
  then obtain m cs t where m: "find_match manifestRegexTag ?s = Some (m, cs)" and mem: "(t, cs) \<in> set (ms manifestRegexTag [] ?s)"
    by (rule find_match_at_start)
  obtain n where n: "?s = ''/v2/'' @ n @ ''/manifests/'' @ capture cs 5" "capture cs 1 = n" "tag_ok (capture cs 5)"
    using tag_match [OF mem] by metis
  have "(name @ ''/manifests'') @ ''/'' @ tag = (n @ ''/manifests'') @ ''/'' @ capture cs 5" using n(1) by simp
  note last_slash_unique [OF this tag_no_slash [OF assms(2)] tag_no_slash [OF n(3)]]
  then have "capture cs 1 = name" "capture cs 5 = tag" using n(2) by simp_all
  then show ?thesis using assms(3) by (simp only: ParsePathComponents_cases m option.case prod.case if_False)
qed

text \<open>
  C20: a manifest by tag. For a repository name and a tag as the distribution specification has
  them, and a registry, the path of the manifest yields the reference \<open>registry/name:tag\<close>, no digest
  and the type of a manifest.
\<close>

theorem ParsePathComponents_tag:
  assumes "name_ok name" and "tag_ok tag" and "registry \<noteq> []"
  shows "ParsePathComponents registry (''/v2/'' @ name @ ''/manifests/'' @ tag) =
    Inr (registry @ ''/'' @ name @ '':'' @ tag, [], ReferenceTypeManifest)"
  using assms by (rule ParsePathComponents_by_tag)

theorem ParsePathComponents_tag_witness:
  "ParsePathComponents ''docker.io'' ''/v2/library/alpine/manifests/3.18.0'' =
    Inr (''docker.io/library/alpine:3.18.0'', [], ReferenceTypeManifest)"
proof -
  have "name_ok ''library/alpine''" "tag_ok ''3.18.0''" by code_simp+
  from ParsePathComponents_tag [OF this, of "''docker.io''"] show ?thesis by simp
qed

lemma ParsePathComponents_by_digest:
  assumes "name_ok name" and "CHR ''/'' \<notin> set d" and "CHR '':'' \<in> set d" and "no_newline d"
  shows "(occurrences ''/manifests/'' (''/v2/'' @ name @ ''/manifests/'' @ d) = 1 \<longrightarrow>
      ParsePathComponents registry (''/v2/'' @ name @ ''/manifests/'' @ d) = Inr ([], d, ReferenceTypeManifest))
    \<and> (occurrences ''/manifests/'' (''/v2/'' @ name @ ''/blobs/'' @ d) = 0 \<and> occurrences ''/blobs/'' (''/v2/'' @ name @ ''/blobs/'' @ d) = 1 \<longrightarrow>
      ParsePathComponents registry (''/v2/'' @ name @ ''/blobs/'' @ d) = Inr ([], d, ReferenceTypeBlob))"
proof (intro conjI impI)
  note no_tag = tag_no_colon [OF assms(3)]
  assume once: "occurrences ''/manifests/'' (''/v2/'' @ name @ ''/manifests/'' @ d) = 1"
  have "find_match manifestRegexTag (''/v2/'' @ name @ ''/manifests/'' @ d) = None"
    by (rule no_tag_match [OF _ assms(2) no_tag, of _ "''/v2/'' @ name @ ''/manifests''"]) simp
  moreover obtain m cs where "find_match manifestRegexDigest (''/v2/'' @ name @ ''/manifests/'' @ d) = Some (m, cs)" "capture cs 5 = d"
    using digest_path_capture [OF assms(1,4) once] unfolding manifestRegexDigest_def by blast
  ultimately show "ParsePathComponents registry (''/v2/'' @ name @ ''/manifests/'' @ d) = Inr ([], d, ReferenceTypeManifest)"
    by (simp only: ParsePathComponents_cases option.case prod.case)
next
  assume occ: "occurrences ''/manifests/'' (''/v2/'' @ name @ ''/blobs/'' @ d) = 0 \<and> occurrences ''/blobs/'' (''/v2/'' @ name @ ''/blobs/'' @ d) = 1"
  obtain m cs where "find_match blobsRegexDigest (''/v2/'' @ name @ ''/blobs/'' @ d) = Some (m, cs)" "capture cs 5 = d"
    using digest_path_capture [OF assms(1,4) occ [THEN conjunct2]] unfolding blobsRegexDigest_def by blast
  then show "ParsePathComponents registry (''/v2/'' @ name @ ''/blobs/'' @ d) = Inr ([], d, ReferenceTypeBlob)"
    by (simp only: ParsePathComponents_cases no_manifest_match [OF occ [THEN conjunct1]] option.case prod.case)
qed

text \<open>
  Manifests and blobs by digest. The path of a manifest or blob yields the digest and the type,
  whatever the registry, when the digest is not of the form of a tag (it has an algorithm prefix) and
  the directory name occurs once in the path.
\<close>

theorem ParsePathComponents_digest:
  assumes "name_ok name" and "CHR ''/'' \<notin> set d" and "CHR '':'' \<in> set d" and "no_newline d"
  shows "(occurrences ''/manifests/'' (''/v2/'' @ name @ ''/manifests/'' @ d) = 1 \<longrightarrow>
      ParsePathComponents registry (''/v2/'' @ name @ ''/manifests/'' @ d) = Inr ([], d, ReferenceTypeManifest))
    \<and> (occurrences ''/manifests/'' (''/v2/'' @ name @ ''/blobs/'' @ d) = 0 \<and> occurrences ''/blobs/'' (''/v2/'' @ name @ ''/blobs/'' @ d) = 1 \<longrightarrow>
      ParsePathComponents registry (''/v2/'' @ name @ ''/blobs/'' @ d) = Inr ([], d, ReferenceTypeBlob))"
  using assms by (rule ParsePathComponents_by_digest)

theorem ParsePathComponents_digest_witness:
  "ParsePathComponents [] ''/v2/library/nginx/blobs/sha256:29'' = Inr ([], ''sha256:29'', ReferenceTypeBlob)"
proof -
  have "name_ok ''library/nginx''" "CHR ''/'' \<notin> set ''sha256:29''" "CHR '':'' \<in> set ''sha256:29''" "no_newline ''sha256:29''"
    "occurrences ''/manifests/'' ''/v2/library/nginx/blobs/sha256:29'' = 0" "occurrences ''/blobs/'' ''/v2/library/nginx/blobs/sha256:29'' = 1"
    by code_simp+
  with ParsePathComponents_digest [of "''library/nginx''" "''sha256:29''" "[]"] show ?thesis by simp
qed

end
