(* ===== verification/V2_Handler.thy ===== *)
theory V2_Handler
  imports Registry_Mirror Containerd_Registry Oci_Path
begin

section \<open>The handler of the distribution API: \<open>src/pkg/handlers/v2/handler.go\<close>\<close>

text \<open>
  Model of the handler behind \<open>/v2\<close>: the ping, the filling of the context from path and query, and
  the choice between the registry, for a request of a peer, and the mirror, for one of the container
  runtime.
\<close>

record 'w V2Handler =
  vh_proxy :: "'w Mirror"
  vh_registry :: Registry
  vh_metricsRecorder :: "'w Metrics"

definition New_v2 :: "'w Metrics \<Rightarrow> 'w Router \<Rightarrow> Store \<Rightarrow> 'w V2Handler" where
  "New_v2 metrics router containerdStore =
     \<lparr>vh_proxy = New_mirror metrics router, vh_registry = NewRegistry containerdStore, vh_metricsRecorder = metrics\<rparr>"

definition fill_v2 :: "Context \<Rightarrow> go_error option \<times> Context" where
  "fill_v2 c0 =
     (let c1 = ctx_Set ''handler'' (CtxString ''v2'') c0;
          ns = (if Query c1 ''ns'' = [] then ''docker.io'' else Query c1 ''ns'');
          c2 = ctx_Set NamespaceCtxKey (CtxString ns) c1
      in case ParsePathComponents ns (req_Path (ctx_Request c2)) of
           Inl e \<Rightarrow> (Some e, c2)
         | Inr (ref, dgst, refType) \<Rightarrow>
             (None, ctx_Set RefTypeCtxKey (CtxRefType refType)
                (ctx_Set DigestCtxKey (CtxString dgst) (ctx_Set ReferenceCtxKey (CtxString ref) c2))))"

definition Handle_v2 :: "(string \<Rightarrow> string result) \<Rightarrow> string \<Rightarrow> string option \<Rightarrow> writer \<Rightarrow> 'w V2Handler \<Rightarrow> Context \<Rightarrow> 'w \<Rightarrow>
    handling \<times> 'w" where
  "Handle_v2 digestParse NodeName clientIP conn h c w =
     (let p = path_Clean (req_Path (ctx_Request c));
          (r, w') =
            (if p = ''/v2'' \<or> p = ''/v2/'' then
               (([SetStatus (if req_Method (ctx_Request c) \<noteq> ''GET'' \<and> req_Method (ctx_Request c) \<noteq> ''HEAD'' then 404 else 200)], Ret ()), w)
             else
               (case fill_v2 c of
                  (Some e, c') \<Rightarrow> (([AbortWithError 400 e], Ret ()), w)
                | (None, c') \<Rightarrow>
                    if IsRequestFromAPeer c' then (Handle_registry digestParse conn (vh_registry h) c', w)
                    else Handle_mirror NodeName clientIP conn (vh_proxy h) c' w))
      in (r, mt_RecordRequest (vh_metricsRecorder h) (req_Method (ctx_Request c)) ''oci'' w'))"

subsection \<open>What the context is filled with\<close>

lemma fill_v2_Request [simp]: "ctx_Request (snd (fill_v2 c)) = ctx_Request c"
  by (simp add: fill_v2_def Let_def split: sum.split prod.split)

lemma fill_v2_frame:
  assumes "fill_v2 c = (r, c')" shows "ctx_Request c' = ctx_Request c"
  using fill_v2_Request [of c] assms by simp

definition ns_of :: "Context \<Rightarrow> string" where
  "ns_of c = (if Query c ''ns'' = [] then ''docker.io'' else Query c ''ns'')"

lemma Query_ctx_Set [simp]: "Query (ctx_Set k v c) q = Query c q"
  by (simp add: Query_def)

lemma fill_v2_eq:
  "fill_v2 c =
     (let c2 = ctx_Set NamespaceCtxKey (CtxString (ns_of c)) (ctx_Set ''handler'' (CtxString ''v2'') c) in
      case ParsePathComponents (ns_of c) (req_Path (ctx_Request c)) of
        Inl e \<Rightarrow> (Some e, c2)
      | Inr (ref, dgst, refType) \<Rightarrow>
          (None, ctx_Set RefTypeCtxKey (CtxRefType refType)
             (ctx_Set DigestCtxKey (CtxString dgst) (ctx_Set ReferenceCtxKey (CtxString ref) c2))))"
  unfolding fill_v2_def ns_of_def Let_def Query_ctx_Set ctx_Set_frame by (rule refl)

lemma fill_v2_Some:
  assumes "ParsePathComponents (ns_of c) (req_Path (ctx_Request c)) = Inr (ref, dgst, refType)"
  shows "fst (fill_v2 c) = None"
    and "GetString (snd (fill_v2 c)) DigestCtxKey = dgst" and "GetString (snd (fill_v2 c)) ReferenceCtxKey = ref"
    and "ctx_Get (snd (fill_v2 c)) RefTypeCtxKey = Some (CtxRefType refType)"
    and "GetString (snd (fill_v2 c)) CorrelationIdCtxKey = GetString c CorrelationIdCtxKey"
  unfolding fill_v2_eq assms by (simp_all add: Let_def GetString_Set ctx_Get_Set ctx_key_defs)

text \<open>A path below \<open>/v2/\<close> with a repository name is not the ping.\<close>

lemma Handle_v2_peer:
  assumes "path_Clean (req_Path (ctx_Request c)) \<notin> {''/v2'', ''/v2/''}" and "fill_v2 c = (None, c')" and "IsRequestFromAPeer c"
  shows "Handle_v2 digestParse NodeName clientIP conn h c w =
    (Handle_registry digestParse conn (vh_registry h) c', mt_RecordRequest (vh_metricsRecorder h) (req_Method (ctx_Request c)) ''oci'' w)"
  using assms fill_v2_frame [OF assms(2)] by (simp add: Handle_v2_def IsRequestFromAPeer_def)

lemma Handle_v2_runtime:
  assumes "path_Clean (req_Path (ctx_Request c)) \<notin> {''/v2'', ''/v2/''}" and "fill_v2 c = (None, c')" and "\<not> IsRequestFromAPeer c"
  shows "Handle_v2 digestParse NodeName clientIP conn h c w =
    (case Handle_mirror NodeName clientIP conn (vh_proxy h) c' w of
       (r, w') \<Rightarrow> (r, mt_RecordRequest (vh_metricsRecorder h) (req_Method (ctx_Request c)) ''oci'' w'))"
  using assms fill_v2_frame [OF assms(2)] by (simp add: Handle_v2_def IsRequestFromAPeer_def)

text \<open>
  C12: a request of a peer never leaves the node. Whatever it asks for, the answer does not depend
  on the router, the network or the peers, and the only trace in the world is the request metric.
\<close>

theorem v2_peer_request_stays_local:
  assumes "IsRequestFromAPeer c" and "vh_registry h = vh_registry h'" and "vh_metricsRecorder h = vh_metricsRecorder h'"
  shows "Handle_v2 digestParse NodeName clientIP conn h c w = Handle_v2 digestParse NodeName clientIP conn h' c w
    \<and> snd (Handle_v2 digestParse NodeName clientIP conn h c w) = mt_RecordRequest (vh_metricsRecorder h) (req_Method (ctx_Request c)) ''oci'' w"
proof -
  have peer: "IsRequestFromAPeer (snd (fill_v2 c))" using assms(1) by (simp add: IsRequestFromAPeer_def)
  show ?thesis using peer assms(2,3) by (cases "fill_v2 c") (simp add: Handle_v2_def Let_def split: option.split)
qed

text \<open>A world that lists the lookups of the router and the request metrics, and a peer that asks for a manifest.\<close>

definition asking_handler :: "string \<Rightarrow> string list V2Handler" where
  "asking_handler node = New_v2
     \<lparr>mt_RecordRequest = (\<lambda>m h w. w @ [m @ '' '' @ h]), mt_RecordPeerDiscovery = (\<lambda>_ w. w),
      mt_RecordPeerResponse = (\<lambda>_ _ _ _ w. w), mt_RecordUpstreamResponse = (\<lambda>_ _ _ _ w. w)\<rparr>
     \<lparr>rt_Net = \<lparr>nw_HTTPClientFor = (\<lambda>_ _ w. (Inl EOF, w)), nw_RoundTripperFor = (\<lambda>_ _ w. (Inl EOF, w))\<rparr>,
      rt_Resolve = (\<lambda>_ key _ _ w. (Inr [Closed], w @ [node @ '' '' @ key])),
      rt_ResolveWithNegativeCacheCallback = (\<lambda>_ key _ _ w. (Inl EOF, w @ [node @ '' '' @ key])), rt_Provide = (\<lambda>_ w. (None, w))\<rparr>
     (NewMockContainerdStore [])"

definition peer_manifest :: Context where
  "peer_manifest = \<lparr>ctx_Request = \<lparr>req_Method = ''GET'', req_Path = ''/v2/r/manifests/t'', req_RawQuery = [],
      req_Header = [(''X-Ms-Peerd-Requestfrompeer'', [''true''])]\<rparr>, ctx_Params = [], ctx_Query = [], ctx_Keys = []\<rparr>"

theorem v2_peer_request_stays_local_witness:
  "IsRequestFromAPeer peer_manifest
   \<and> Handle_v2 Inr ''n'' None (\<lambda>b. (b, None)) (asking_handler ''a'') peer_manifest [] = Handle_v2 Inr ''n'' None (\<lambda>b. (b, None)) (asking_handler ''b'') peer_manifest []
   \<and> snd (Handle_v2 Inr ''n'' None (\<lambda>b. (b, None)) (asking_handler ''a'') peer_manifest []) = [''GET oci'']"
proof -
  have peer: "IsRequestFromAPeer peer_manifest" by (simp add: IsRequestFromAPeer_def peer_manifest_def Header_Get_def header_keys_canonical)
  have same: "vh_registry (asking_handler ''a'') = vh_registry (asking_handler ''b'')"
    "vh_metricsRecorder (asking_handler ''a'') = vh_metricsRecorder (asking_handler ''b'')" by (simp_all add: asking_handler_def New_v2_def)
  have "mt_RecordRequest (vh_metricsRecorder (asking_handler ''a'')) (req_Method (ctx_Request peer_manifest)) ''oci'' [] = [''GET oci'']"
    by (simp add: asking_handler_def New_v2_def peer_manifest_def)
  then show ?thesis using v2_peer_request_stays_local [OF peer same, of Inr "''n''" None "\<lambda>b. (b, None)" "[]"] peer by metis
qed

end
