(* ===== verification/Http_Server.thy ===== *)
theory Http_Server
  imports V2_Handler
begin

section \<open>The HTTP server of a node: \<open>src/pkg/handlers/root.go\<close>\<close>

text \<open>
  Model of the route table and the middleware around the handlers. The engine is gin, a third-party
  package: how it matches a path against a route pattern is the argument \<open>gm\<close>, with the documented
  behaviour of catch-all parameters as \<open>route_match\<close>; when no route fits it redirects to the path with
  the trailing slash added or removed if a route fits that, and else answers 404, and its \<open>Recovery\<close> middleware answers 500 after a panic unless the response has been started. What a
  client of the server sees is \<open>http_reply\<close>, the framing of \<open>net/http\<close>. The log line after a
  request is left out. Query parameters are decoded by the argument \<open>parseQuery\<close>.
\<close>

subsection \<open>Model\<close>

datatype route = FileRoute | V2Route

definition registerRoutes :: "(string \<times> string \<times> route) list" where
  "registerRoutes =
     [(''HEAD'', ''/blobs/*url'', FileRoute), (''GET'', ''/blobs/*url'', FileRoute),
      (''HEAD'', ''/v2'', V2Route), (''GET'', ''/v2'', V2Route),
      (''HEAD'', ''/v2/*ref'', V2Route), (''GET'', ''/v2/*ref'', V2Route)]"

fun find_route :: "(string \<Rightarrow> string \<Rightarrow> (string \<times> string) list option) \<Rightarrow> (string \<times> string \<times> route) list \<Rightarrow> string \<Rightarrow> string \<Rightarrow>
    (route \<times> (string \<times> string) list) option" where
  "find_route gm [] method path = None"
| "find_route gm ((m, pat, r) # rs) method path =
     (case (if m = method then gm pat path else None) of Some ps \<Rightarrow> Some (r, ps) | None \<Rightarrow> find_route gm rs method path)"

definition route_match :: "(string \<Rightarrow> string \<Rightarrow> (string \<times> string) list option) \<Rightarrow> bool" where
  "route_match gm \<longleftrightarrow> (\<forall>path.
     gm ''/blobs/*url'' path = (if HasPrefix path ''/blobs/'' then Some [(''url'', drop 6 path)] else None) \<and>
     gm ''/v2'' path = (if path = ''/v2'' then Some [] else None) \<and>
     gm ''/v2/*ref'' path = (if HasPrefix path ''/v2/'' then Some [(''ref'', drop 3 path)] else None))"

text \<open>The answer when no route fits; of a redirection, only the status.\<close>

definition no_route :: "(string \<Rightarrow> string \<Rightarrow> (string \<times> string) list option) \<Rightarrow> string \<Rightarrow> string \<Rightarrow> gin_call list" where
  "no_route gm method path =
     (let other = (if path \<noteq> [] \<and> last path = CHR ''/'' then butlast path else path @ ''/'') in
      if path \<noteq> ''/'' \<and> find_route gm registerRoutes method other \<noteq> None
      then [AbortWithStatus (if method = ''GET'' then 301 else 307)] else [AbortWithStatus 404])"

definition recovered :: "handling \<Rightarrow> gin_call list" where
  "recovered h = (case snd h of Panic p \<Rightarrow> fst h @ [AbortWithStatus 500] | _ \<Rightarrow> fst h)"

text \<open>
  A request through the middleware of \<open>newEngine\<close>: the route and the context that its handler gets. The
  handlers are those given to \<open>registerRoutes\<close>.
\<close>

definition dispatched :: "(string \<Rightarrow> string \<Rightarrow> (string \<times> string) list option) \<Rightarrow> string \<Rightarrow> Context \<Rightarrow> (route \<times> Context) option" where
  "dispatched gm uuid c =
     map_option (\<lambda>(r, params). (r, ctx_Set LoggerCtxKey CtxLogger (FillCorrelationId uuid (c\<lparr>ctx_Params := params\<rparr>))))
       (find_route gm registerRoutes (req_Method (ctx_Request c)) (req_Path (ctx_Request c)))"

definition engine_serve :: "(string \<Rightarrow> string \<Rightarrow> (string \<times> string) list option) \<Rightarrow> string \<Rightarrow>
    (Context \<Rightarrow> 's \<Rightarrow> handling \<times> 's) \<Rightarrow> (Context \<Rightarrow> 's \<Rightarrow> handling \<times> 's) \<Rightarrow> Context \<Rightarrow> 's \<Rightarrow> gin_call list \<times> 's" where
  "engine_serve gm uuid f v c s =
     (case dispatched gm uuid c of
        None \<Rightarrow> (no_route gm (req_Method (ctx_Request c)) (req_Path (ctx_Request c)), s)
      | Some (r, c') \<Rightarrow> (let (h, s') = (case r of FileRoute \<Rightarrow> f c' s | V2Route \<Rightarrow> v c' s) in (recovered h, s')))"

definition incoming :: "(string \<Rightarrow> (string \<times> string) list) \<Rightarrow> http_Request \<Rightarrow> Context" where
  "incoming parseQuery req =
     \<lparr>ctx_Request = \<lparr>req_Method = hr_Method req, req_Path = u_Path (hr_URL req), req_RawQuery = u_RawQuery (hr_URL req), req_Header = hr_Header req\<rparr>,
      ctx_Params = [], ctx_Query = parseQuery (u_RawQuery (hr_URL req)), ctx_Keys = []\<rparr>"

text \<open>
  What the client receives: a response with fewer bytes than declared breaks off with
  \<open>io.ErrUnexpectedEOF\<close>; a response to HEAD has no body.
\<close>

definition http_reply :: "string \<Rightarrow> Response \<Rightarrow> http_Response" where
  "http_reply method r =
     (let cl = Header_Get (rsp_header r) ''Content-Length'';
          declared = (if cl = [] then int (length (rsp_body r)) else fst (ParseInt cl))
      in \<lparr>hs_StatusCode = rsp_status r, hs_ContentLength = declared, hs_Header = rsp_header r,
          hs_Body = (if method = ''HEAD'' then [] else rsp_body r),
          hs_BodyErr = (if method \<noteq> ''HEAD'' \<and> int (length (rsp_body r)) < declared then Some ErrUnexpectedEOF else None)\<rparr>)"

definition node_client :: "(string \<Rightarrow> string \<Rightarrow> (string \<times> string) list option) \<Rightarrow> string \<Rightarrow> (string \<Rightarrow> (string \<times> string) list) \<Rightarrow>
    (Context \<Rightarrow> 'w \<Rightarrow> handling \<times> 'w) \<Rightarrow> (Context \<Rightarrow> 'w \<Rightarrow> handling \<times> 'w) \<Rightarrow> 'w http_client" where
  "node_client gm uuid parseQuery f v req w =
     (case engine_serve gm uuid f v (incoming parseQuery req) w of
        (calls, w') \<Rightarrow> (Inr (http_reply (hr_Method req) (respond calls)), w'))"

subsection \<open>Dispatch\<close>

lemma route_exclusive: "HasPrefix path ''/v2/'' \<Longrightarrow> \<not> HasPrefix path ''/blobs/''"
  by (cases path; cases "tl path") (auto simp: HasPrefix_def)

lemma find_route_v2:
  assumes "route_match gm" and "method = ''GET'' \<or> method = ''HEAD''" and "HasPrefix path ''/v2/''"
  shows "find_route gm registerRoutes method path = Some (V2Route, [(''ref'', drop 3 path)])"
proof -
  have "\<not> HasPrefix path ''/blobs/''" "path \<noteq> ''/v2''" using assms(3) route_exclusive by (auto simp: HasPrefix_def)
  then show ?thesis using assms by (auto simp: route_match_def registerRoutes_def)
qed

lemma find_route_None:
  assumes "route_match gm"
  shows "find_route gm registerRoutes method path \<noteq> None \<longleftrightarrow>
    method \<in> {''GET'', ''HEAD''} \<and> (HasPrefix path ''/blobs/'' \<or> path = ''/v2'' \<or> HasPrefix path ''/v2/'')"
  using assms by (auto simp: route_match_def registerRoutes_def)

text \<open>A path that fits no route with GET, and fits one once its trailing slash is changed.\<close>

lemma HasPrefix_snoc: "HasPrefix (s @ [c]) p \<longleftrightarrow> HasPrefix s p \<or> p = s @ [c]"
proof (cases "length p \<le> length s")
  case False
  then have "take (length p) (s @ [c]) = s @ [c]" "take (length p) s = s" by simp_all
  then show ?thesis using False by (auto simp: HasPrefix_def)
qed (auto simp: HasPrefix_def)

lemma no_route_status:
  assumes "route_match gm" and "\<not> (method \<in> {''GET'', ''HEAD''} \<and> (HasPrefix path ''/blobs/'' \<or> path = ''/v2'' \<or> HasPrefix path ''/v2/''))"
  shows "no_route gm method path = [AbortWithStatus (if path = ''/blobs'' \<and> method = ''GET'' then 301 else if path = ''/blobs'' \<and> method = ''HEAD'' then 307 else 404)]"
proof (cases "method \<in> {''GET'', ''HEAD''}")
  case True
  let ?fits = "\<lambda>p. HasPrefix p ''/blobs/'' \<or> p = ''/v2'' \<or> HasPrefix p ''/v2/''"
  have no: "\<not> ?fits path" using assms(2) True by blast
  have slash: "p = path @ ''/'' \<longleftrightarrow> path = butlast p \<and> p \<noteq> [] \<and> last p = CHR ''/''" for p
    by (metis append_butlast_last_id butlast_snoc last_snoc snoc_eq_iff_butlast)
  have added: "?fits (path @ ''/'') \<longleftrightarrow> path = ''/blobs''"
    using no slash [of "''/blobs/''"] slash [of "''/v2/''"] slash [of "''/v2''"] by (auto simp: HasPrefix_snoc)
  have removed: "\<not> ?fits (butlast path)" if ne: "path \<noteq> []" and slash: "last path = CHR ''/''"
  proof -
    obtain p where p: "path = p @ ''/''" using append_butlast_last_id [OF ne] slash by metis
    then have "p \<noteq> ''/v2''" using no by (auto simp: HasPrefix_def)
    then show ?thesis using no p HasPrefix_snoc [of p "CHR ''/''"] by auto
  qed
  show ?thesis unfolding no_route_def Let_def find_route_None [OF assms(1)] using True added removed by auto
next
  case False
  then show ?thesis unfolding no_route_def Let_def find_route_None [OF assms(1)] by auto
qed

text \<open>
  Dispatch. A GET or HEAD below \<open>/blobs/\<close> reaches the files handler with the rest of the path
  as the parameter \<open>url\<close>, one of \<open>/v2\<close> or below reaches the handler of the distribution API, and
  any other method or path is answered without a handler, \<open>/blobs\<close> by a redirection to \<open>/blobs/\<close> and
  the rest by 404; the handlers get a context with a
  correlation id, and a panic of theirs is answered 500 unless the response was already started.
\<close>

theorem engine_dispatch:
  assumes "route_match gm" and "engine_serve gm uuid f v c s = (calls, s')"
    and "uuid \<noteq> []" and "req_Method (ctx_Request c) = method" and "req_Path (ctx_Request c) = path"
  shows "if method \<in> {''GET'', ''HEAD''} \<and> HasPrefix path ''/blobs/'' then
      (\<exists>c' h. f c' s = (h, s') \<and> ctx_Request c' = ctx_Request c \<and> Param c' ''url'' = drop 6 path
        \<and> GetString c' CorrelationIdCtxKey \<noteq> [] \<and> calls = recovered h)
    else if method \<in> {''GET'', ''HEAD''} \<and> (path = ''/v2'' \<or> HasPrefix path ''/v2/'') then
      (\<exists>c' h. v c' s = (h, s') \<and> ctx_Request c' = ctx_Request c
        \<and> GetString c' CorrelationIdCtxKey \<noteq> [] \<and> calls = recovered h)
    else rsp_status (respond calls) = (if path = ''/blobs'' \<and> method = ''GET'' then 301 else if path = ''/blobs'' \<and> method = ''HEAD'' then 307 else 404)
      \<and> s' = s"
proof -
  let ?c = "\<lambda>ps. ctx_Set LoggerCtxKey CtxLogger (FillCorrelationId uuid (c\<lparr>ctx_Params := ps\<rparr>))"
  have c: "ctx_Request (?c ps) = ctx_Request c" "ctx_Params (?c ps) = ps" "GetString (?c ps) CorrelationIdCtxKey \<noteq> []" for ps
    using assms(3) by (simp_all add: FillCorrelationId_def Let_def GetString_Set ctx_key_defs)
  have excl: "\<not> (HasPrefix path ''/blobs/'' \<and> (path = ''/v2'' \<or> HasPrefix path ''/v2/''))"
    using route_exclusive [of path] by (auto simp: HasPrefix_def)
  have route: "find_route gm registerRoutes method path =
      (if method \<in> {''GET'', ''HEAD''} \<and> HasPrefix path ''/blobs/'' then Some (FileRoute, [(''url'', drop 6 path)])
       else if method \<in> {''GET'', ''HEAD''} \<and> path = ''/v2'' then Some (V2Route, [])
       else if method \<in> {''GET'', ''HEAD''} \<and> HasPrefix path ''/v2/'' then Some (V2Route, [(''ref'', drop 3 path)]) else None)"
    using assms(1) excl by (auto simp: route_match_def registerRoutes_def)
  note run = assms(2) [unfolded engine_serve_def dispatched_def assms(4,5) route Let_def]
  have url: "Param (?c [(''url'', drop 6 path)]) ''url'' = drop 6 path" using c(2) by (simp add: Param_def)
  obtain h t where f: "f (?c [(''url'', drop 6 path)]) s = (h, t)" by fastforce
  obtain h1 t1 where v1: "v (?c []) s = (h1, t1)" by fastforce
  obtain h2 t2 where v2: "v (?c [(''ref'', drop 3 path)]) s = (h2, t2)" by fastforce
  consider (files) "method \<in> {''GET'', ''HEAD''}" "HasPrefix path ''/blobs/''"
    | (ping) "method \<in> {''GET'', ''HEAD''}" "path = ''/v2''" | (v2) "method \<in> {''GET'', ''HEAD''}" "HasPrefix path ''/v2/''" "path \<noteq> ''/v2''"
    | (none) "\<not> (method \<in> {''GET'', ''HEAD''} \<and> (HasPrefix path ''/blobs/'' \<or> path = ''/v2'' \<or> HasPrefix path ''/v2/''))" by blast
  then show ?thesis
  proof cases
    case files
    then have "calls = recovered h" "s' = t" using run f by simp_all
    then have "\<exists>c' h. f c' s = (h, s') \<and> ctx_Request c' = ctx_Request c \<and> Param c' ''url'' = drop 6 path
        \<and> GetString c' CorrelationIdCtxKey \<noteq> [] \<and> calls = recovered h" using f c(1,3) url by blast
    then show ?thesis using files by simp
  next
    case ping
    then have "calls = recovered h1" "s' = t1" "\<not> HasPrefix path ''/blobs/''" using run v1 excl by auto
    moreover from this have "\<exists>c' h. v c' s = (h, s') \<and> ctx_Request c' = ctx_Request c
        \<and> GetString c' CorrelationIdCtxKey \<noteq> [] \<and> calls = recovered h" using v1 c(1,3) by blast
    ultimately show ?thesis using ping by simp
  next
    case v2
    then have "calls = recovered h2" "s' = t2" "\<not> HasPrefix path ''/blobs/''" using run \<open>v _ s = (h2, t2)\<close> excl by auto
    moreover from this have "\<exists>c' h. v c' s = (h, s') \<and> ctx_Request c' = ctx_Request c
        \<and> GetString c' CorrelationIdCtxKey \<noteq> [] \<and> calls = recovered h" using \<open>v _ s = (h2, t2)\<close> c(1,3) by blast
    ultimately show ?thesis using v2 by simp
  next
    case none
    then have "calls = no_route gm method path" "s' = s" using run assms(4,5) by (auto split: if_splits)
    moreover have "\<not> (method \<in> {''GET'', ''HEAD''} \<and> (HasPrefix path ''/blobs/'' \<or> path = ''/v2'' \<or> HasPrefix path ''/v2/''))" by (rule none)
    ultimately show ?thesis using no_route_status [OF assms(1)] by (auto simp: respond_defs)
  qed
qed

text \<open>A handler finds the logger of the server in its context, and its lines carry the correlation id.\<close>

lemma dispatched_Logger:
  assumes "dispatched gm uuid c = Some (r, c')"
  shows "\<exists>fields. Logger urlString clientIP c' = Ret (True, fields) \<and> map_of fields ''correlationid'' = Some (GetString c' CorrelationIdCtxKey)"
  using assms by (auto simp: dispatched_def Logger_def ctx_Get_Set)

definition doc_match :: "string \<Rightarrow> string \<Rightarrow> (string \<times> string) list option" where
  "doc_match pat path =
     (if pat = ''/blobs/*url'' then (if HasPrefix path ''/blobs/'' then Some [(''url'', drop 6 path)] else None)
      else if pat = ''/v2'' then (if path = ''/v2'' then Some [] else None)
      else if pat = ''/v2/*ref'' then (if HasPrefix path ''/v2/'' then Some [(''ref'', drop 3 path)] else None)
      else None)"

lemma doc_match_ok: "route_match doc_match"
  by (simp add: route_match_def doc_match_def)

theorem engine_dispatch_witness:
  "\<exists>calls. engine_serve doc_match ''u'' (\<lambda>c s. (([], Ret ()), s)) (\<lambda>c s. (([], Panic NilDeref), s)) peer_manifest () = (calls, ())
    \<and> rsp_status (respond calls) = 500"
proof -
  let ?v = "\<lambda>c s. (([], Panic NilDeref), s)" and ?f = "\<lambda>c s. (([], Ret ()), s)"
  obtain calls where run: "engine_serve doc_match ''u'' ?f ?v peer_manifest () = (calls, ())" by (metis surj_pair old.unit.exhaust)
  have "req_Method (ctx_Request peer_manifest) = ''GET''" "req_Path (ctx_Request peer_manifest) = ''/v2/r/manifests/t''" by (simp_all add: peer_manifest_def)
  from engine_dispatch [OF doc_match_ok run _ this] have "calls = recovered ([], Panic NilDeref)" by (auto simp: HasPrefix_def)
  then show ?thesis using run by (simp add: recovered_def respond_defs)
qed

end
