(* ===== verification/Provider.thy ===== *)
theory Provider
  imports Containerd_Store Network_Interface
begin

section \<open>Advertising content: \<open>src/pkg/discovery/content/provider/provider.go\<close>\<close>

text \<open>
  Model of the goroutine that advertises images and files. The containerd store and the router are
  reached through their interfaces. A channel is the list of the values it delivers until the context
  ends, and a goroutine that merges channels, or a \<open>select\<close> over them, sees some interleaving that keeps
  the order of each channel (\<open>shuffles\<close>): \<open>Provide\<close> is the set of its runs. An advertisement of all images may fail for some:
  the others are advertised all the same.
\<close>

datatype provide_event = Tick | ImageEvent reference | FileEvent string | ErrEvent go_error

definition ref_keys :: "reference \<Rightarrow> string list" where
  "ref_keys ref = ref_dgst ref # (if ref_tag ref \<noteq> [] then [ref_String ref] else [])"

definition provideRef :: "Store \<Rightarrow> 'w Router \<Rightarrow> reference \<Rightarrow> 'w \<Rightarrow> (int64 result \<times> 'w) outcome" where
  "provideRef containerdStore router ref w =
     obind (sm_All containerdStore ref) (\<lambda>r.
       let keys = ref_keys ref @ (case r of Inl e \<Rightarrow> [] | Inr dgsts \<Rightarrow> dgsts) in
       case rt_Provide router keys w of
         (Some e, w') \<Rightarrow> Ret (Inl (WrapErr ''could not advertise image'' e), w')
       | (None, w') \<Rightarrow> Ret (Inr (int (length keys)), w'))"

fun provide_refs :: "Store \<Rightarrow> 'w Router \<Rightarrow> reference list \<Rightarrow> go_error list \<Rightarrow> 'w \<Rightarrow> (go_error list \<times> 'w) outcome" where
  "provide_refs containerdStore router [] errs w = Ret (errs, w)"
| "provide_refs containerdStore router (ref # refs) errs w =
     obind (provideRef containerdStore router ref w) (\<lambda>(r, w').
       provide_refs containerdStore router refs (case r of Inl e \<Rightarrow> errs @ [e] | Inr n \<Rightarrow> errs) w')"

definition errors_Join :: "go_error list \<Rightarrow> go_error option" where
  "errors_Join errs = (if errs = [] then None else Some (JoinedErrors errs))"

definition provideAll :: "Store \<Rightarrow> 'w Router \<Rightarrow> 'w \<Rightarrow> (go_error option \<times> 'w) outcome" where
  "provideAll containerdStore router w =
     (case sm_List containerdStore of
        Inl e \<Rightarrow> Ret (Some e, w)
      | Inr refs \<Rightarrow> obind (provide_refs containerdStore router refs [] w) (\<lambda>(errs, w'). Ret (errors_Join errs, w')))"

text \<open>One round of the loop: errors are only logged.\<close>

definition provide_step :: "Store \<Rightarrow> 'w Router \<Rightarrow> provide_event \<Rightarrow> 'w \<Rightarrow> 'w outcome" where
  "provide_step containerdStore r ev w =
     (case ev of
        Tick \<Rightarrow> obind (provideAll containerdStore r w) (\<lambda>(err, w'). Ret w')
      | ImageEvent ref \<Rightarrow> obind (provideRef containerdStore r ref w) (\<lambda>(x, w'). Ret w')
      | FileEvent blob \<Rightarrow> Ret (snd (rt_Provide r [blob] w))
      | ErrEvent e \<Rightarrow> Ret w)"

fun Provide_loop :: "Store \<Rightarrow> 'w Router \<Rightarrow> provide_event list \<Rightarrow> 'w \<Rightarrow> 'w outcome" where
  "Provide_loop containerdStore r [] w = Ret w"
| "Provide_loop containerdStore r (ev # evs) w =
     obind (provide_step containerdStore r ev w) (\<lambda>w'. Provide_loop containerdStore r evs w')"

text \<open>\<open>merge\<close>, whose order the scheduler chooses, and the events of a \<open>select\<close> over channels.\<close>

fun merge_chan :: "'a list list \<Rightarrow> 'a list set" where
  "merge_chan [] = {[]}"
| "merge_chan (c # cs) = (\<Union>out \<in> merge_chan cs. shuffles c out)"

text \<open>
  The function \<open>Provide\<close>: it subscribes to the store, whose channels of references and of errors are
  one list here, starts the merged ticker (one immediate tick and \<open>expirations\<close> more) and loops over
  what the \<open>select\<close> receives until the context is done.
\<close>

definition Provide :: "Store \<Rightarrow> 'w Router \<Rightarrow> nat \<Rightarrow> (go_error + image_event) list \<Rightarrow> string list \<Rightarrow> 'w \<Rightarrow> 'w outcome set" where
  "Provide containerdStore r expirations containerdEvents filesChan w =
     (\<Union>ticker \<in> merge_chan [[Tick], replicate expirations Tick].
        (\<lambda>evs. Provide_loop containerdStore r evs w) `
          merge_chan [ticker, map (case_sum ErrEvent ImageEvent) (sm_Subscribe containerdStore containerdEvents), map FileEvent filesChan])"

subsection \<open>What is advertised\<close>

text \<open>
  A router that keeps a record of the calls of its \<open>Provide\<close>, and answers as \<open>f\<close> says.
\<close>

definition records :: "'w Router \<Rightarrow> ('w \<Rightarrow> string list list) \<Rightarrow> (string list \<Rightarrow> go_error option) \<Rightarrow> bool" where
  "records r log f \<longleftrightarrow> (\<forall>keys w. fst (rt_Provide r keys w) = f keys \<and> log (snd (rt_Provide r keys w)) = log w @ [keys])"

definition image_keys :: "Store \<Rightarrow> reference \<Rightarrow> string list" where
  "image_keys st ref = ref_keys ref @ (case sm_All st ref of Ret (Inr dgsts) \<Rightarrow> dgsts | _ \<Rightarrow> [])"

lemma provideRef_records:
  assumes "records r log f" and "sm_All st ref = Ret a"
  shows "\<exists>w'. provideRef st r ref w =
      Ret ((case f (image_keys st ref) of Some e \<Rightarrow> Inl (WrapErr ''could not advertise image'' e) | None \<Rightarrow> Inr (int (length (image_keys st ref)))), w')
    \<and> log w' = log w @ [image_keys st ref]"
proof -
  let ?keys = "image_keys st ref"
  have k: "?keys = ref_keys ref @ (case a of Inl e \<Rightarrow> [] | Inr dgsts \<Rightarrow> dgsts)" using assms(2) by (cases a) (simp_all add: image_keys_def)
  obtain e w' where p: "rt_Provide r ?keys w = (e, w')" by fastforce
  moreover have "e = f ?keys" "log w' = log w @ [?keys]" using assms(1) p unfolding records_def by (metis fst_conv, metis snd_conv)
  ultimately show ?thesis using assms(2) k [symmetric]
    by (cases "f ?keys") (auto simp: provideRef_def Let_def)
qed

lemma provide_refs_records:
  assumes "records r log f" and "\<And>ref. ref \<in> set refs \<Longrightarrow> \<exists>a. sm_All st ref = Ret a"
  shows "\<exists>w'. provide_refs st r refs errs w =
      Ret (errs @ map (WrapErr ''could not advertise image'') (List.map_filter (\<lambda>ref. f (image_keys st ref)) refs), w')
    \<and> log w' = log w @ map (image_keys st) refs"
  using assms(2)
proof (induction refs arbitrary: errs w)
  case (Cons ref refs)
  obtain a where "sm_All st ref = Ret a" using Cons.prems by force
  then obtain w1 where w1: "provideRef st r ref w = Ret ((case f (image_keys st ref) of Some e \<Rightarrow> Inl (WrapErr ''could not advertise image'' e)
      | None \<Rightarrow> Inr (int (length (image_keys st ref)))), w1)" "log w1 = log w @ [image_keys st ref]"
    using provideRef_records [OF assms(1)] by metis
  let ?errs = "case f (image_keys st ref) of Some e \<Rightarrow> errs @ [WrapErr ''could not advertise image'' e] | None \<Rightarrow> errs"
  obtain w2 where w2: "provide_refs st r refs ?errs w1 =
      Ret (?errs @ map (WrapErr ''could not advertise image'') (List.map_filter (\<lambda>ref. f (image_keys st ref)) refs), w2)"
    "log w2 = log w1 @ map (image_keys st) refs" using Cons.IH [of ?errs w1] Cons.prems by force
  show ?case using w1 w2 by (intro exI [of _ w2]) (auto simp: map_filter_simps split: option.splits)
qed (auto simp: map_filter_simps)

text \<open>
  C23: a scheduled advertisement covers every image. Whatever the router answers for the single
  images, each listed image is advertised once, in order, with its digest, its tagged name if it has
  one, and the digests of its index, manifest, configuration and layers if the store can tell them;
  the errors are collected, and the result is an error exactly when one advertisement failed.
\<close>

theorem provideAll_advertises_every_image:
  assumes "records r log f" and "sm_List st = Inr refs" and "\<And>ref. ref \<in> set refs \<Longrightarrow> \<exists>a. sm_All st ref = Ret a"
  shows "\<exists>err w'. provideAll st r w = Ret (err, w') \<and> log w' = log w @ map (image_keys st) refs
    \<and> (err = None \<longleftrightarrow> (\<forall>ref \<in> set refs. f (image_keys st ref) = None))"
proof -
  obtain w' where run: "provide_refs st r refs [] w =
      Ret (map (WrapErr ''could not advertise image'') (List.map_filter (\<lambda>ref. f (image_keys st ref)) refs), w')"
    and log: "log w' = log w @ map (image_keys st) refs"
    using provide_refs_records [OF assms(1) assms(3), where errs = "[]" and w = w] by auto
  have "List.map_filter g refs = [] \<longleftrightarrow> (\<forall>ref \<in> set refs. g ref = None)" for g :: "reference \<Rightarrow> go_error option"
    by (induction refs) (auto simp: map_filter_simps split: option.splits)
  then show ?thesis using run log assms(2) by (simp add: provideAll_def errors_Join_def)
qed

definition log_router :: "(string list \<Rightarrow> go_error option) \<Rightarrow> string list list Router" where
  "log_router f = \<lparr>rt_Net = \<lparr>nw_HTTPClientFor = (\<lambda>_ _ w. (Inl EOF, w)), nw_RoundTripperFor = (\<lambda>_ _ w. (Inl EOF, w))\<rparr>,
     rt_Resolve = (\<lambda>_ _ _ _ w. (Inr [], w)), rt_ResolveWithNegativeCacheCallback = (\<lambda>_ _ _ _ w. (Inl EOF, w)),
     rt_Provide = (\<lambda>keys w. (f keys, w @ [keys]))\<rparr>"

lemma log_router_records: "records (log_router f) (\<lambda>w. w) f"
  by (simp add: records_def log_router_def)

theorem provideAll_advertises_every_image_witness:
  "\<exists>err w'. provideAll (NewMockContainerdStore [demo_ref, demo_ref\<lparr>ref_tag := []\<rparr>]) (log_router (\<lambda>keys. if length keys = 2 then Some EOF else None)) [] = Ret (err, w')
    \<and> w' = [] @ map (image_keys (NewMockContainerdStore [demo_ref, demo_ref\<lparr>ref_tag := []\<rparr>])) [demo_ref, demo_ref\<lparr>ref_tag := []\<rparr>]
    \<and> (err = None \<longleftrightarrow> (\<forall>ref \<in> set [demo_ref, demo_ref\<lparr>ref_tag := []\<rparr>].
        (\<lambda>keys. if length keys = 2 then Some EOF else None) (image_keys (NewMockContainerdStore [demo_ref, demo_ref\<lparr>ref_tag := []\<rparr>]) ref) = None))"
  by (rule provideAll_advertises_every_image [OF log_router_records]) (simp_all add: NewMockContainerdStore_def)

text \<open>What one event makes the loop advertise.\<close>

definition advertised :: "Store \<Rightarrow> reference list \<Rightarrow> provide_event \<Rightarrow> string list list" where
  "advertised st refs ev = (case ev of
     Tick \<Rightarrow> map (image_keys st) refs | ImageEvent ref \<Rightarrow> [image_keys st ref] | FileEvent b \<Rightarrow> [[b]] | ErrEvent e \<Rightarrow> [])"

lemma provide_step_records:
  assumes "records r log f" and "sm_List st = Inr refs" and "\<And>ref. \<exists>a. sm_All st ref = Ret a"
  shows "\<exists>w'. provide_step st r ev w = Ret w' \<and> log w' = log w @ advertised st refs ev"
proof (cases ev)
  case Tick
  obtain w' es where "provide_refs st r refs [] w = Ret (es, w')" "log w' = log w @ map (image_keys st) refs"
    using provide_refs_records [OF assms(1), of refs st "[]" w] assms(3) by blast
  then show ?thesis using assms(2) by (simp add: Tick provide_step_def provideAll_def advertised_def)
next
  case (ImageEvent ref)
  obtain a where "sm_All st ref = Ret a" using assms(3) by blast
  then obtain x w' where "provideRef st r ref w = Ret (x, w')" "log w' = log w @ [image_keys st ref]"
    using provideRef_records [OF assms(1)] by metis
  then show ?thesis by (simp add: ImageEvent provide_step_def advertised_def)
next
  case (FileEvent b)
  then show ?thesis using assms(1) by (simp add: provide_step_def records_def advertised_def)
qed (simp add: provide_step_def advertised_def)

lemma Provide_loop_records:
  assumes "records r log f" and "sm_List st = Inr refs" and "\<And>ref. \<exists>a. sm_All st ref = Ret a"
  shows "\<exists>w'. Provide_loop st r evs w = Ret w' \<and> log w' = log w @ concat (map (advertised st refs) evs)"
proof (induction evs arbitrary: w)
  case (Cons ev evs)
  obtain w1 where "provide_step st r ev w = Ret w1" "log w1 = log w @ advertised st refs ev"
    using provide_step_records [OF assms] by metis
  then show ?case using Cons.IH [of w1] by auto
qed auto

text \<open>An interleaving restricted to some events is one of the restricted channels.\<close>

lemma filter_merge_chan: "xs \<in> merge_chan cs \<Longrightarrow> filter P xs \<in> merge_chan (map (filter P) cs)"
proof (induction cs arbitrary: xs)
  case (Cons c cs)
  then obtain out where "out \<in> merge_chan cs" "xs \<in> shuffles c out" by auto
  then show ?case using Cons.IH filter_shuffles [of P c out] by fastforce
qed simp

lemma merged_ticks:
  assumes "ticks \<in> merge_chan [[Tick], replicate n Tick]"
  shows "ticks = replicate (Suc n) Tick"
proof -
  have "ticks \<in> shuffles [Tick] (replicate n Tick)" using assms by simp
  then have "set ticks \<subseteq> {Tick}" "length ticks = Suc n"
    using set_shuffles [of ticks "[Tick]" "replicate n Tick"] length_shuffles [of ticks "[Tick]" "replicate n Tick"] by auto
  then show ?thesis by (metis replicate_eqI singletonD subsetD)
qed

definition of_subscription :: "provide_event \<Rightarrow> bool" where
  "of_subscription ev = (case ev of ImageEvent ref \<Rightarrow> True | ErrEvent e \<Rightarrow> True | _ \<Rightarrow> False)"

definition of_files :: "provide_event \<Rightarrow> bool" where
  "of_files ev = (case ev of FileEvent b \<Rightarrow> True | _ \<Rightarrow> False)"

lemma select_events:
  assumes "evs \<in> merge_chan [replicate n Tick, map (case_sum ErrEvent ImageEvent) xs, map FileEvent blobs]"
  shows "filter (\<lambda>ev. ev = Tick) evs = replicate n Tick"
    and "filter of_subscription evs = map (case_sum ErrEvent ImageEvent) xs" and "filter of_files evs = map FileEvent blobs"
proof -
  have x: "case_sum ErrEvent ImageEvent x \<noteq> Tick" "of_subscription (case_sum ErrEvent ImageEvent x)" "\<not> of_files (case_sum ErrEvent ImageEvent x)" for x
    by (simp_all add: of_subscription_def of_files_def split: sum.split)
  have sub: "filter (\<lambda>ev. ev = Tick) (map (case_sum ErrEvent ImageEvent) xs) = []" "filter of_files (map (case_sum ErrEvent ImageEvent) xs) = []"
    "filter of_subscription (map (case_sum ErrEvent ImageEvent) xs) = map (case_sum ErrEvent ImageEvent) xs" by (auto simp: x filter_empty_conv filter_id_conv)
  have blobs: "filter (\<lambda>ev. ev = Tick) (map FileEvent blobs) = []" "filter of_files (map FileEvent blobs) = map FileEvent blobs"
    "filter of_subscription (map FileEvent blobs) = []" by (auto simp: of_files_def of_subscription_def filter_empty_conv filter_id_conv)
  note rest = sub blobs
  show "filter (\<lambda>ev. ev = Tick) evs = replicate n Tick" using filter_merge_chan [OF assms, of "\<lambda>ev. ev = Tick"] rest by simp
  show "filter of_subscription evs = map (case_sum ErrEvent ImageEvent) xs"
    using filter_merge_chan [OF assms, of of_subscription] rest by (simp add: of_subscription_def [of Tick])
  show "filter of_files evs = map FileEvent blobs"
    using filter_merge_chan [OF assms, of of_files] rest by (simp add: of_files_def [of Tick])
qed

lemma Provide_runs:
  assumes "records r log f" and "sm_List st = Inr refs" and "\<And>ref. \<exists>a. sm_All st ref = Ret a"
    and "run \<in> Provide st r n containerdEvents blobs w"
  obtains evs w' where "run = Ret w'" and "log w' = log w @ concat (map (advertised st refs) evs)"
    and "evs \<in> merge_chan [replicate (Suc n) Tick, map (case_sum ErrEvent ImageEvent) (sm_Subscribe st containerdEvents), map FileEvent blobs]"
proof -
  obtain ticks evs where "ticks \<in> merge_chan [[Tick], replicate n Tick]" and run: "run = Provide_loop st r evs w"
    and "evs \<in> merge_chan [ticks, map (case_sum ErrEvent ImageEvent) (sm_Subscribe st containerdEvents), map FileEvent blobs]"
    using assms(4) unfolding Provide_def by blast
  then show ?thesis using that Provide_loop_records [OF assms(1-3), of evs w] merged_ticks by metis
qed

lemma Provide_advertises_chunk:
  assumes "records r log f" and "sm_List st = Inr refs" and "\<And>ref. \<exists>a. sm_All st ref = Ret a"
    and "run \<in> Provide st r n containerdEvents blobs w" and "k \<in> set blobs"
  shows "\<exists>w'. run = Ret w' \<and> [k] \<in> set (log w')"
proof -
  obtain evs w' where w': "run = Ret w'" "log w' = log w @ concat (map (advertised st refs) evs)"
    and evs: "evs \<in> merge_chan [replicate (Suc n) Tick, map (case_sum ErrEvent ImageEvent) (sm_Subscribe st containerdEvents), map FileEvent blobs]"
    by (rule Provide_runs [OF assms(1-4)])
  have "FileEvent k \<in> set (filter of_files evs)" using assms(5) by (simp add: select_events(3) [OF evs])
  then show ?thesis using w' by (force simp: advertised_def)
qed

text \<open>
  C24: the advertising loop loses no event. In any interleaving of the ticks with what the store
  and the files store deliver, and whatever fails, \<open>Provide\<close> advertises what each event asks for, in the
  order in which it receives them: all images at each tick, of which there is at least one, the image
  of each event of the subscription, and each prefetched chunk. A failed advertisement, or an error of
  the subscription, does not stop the loop.
\<close>

theorem Provide_serves_every_event:
  assumes "records r log f" and "sm_List st = Inr refs" and "\<And>ref. \<exists>a. sm_All st ref = Ret a"
    and "run \<in> Provide st r n containerdEvents blobs w"
  shows "\<exists>evs w'. run = Ret w' \<and> log w' = log w @ concat (map (advertised st refs) evs)
    \<and> filter (\<lambda>ev. ev = Tick) evs = replicate (Suc n) Tick
    \<and> filter of_subscription evs = map (case_sum ErrEvent ImageEvent) (sm_Subscribe st containerdEvents)
    \<and> filter of_files evs = map FileEvent blobs"
proof -
  obtain evs w' where "run = Ret w'" "log w' = log w @ concat (map (advertised st refs) evs)"
    and evs: "evs \<in> merge_chan [replicate (Suc n) Tick, map (case_sum ErrEvent ImageEvent) (sm_Subscribe st containerdEvents), map FileEvent blobs]"
    by (rule Provide_runs [OF assms])
  then show ?thesis using select_events [OF evs] by metis
qed

definition event_store :: Store where
  "event_store = (NewMockContainerdStore [demo_ref])\<lparr>sm_Subscribe := map (case_sum Inl (\<lambda>ev. Inr demo_ref))\<rparr>"

lemma event_store_sm: "sm_List event_store = Inr [demo_ref]" "\<exists>a. sm_All event_store ref = Ret a"
  by (simp_all add: event_store_def NewMockContainerdStore_def)

theorem Provide_serves_every_event_witness:
  "Provide_loop event_store (log_router (\<lambda>keys. Some EOF)) [FileEvent ''d_0'', ErrEvent EOF, Tick] []
      \<in> Provide event_store (log_router (\<lambda>keys. Some EOF)) 0 [Inl EOF] [''d_0''] []
    \<and> (\<exists>evs w'. Provide_loop event_store (log_router (\<lambda>keys. Some EOF)) [FileEvent ''d_0'', ErrEvent EOF, Tick] [] = Ret w'
      \<and> w' = [] @ concat (map (advertised event_store [demo_ref]) evs)
      \<and> filter (\<lambda>ev. ev = Tick) evs = replicate (Suc 0) Tick
      \<and> filter of_subscription evs = map (case_sum ErrEvent ImageEvent) (sm_Subscribe event_store [Inl EOF])
      \<and> filter of_files evs = map FileEvent [''d_0''])"
proof -
  have run: "Provide_loop event_store (log_router (\<lambda>keys. Some EOF)) [FileEvent ''d_0'', ErrEvent EOF, Tick] []
      \<in> Provide event_store (log_router (\<lambda>keys. Some EOF)) 0 [Inl EOF] [''d_0''] []"
    unfolding Provide_def by (rule UN_I [of "[Tick]"], simp, rule imageI) (simp add: event_store_def)
  show ?thesis using run Provide_serves_every_event [OF log_router_records event_store_sm run] by (rule conjI)
qed

end
