(* ===== verification/Cluster_Files.thy ===== *)
theory Cluster_Files
  imports Node Http_Server Provider
begin

section \<open>Files through the cluster\<close>

text \<open>
  The composition of two nodes on the files path: the request that the reader of one node sends, the
  HTTP server, the files handler, store and cache of the peer that receives it, and the response as
  the reader sees it.
\<close>

subsection \<open>The request on its way\<close>

text \<open>The address \<open>https://hp\<close> of a peer and a blob address without escapes: path \<open>u\<close> and query \<open>q\<close>.\<close>

definition blob_address :: "string \<Rightarrow> string \<Rightarrow> string \<Rightarrow> bool" where
  "blob_address hp u q \<longleftrightarrow> (case parseAuthority hp of Inr a \<Rightarrow> True | Inl e \<Rightarrow> False) \<and> set hp \<inter> {CHR ''/'', CHR ''?''} = {}
     \<and> CHR ''?'' \<notin> set u \<and> CHR 37 \<notin> set u \<and> CHR ''#'' \<notin> set (hp @ u @ q) \<and> \<not> list_ex is_ctl (hp @ u @ q)"

lemma peerRequest_sent:
  assumes "blob_address hp u q" and "GetString (rd_context r) BlobUrlCtxKey = u @ ''?'' @ q"
  obtains req where "peerRequest r (''https://'' @ hp) start stop = Inr req" and "u_Path (hr_URL req) = ''/blobs/'' @ u"
    and "u_RawQuery (hr_URL req) = q" and "hr_Method req = ''GET''"
    and "Header_Get (hr_Header req) ''Range'' = range_header start stop" and "Header_Get (hr_Header req) P2PHeaderKey = ''true''"
proof -
  obtain usr host where au: "parseAuthority hp = Inr (usr, host)"
    using assms(1) by (auto simp: blob_address_def split: sum.splits)
  have "url_Parse (''https://'' @ hp @ CHR ''/'' # (''blobs/'' @ u) @ ''?'' @ q) =
      Inr (empty_URL\<lparr>u_Scheme := ''https'', u_RawQuery := q, u_ForceQuery := (q = []), u_User := usr, u_Host := host,
        u_Path := CHR ''/'' # ''blobs/'' @ u\<rparr>)"
    using assms(1) au by (intro url_Parse_https) (auto simp: blob_address_def is_ctl_def)
  then obtain req where req: "peerRequest r (''https://'' @ hp) start stop = Inr req"
    and url: "u_Path (hr_URL req) = ''/blobs/'' @ u" "u_RawQuery (hr_URL req) = q"
    using assms(2) by (auto simp: peerRequest_def remoteRequest_def http_NewRequest_def Let_def empty_URL_def)
  note hd = remoteRequest_headers [OF req [unfolded peerRequest_def]]
  show thesis by (rule that [OF req url]) (use hd in simp_all)
qed

text \<open>What the handler of the receiving node gets.\<close>

lemma peerRequest_received:
  assumes "blob_address hp u q" and "GetString (rd_context r) BlobUrlCtxKey = u @ ''?'' @ q"
    and "peerRequest r (''https://'' @ hp) start stop = Inr req" and "route_match gm"
    and "dispatched gm uuid (incoming parseQuery req) = Some (route, c)"
  shows "route = FileRoute" and "BlobUrl c = u @ ''?'' @ q" and "IsRequestFromAPeer c" and "req_Method (ctx_Request c) = ''GET''"
    and "Header_Get (req_Header (ctx_Request c)) ''Range'' = range_header start stop" and "req_Header (ctx_Request c) = hr_Header req"
proof -
  have url: "u_Path (hr_URL req) = ''/blobs/'' @ u" "u_RawQuery (hr_URL req) = q" "hr_Method req = ''GET''"
    "Header_Get (hr_Header req) ''Range'' = range_header start stop" "Header_Get (hr_Header req) P2PHeaderKey = ''true''"
    using peerRequest_sent [OF assms(1,2), of start stop] assms(3) by (metis sum.inject(2))+
  have "find_route gm registerRoutes ''GET'' (''/blobs/'' @ u) = Some (FileRoute, [(''url'', ''/'' @ u)])"
    using assms(4) by (simp add: route_match_def registerRoutes_def HasPrefix_def)
  then have c: "route = FileRoute" "c = ctx_Set LoggerCtxKey CtxLogger (FillCorrelationId uuid ((incoming parseQuery req)\<lparr>ctx_Params := [(''url'', ''/'' @ u)]\<rparr>))"
    using assms(5) url(1,3) by (simp_all add: dispatched_def incoming_def)
  show "route = FileRoute" by (rule c)
  have rq: "ctx_Request c = ctx_Request (incoming parseQuery req)" "ctx_Params c = [(''url'', ''/'' @ u)]"
    by (simp_all add: c FillCorrelationId_def Let_def)
  show "BlobUrl c = u @ ''?'' @ q" using url by (simp add: BlobUrl_def Param_def TrimPrefix_def HasPrefix_def rq incoming_def)
  show "IsRequestFromAPeer c" "req_Method (ctx_Request c) = ''GET''" "Header_Get (req_Header (ctx_Request c)) ''Range'' = range_header start stop"
    "req_Header (ctx_Request c) = hr_Header req"
    using url by (simp_all add: IsRequestFromAPeer_def rq incoming_def)
qed

text \<open>
  C10: two peers agree on the key of a chunk. The request that one peer sends to another for the range
  that starts at \<open>start\<close> arrives at the files handler with the same blob address, and the key that the
  receiver computes for it is the digest of the blob and the block of \<open>start\<close>. The address is a path
  without escapes and a query; the peer's address is \<open>https://host:port\<close>.
\<close>

theorem peers_agree_on_chunk_key:
  assumes "blob_address hp u q" and "GetString (rd_context r) BlobUrlCtxKey = u @ ''?'' @ q" and "st_parser s (u @ ''?'' @ q) = Inr d"
    and "0 \<le> start" and "start \<le> stop" and "in_int64 stop" and "route_match gm"
  shows "\<exists>req c. peerRequest r (''https://'' @ hp) start stop = Inr req
    \<and> dispatched gm uuid (incoming parseQuery req) = Some (FileRoute, c)
    \<and> BlobUrl c = u @ ''?'' @ q
    \<and> Key s c = Ret (d @ ''_'' @ FormatInt (start div CacheBlockSize * CacheBlockSize), d, None)"
proof -
  obtain req where req: "peerRequest r (''https://'' @ hp) start stop = Inr req"
    and url: "u_Path (hr_URL req) = ''/blobs/'' @ u" "hr_Method req = ''GET''"
    by (rule peerRequest_sent [OF assms(1,2)])
  obtain route c where c: "dispatched gm uuid (incoming parseQuery req) = Some (route, c)"
    using assms(7) url by (simp add: dispatched_def incoming_def route_match_def registerRoutes_def HasPrefix_def)
  note got = peerRequest_received [OF assms(1,2) req assms(7) c]
  have i: "in_int64 start" using assms(4-6) by (auto intro: in_int64_nonneg_le)
  have "RangeStartIndex (range_header start stop) = Inr start" using assms(4,5) by (intro RangeStartIndex_range_header [OF i]) auto
  then have "Key s c = Ret (d @ ''_'' @ FormatInt (start div CacheBlockSize * CacheBlockSize), d, None)"
    using got FileChunkKey_nonneg [OF i assms(4)] assms(3) by (simp add: Key_def)
  then show ?thesis using req c got(1,2) by blast
qed

definition demo_asking :: "unit reader" where
  "demo_asking = demo_reader (\<lambda>_. range_server []) [] [] \<lparr>rd_context :=
     ctx_Set BlobUrlCtxKey (CtxString ''https://origin/b?se=1'') (demo_context [])\<rparr>"

lemma demo_asking_address:
  "blob_address ''10.0.0.1:5001'' ''https://origin/b'' ''se=1''"
  "GetString (rd_context demo_asking) BlobUrlCtxKey = ''https://origin/b'' @ ''?'' @ ''se=1''"
  "demo_parser (''https://origin/b'' @ ''?'' @ ''se=1'') = Inr ''sha256:d''"
  by code_simp+

theorem peers_agree_on_chunk_key_witness:
  "\<exists>req c. peerRequest demo_asking ''https://10.0.0.1:5001'' 1048580 1048590 = Inr req
    \<and> dispatched doc_match ''u'' (incoming (\<lambda>q. []) req) = Some (FileRoute, c)
    \<and> BlobUrl c = ''https://origin/b?se=1'' \<and> Key (demo_store (range_server [])) c = Ret (''sha256:d_1048576'', ''sha256:d'', None)"
proof -
  have p: "st_parser (demo_store (range_server [])) (''https://origin/b'' @ ''?'' @ ''se=1'') = Inr ''sha256:d''"
    using demo_asking_address(3) by (simp add: demo_store_def NewFilesStore_def)
  have f: "FormatInt (1048580 div CacheBlockSize * CacheBlockSize) = ''1048576''"
    by (simp add: CacheBlockSize_def FormatInt_def format_nat.simps digit_char_def) code_simp
  show ?thesis
    using peers_agree_on_chunk_key [OF demo_asking_address(1,2) p _ _ _ doc_match_ok, of 1048580 1048590 "''u''" "\<lambda>q. []"] f
    by (simp add: in_int64_def)
qed

subsection \<open>The answer\<close>

lemma http_reply_range:
  assumes "range_answer d start stop rsp" and "0 \<le> start" and "start \<le> stop" and "stop < int (length d)" and "in_int64 (int (length d))"
  shows "range_response d start stop (http_reply ''GET'' rsp)"
proof -
  have n: "range_length start stop (int (length d)) = stop - start + 1" using assms(4) by (simp add: range_length_def)
  obtain m where body: "rsp_body rsp = take m (slice d start (nat (stop - start + 1)))"
    and cl: "Header_Get (rsp_header rsp) ''Content-Length'' = FormatInt (stop - start + 1)"
    using assms(1) by (auto simp: range_answer_def Let_def n)
  have part: "length (slice d start (nat (stop - start + 1))) = nat (stop - start + 1)"
    using assms(2-4) by (intro length_slice) auto
  have len: "fst (ParseInt (FormatInt (stop - start + 1))) = stop - start + 1"
    using assms(2-5) by (subst ParseInt_FormatInt) (auto simp: in_int64_def)
  show ?thesis
    using body part assms(3) by (auto simp: range_response_def http_reply_def cl len FormatInt_ne Let_def)
qed

text \<open>
  C8: peers answer honestly. Take a node whose cache was filled by correct reads (every earlier reader
  returned the content of its file or an error) and with no write that stored only a part of its data.
  Its answer to the request of another node's reader for a range of a blob is, as the reader sees it,
  what the reader relies on: with status 200 or 206 it carries exactly the bytes of the blob in that
  range, or breaks off before their end with an error that is not the end of the file. While it serves
  this request the node relies on the origin and on no other peer. The client's request that the reader
  serves carries no conditional headers (with \<open>If-Range\<close> the claim is false: \<open>if_range_spoils_peer_answers\<close>).
\<close>

theorem peers_answer_honestly:
  assumes "node_state TYPE('w) D cs" and "st_cache s = fileCache_ops" and "st_parser s (u @ ''?'' @ q) = Inr d"
    and "plain_seg d" and "CHR ''_'' \<notin> set d" and "blob_address hp u q"
    and "GetString (rd_context r) BlobUrlCtxKey = u @ ''?'' @ q" and "0 \<le> start" and "start \<le> stop" and "stop < int (length (D d))"
    and "\<forall>c. IsRequestFromAPeer c \<longrightarrow> GetString c BlobUrlCtxKey = u @ ''?'' @ q \<longrightarrow>
      origin_honest (NewReader (st_nodeName s) c (st_router s) (st_resolveRetries s) (st_resolveTimeout s) (st_metricsRecorder s)) (D d)"
    and "peerRequest r (''https://'' @ hp) start stop = Inr req" and "route_match gm"
    and "dispatched gm uuid (incoming parseQuery req) = Some (route, c)"
    and "Handle_files date fuel NodeName s c cs (w :: 'w) = Some (Ret (calls, job, cs', w'))"
    and "unconditional (req_Header (ctx_Request (rd_context r)))"
  shows "range_response (D d) start stop (http_reply (hr_Method req) (respond calls))"
proof -
  note got = peerRequest_received [OF assms(6,7,12,13,14)]
  have get: "hr_Method req = ''GET''" using peerRequest_sent [OF assms(6,7), of start stop] assms(12) by (metis sum.inject(2))
  have from_peer: "IsRequestFromAPeer c'" if "ctx_Request c' = ctx_Request c" for c'
    using got(3) that by (simp add: IsRequestFromAPeer_def)
  have hon: "honest (NewReader (st_nodeName s) c' (st_router s) (st_resolveRetries s) (st_resolveTimeout s) (st_metricsRecorder s)) (D d)"
    if "ctx_Request c' = ctx_Request c" "GetString c' BlobUrlCtxKey = BlobUrl c" for c'
    using assms(11) from_peer [OF that(1)] that(2) got(2) by (simp add: honest_def NewReader_def)
  have len: "in_int64 (int (length (D d)))"
    using originD(1) [OF honest_origin [OF hon, of "ctx_Set BlobUrlCtxKey (CtxString (BlobUrl c)) c"]] by (simp add: GetString_Set)
  have stop: "in_int64 stop" using len assms(8-10) by (auto simp: in_int64_def)
  have "range_answer (D d) start stop (respond calls) \<or> rsp_status (respond calls) \<in> {404, 500} \<and> rsp_body (respond calls) = []"
    using Handle_files_range [OF node_state_ok [OF assms(1)] assms(2) got(4,5) assms(8,9) stop _ assms(5,4) _ hon assms(15)]
      remoteRequest_unconditional [OF assms(12) [unfolded peerRequest_def] assms(16)] got(2,6) assms(3,8-10) by simp
  then show ?thesis unfolding get
  proof
    assume "range_answer (D d) start stop (respond calls)"
    then show "range_response (D d) start stop (http_reply ''GET'' (respond calls))" using http_reply_range assms(8-10) len by blast
  qed (auto simp: range_response_def http_reply_def Let_def)
qed

text \<open>A node that has prefetched the blob.\<close>

definition demo_files :: "((string \<times> nat) list cacheState, unit) Files_Store.store" where
  "demo_files = NewFilesStore PrefetchWorkers ''node2'' quiet_metrics fileCache_ops demo_parser (demo_router (\<lambda>_. range_server [1, 2, 3, 4]) [])"

definition demo_segment :: "unit prefetchableSegment" where
  "demo_segment = \<lparr>ps_name = ''sha256:d'', ps_offset = 0, ps_count = 4, ps_reader = NewMockReader [1, 2, 3, 4]\<rparr>"

definition demo_warm :: "(string \<times> nat) list cacheState" where
  "demo_warm = (case prefetch_step demo_files demo_segment demo_cs () of Ret (k, cs, w) \<Rightarrow> cs | _ \<Rightarrow> demo_cs)"

lemma demo_warm_node: "node_state TYPE(unit) (\<lambda>n. [1, 2, 3, 4]) demo_warm"
proof -
  have "case prefetch_step demo_files demo_segment demo_cs () of Ret x \<Rightarrow> True | _ \<Rightarrow> False" by code_simp
  then obtain k w where run: "prefetch_step demo_files demo_segment demo_cs () = Ret (k, demo_warm, w)"
    by (auto simp: demo_warm_def split: outcome.splits)
  have "seg_of (\<lambda>n. [1, 2, 3, 4]) demo_segment"
    using mock.file_reader_axioms [of "[1, 2, 3, 4]"] by (simp add: seg_of_def demo_segment_def plain_seg_def in_int64_def chunk_of_def slice_def CacheBlockSize_def)
  then show ?thesis
    using node_state.prefetched [OF demo_node _ _ run, of "\<lambda>n. [1, 2, 3, 4]"] by (simp add: demo_files_def NewFilesStore_def)
qed

lemma demo_asking_unconditional: "unconditional (req_Header (ctx_Request (rd_context demo_asking)))"
  by code_simp

theorem peers_answer_honestly_witness:
  "\<exists>req c calls job cs' w'. peerRequest demo_asking ''https://10.0.0.1:5001'' 1 2 = Inr req
    \<and> dispatched doc_match ''u'' (incoming (\<lambda>q. []) req) = Some (FileRoute, c)
    \<and> Handle_files (\<lambda>s. None) 5 ''node2'' demo_files c demo_warm () = Some (Ret (calls, job, cs', w'))
    \<and> range_response [1, 2, 3, 4] 1 2 (http_reply (hr_Method req) (respond calls)) \<and> rsp_body (respond calls) = [2, 3]"
proof -
  have run: "case peerRequest demo_asking ''https://10.0.0.1:5001'' 1 2 of Inl e \<Rightarrow> False | Inr req \<Rightarrow>
      (case dispatched doc_match ''u'' (incoming (\<lambda>q. []) req) of Some (FileRoute, c) \<Rightarrow>
        (case Handle_files (\<lambda>s. None) 5 ''node2'' demo_files c demo_warm () of Some (Ret (calls, x)) \<Rightarrow> rsp_body (respond calls) = [2, 3] | _ \<Rightarrow> False)
       | _ \<Rightarrow> False)" by code_simp
  obtain req where req: "peerRequest demo_asking ''https://10.0.0.1:5001'' 1 2 = Inr req" using run by (auto split: sum.split_asm)
  obtain c where c: "dispatched doc_match ''u'' (incoming (\<lambda>q. []) req) = Some (FileRoute, c)"
    using run req by (auto split: option.split_asm prod.split_asm route.split_asm)
  have "case Handle_files (\<lambda>s. None) 5 ''node2'' demo_files c demo_warm () of Some (Ret (calls, x)) \<Rightarrow> rsp_body (respond calls) = [2, 3] | _ \<Rightarrow> False"
    using run req c by simp
  then obtain calls job cs' w' where h: "Handle_files (\<lambda>s. None) 5 ''node2'' demo_files c demo_warm () = Some (Ret (calls, job, cs', w'))"
      "rsp_body (respond calls) = [2, 3]" by (auto split: option.split_asm outcome.split_asm prod.split_asm)
  have "origin_honest (NewReader (st_nodeName demo_files) x (st_router demo_files) (st_resolveRetries demo_files)
      (st_resolveTimeout demo_files) (st_metricsRecorder demo_files)) [1, 2, 3, 4]" for x
    using honest_origin [OF served.network_honest] by (simp add: demo_files_def NewFilesStore_def)
  moreover have "st_cache demo_files = fileCache_ops" "st_parser demo_files = demo_parser" by (simp_all add: demo_files_def NewFilesStore_def)
  ultimately show ?thesis
    using peers_answer_honestly [OF demo_warm_node _ _ _ _ demo_asking_address(1,2) _ _ _ _ _ doc_match_ok c h(1), of "''sha256:d''" 1 2]
      demo_asking_address(3) req c h demo_asking_unconditional by (auto simp: plain_seg_def)
qed

text \<open>
  A reader passes on the headers of the client's request. An \<open>If-Range\<close> header with an entity tag makes
  the peer ignore the range, because its answer has no \<open>Etag\<close>: it answers 200 and sends the file from its
  start. The reader accepts 200 and takes the first bytes of the file for the bytes of the range.
\<close>

theorem if_range_spoils_peer_answers:
  assumes "node_state TYPE('w) D cs" and "file_of D f" and "fl_size f = int (length (D (fl_Name f)))"
    and "fst (scanETag (Header_Get h ''If-Range'')) \<noteq> []" and "\<forall>k \<in> set conditions - {''If-Range''}. Header_Get h k = []"
    and "Header_Get h ''Range'' = range_header start stop"
    and "ServeContent date fuel fileCache_ops ''GET'' h f cs (w :: 'w) = Some (Ret (calls, cs', w'))"
  shows "let d = D (fl_Name f); rsp = respond (files_headers NodeName c @ calls) in
    rsp_status rsp = 200 \<and> (\<exists>m. rsp_body rsp = take m d)
    \<and> (\<forall>(client :: 'v http_client) req buf v v'. client req v = (Inr (http_reply ''GET'' rsp), v') \<longrightarrow> length buf \<le> length (rsp_body rsp) \<longrightarrow>
         preadRemote req client buf v = ((take (length buf) d, int (length buf), None), v'))"
proof -
  let ?d = "D (fl_Name f)" and ?rsp = "respond (files_headers NodeName c @ calls)"
  have "fst (scanETag []) = []" by code_simp
  then have "Header_Get h ''If-Range'' \<noteq> []" using assms(4) by metis
  moreover have "Header_Get h ''If-Match'' = [] \<and> Header_Get h ''If-Unmodified-Since'' = [] \<and> Header_Get h ''If-None-Match'' = []
      \<and> Header_Get h ''If-Modified-Since'' = []" using assms(5) by (simp add: conditions_def)
  ultimately have pre: "checkPreconditions date ''GET'' h = Inr []"
    using assms(4) by (simp add: checkPreconditions_def checkIfMatch_def checkIfUnmodifiedSince_def checkIfNoneMatch_def
        checkIfModifiedSince_def checkIfRange_def Let_def)
  have plan: "serve_plan ''GET'' [] (int (length ?d)) = ([PutHeader ''Accept-Ranges'' ''bytes'',
      PutHeader ''Content-Length'' (FormatInt (int (length ?d))), SetStatus 200], Some (0, int (length ?d)))"
    by (simp add: serve_plan_def parseRange_def Let_def)
  obtain out err f' where run: "copy_loop fuel fileCache_ops (f\<lparr>fl_cur := 0\<rparr>) (int (length ?d)) [] cs w = Some (Ret ((out, err), f', cs', w'))"
    and calls: "calls = [PutHeader ''Accept-Ranges'' ''bytes'', PutHeader ''Content-Length'' (FormatInt (int (length ?d))), SetStatus 200]
      @ (if out = [] then [] else [Write out])"
    using assms(3,7) pre plan by (auto simp: ServeContent_def Seek_def serve_range_def Let_def obind_Ret_iff)
  have "file_of D (f\<lparr>fl_cur := 0\<rparr>)" using assms(2) by (simp add: file_of_def)
  then obtain m where out: "out = take m ?d"
    using fc.copy_loop_ok [OF node_state_ok [OF assms(1)], of "f\<lparr>fl_cur := 0\<rparr>" ?d "int (length ?d)" fuel "[]" w out err f' cs' w'] run
    by (auto simp: slice_def)
  have rsp: "rsp_status ?rsp = 200" "rsp_body ?rsp = out" by (auto simp: calls respond_defs files_headers_def)
  have "preadRemote req client buf v = ((take (length buf) ?d, int (length buf), None), v')"
    if "client req v = (Inr (http_reply ''GET'' ?rsp), v')" "length buf \<le> length (rsp_body ?rsp)" for client :: "'v http_client" and req buf v v'
    using that rsp out by (auto simp: preadRemote_def io_ReadFull_def http_reply_def Let_def min_def)
  then show ?thesis unfolding Let_def using rsp out by blast
qed

subsection \<open>Advertised chunks\<close>

text \<open>
  C9: a prefetched chunk is advertised under the key that a reader of its block looks up. The key \<open>k\<close>
  that a prefetch worker sends to the provider once the chunk is cached is given to the router by every
  run of the provider that receives it, whatever other events come before and whatever the router
  answers. A node that a client asks for a range starting in this block of the same blob makes one
  lookup of exactly \<open>k\<close> for each read from the network that it does for this request, at whatever
  offset: so the block in which the request starts is looked up under its own key, and the later blocks
  and those that the request prefetches are looked up under \<open>k\<close> too, and not under the keys under which
  they are advertised.
\<close>

theorem prefetched_chunk_is_resolved:
  assumes "prefetch_step s p cs w = Ret (Some k, cs', w')" and "0 \<le> ps_offset p" and "in_int64 (ps_offset p)" and "CacheBlockSize dvd ps_offset p"
    and "records rt log f" and "sm_List st = Inr refs" and "\<And>ref. \<exists>a. sm_All st ref = Ret a"
    and "req_Method (ctx_Request c) = ''GET''" and "st_parser s' (BlobUrl c) = Inr (ps_name p)"
    and "Header_Get (req_Header (ctx_Request c)) ''Range'' = range_header start stop" and "ps_offset p \<le> start" and "start < ps_offset p + CacheBlockSize"
    and "start \<le> stop" and "in_int64 stop" and "\<not> IsRequestFromAPeer c" and "records_lookups (st_router s') (st_metricsRecorder s') looked"
  shows "(\<forall>n events blobs v. k \<in> set blobs \<longrightarrow> (\<forall>run \<in> Provide st rt n events blobs v. \<exists>v'. run = Ret v' \<and> [k] \<in> set (log v')))
    \<and> (\<exists>c'. fill_files s' c = Ret (None, c')
        \<and> (\<forall>a buf off v out v'. ri_PreadRemote (fl_reader (open_file s' c' (ps_name p) a)) buf off v = Ret (out, v') \<longrightarrow>
             looked v' = looked v @ [k]))"
proof -
  have off: "ps_offset p div CacheBlockSize * CacheBlockSize = ps_offset p" using assms(4) by simp
  have k: "k = ps_name p @ ''_'' @ FormatInt (ps_offset p)"
    using assms(1) FileChunkKey_nonneg [OF assms(3,2)] off by (auto simp: prefetch_step_def split: option.splits)
  obtain m where m: "ps_offset p = CacheBlockSize * m" using assms(4) by (elim dvdE)
  have "start div CacheBlockSize = m" by (rule int_div_pos_eq [of _ _ _ "start - ps_offset p"]) (use assms(11,12) m in auto)
  then have blk: "start div CacheBlockSize * CacheBlockSize = ps_offset p" using m by simp
  have adv: "\<forall>n events blobs v. k \<in> set blobs \<longrightarrow> (\<forall>run \<in> Provide st rt n events blobs v. \<exists>v'. run = Ret v' \<and> [k] \<in> set (log v'))"
    using Provide_advertises_chunk [OF assms(5-7)] by blast
  have "0 \<le> start" using assms(2,11) by simp
  then obtain c' where c': "fill_files s' c = Ret (None, c')" "ctx_Request c' = ctx_Request c" "GetString c' FileChunkCtxKey = k"
    using fill_files_range [OF assms(8,10) _ assms(13,14,9)] k blk by metis
  have "\<not> IsRequestFromAPeer c'" using assms(15) c'(2) by (simp add: IsRequestFromAPeer_def)
  then have "looked v' = looked v @ [k]" if "ri_PreadRemote (fl_reader (open_file s' c' (ps_name p) a)) buf off v = Ret (out, v')" for a buf off v out v'
    using PreadRemote_lookups [OF assms(16), of "st_nodeName s'" c' "st_resolveRetries s'" "st_resolveTimeout s'" buf off v out v'] that c'(3)
    by (simp add: open_file_def reader_iface_def)
  then show ?thesis using adv c'(1) by blast
qed

text \<open>A router that remembers the lookups and finds one peer, at which nobody listens.\<close>

definition lookup_router :: "string list Router" where
  "lookup_router = \<lparr>rt_Net = \<lparr>nw_HTTPClientFor = (\<lambda>_ _ w. (Inl EOF, w)), nw_RoundTripperFor = (\<lambda>_ _ w. (Inl EOF, w))\<rparr>,
     rt_Resolve = (\<lambda>_ _ _ _ w. (Inr [], w)),
     rt_ResolveWithNegativeCacheCallback = (\<lambda>_ key _ _ w. (Inr ([Peer \<lparr>pi_ID = ''p'', pi_HttpHost = ''https://10.0.0.1:5001''\<rparr>], \<lambda>w. w), w @ [key])),
     rt_Provide = (\<lambda>_ w. (None, w))\<rparr>"

definition lookup_store :: "((string \<times> nat) list cacheState, string list) Files_Store.store" where
  "lookup_store = NewFilesStore PrefetchWorkers ''node3'' quiet_metrics fileCache_ops demo_parser lookup_router"

definition client_get :: Context where
  "client_get = \<lparr>ctx_Request = \<lparr>req_Method = ''GET'', req_Path = ''/blobs/https://origin/b'', req_RawQuery = [],
      req_Header = [(''Range'', [''bytes=2-3''])]\<rparr>, ctx_Params = [(''url'', ''https://origin/b'')], ctx_Query = [], ctx_Keys = []\<rparr>"

theorem prefetched_chunk_is_resolved_witness:
  "\<exists>cs' w' k. prefetch_step demo_files demo_segment demo_cs () = Ret (Some k, cs', w')
    \<and> (\<forall>run \<in> Provide event_store (log_router (\<lambda>keys. Some EOF)) 1 [Inl EOF] [k] []. \<exists>v'. run = Ret v' \<and> [k] \<in> set v')
    \<and> (\<exists>c'. fill_files lookup_store client_get = Ret (None, c')
        \<and> (\<forall>out v'. ri_PreadRemote (fl_reader (open_file lookup_store c' ''sha256:d'' 0)) [0] 1048577 [] = Ret (out, v') \<longrightarrow> v' = [k]))"
proof -
  have "case prefetch_step demo_files demo_segment demo_cs () of Ret (Some k, x) \<Rightarrow> True | _ \<Rightarrow> False" by code_simp
  then obtain k cs' w' where run: "prefetch_step demo_files demo_segment demo_cs () = Ret (Some k, cs', w')"
    by (auto split: outcome.split_asm prod.split_asm option.split_asm)
  have c: "req_Method (ctx_Request client_get) = ''GET''" "st_parser lookup_store (BlobUrl client_get) = Inr (ps_name demo_segment)"
    "Header_Get (req_Header (ctx_Request client_get)) ''Range'' = range_header 2 3" "\<not> IsRequestFromAPeer client_get" by code_simp+
  have seg: "0 \<le> ps_offset demo_segment \<and> in_int64 (ps_offset demo_segment) \<and> CacheBlockSize dvd ps_offset demo_segment
      \<and> ps_offset demo_segment \<le> 2 \<and> 2 < ps_offset demo_segment + CacheBlockSize \<and> in_int64 3" by code_simp
  have name: "ps_name demo_segment = ''sha256:d''" by (simp add: demo_segment_def)
  have "records_lookups (st_router lookup_store) (st_metricsRecorder lookup_store) (\<lambda>w. w)"
    by (auto simp: records_lookups_def lookup_store_def lookup_router_def NewFilesStore_def quiet_metrics_def)
  then have k: "(\<forall>n events blobs v. k \<in> set blobs \<longrightarrow> (\<forall>run \<in> Provide event_store (log_router (\<lambda>keys. Some EOF)) n events blobs v.
      \<exists>v'. run = Ret v' \<and> [k] \<in> set v'))
    \<and> (\<exists>c'. fill_files lookup_store client_get = Ret (None, c')
        \<and> (\<forall>a buf off v out v'. ri_PreadRemote (fl_reader (open_file lookup_store c' ''sha256:d'' a)) buf off v = Ret (out, v') \<longrightarrow> v' = v @ [k]))"
    using prefetched_chunk_is_resolved [where looked = "\<lambda>w. w" and f = "\<lambda>keys. Some EOF", OF run _ _ _ log_router_records event_store_sm c(1-3)]
      c(4) seg name by simp
  moreover have "k \<in> set [k]" by simp
  ultimately show ?thesis using run by (metis append_Nil)
qed

end
