(* ===== verification/Routing.thy ===== *)
theory Routing
  imports Network_Interface
begin

section \<open>The router: \<open>src/pkg/discovery/routing/router.go\<close>\<close>

text \<open>
  Model of the content router and of its mock. The DHT (\<open>FindProvidersAsync\<close>, \<open>Provide\<close>), content
  identifiers (\<open>cid.Prefix.Sum\<close>), multiaddresses, the ristretto lookup cache and the Kubernetes event
  recorder are third-party packages: their operations are fields of the \<open>router\<close> object over an
  environment \<open>'e\<close>. The list that \<open>ro_findProviders\<close> returns is what arrives on \<open>providersCh\<close> before
  the caller's deadline.
\<close>

subsection \<open>Data\<close>

definition negCacheTtl :: int64 where "negCacheTtl = 500"
definition strPeerNotFound :: string where "strPeerNotFound = ''PEER_NOT_FOUND''"

record 'a AddrInfo =
  ai_ID :: string
  ai_Addrs :: "'a list"

text \<open>\<open>cid.Prefix\<close>, the parameters of a content identifier; \<open>Sum\<close> is the library's.\<close>

record cidPrefix =
  px_Version :: int64
  px_Codec :: int64
  px_MhType :: int64
  px_MhLength :: int64

record ('a, 'cid, 'e) router =
  ro_hostID :: string
  ro_net :: "(bool \<times> 'e) Network"
  ro_peerRegistryPort :: string
  ro_findProviders :: "'cid \<Rightarrow> int64 \<Rightarrow> 'e \<Rightarrow> 'a AddrInfo list \<times> 'e"
  ro_provide :: "'cid \<Rightarrow> 'e \<Rightarrow> go_error option \<times> 'e"
  ro_lookupGet :: "string \<Rightarrow> 'e \<Rightarrow> string option \<times> 'e"
  ro_lookupSetWithTTL :: "string \<Rightarrow> string \<Rightarrow> int64 \<Rightarrow> int64 \<Rightarrow> 'e \<Rightarrow> 'e"
  ro_newRecorder :: "'e \<Rightarrow> go_error option \<times> 'e"
  ro_reportActive :: "'e \<Rightarrow> 'e"
  ro_prefixSum :: "cidPrefix \<Rightarrow> bytes \<Rightarrow> 'cid result"
  ro_ip4 :: "'a \<Rightarrow> string result"

text \<open>
  The world of a router is its \<open>active\<close> flag and the environment. The codec \<open>0x55\<close> is \<open>Raw\<close>, the hash
  \<open>0x12\<close> is SHA-256, and the length -1 is the hash's own.
\<close>

definition createContentId :: "('a, 'cid, 'e) router \<Rightarrow> string \<Rightarrow> 'cid result" where
  "createContentId r key =
     (let pref = \<lparr>px_Version = 1, px_Codec = 85, px_MhType = 18, px_MhLength = -1\<rparr>
      in ro_prefixSum r pref (map (\<lambda>c. of_nat (of_char c)) key))"

subsection \<open>Operations\<close>

definition report_active :: "('a, 'cid, 'e) router \<Rightarrow> bool \<times> 'e \<Rightarrow> bool \<times> 'e" where
  "report_active r w =
     (if fst w then w
      else (case ro_newRecorder r (snd w) of
              (Some e, env) \<Rightarrow> (True, env)
            | (None, env) \<Rightarrow> (True, ro_reportActive r env)))"

text \<open>
  The goroutine of \<open>Resolve\<close>. The channel \<open>peersCh\<close> has room for \<open>count\<close> peers and \<open>FindProvidersAsync\<close>
  delivers at most \<open>count\<close> providers when \<open>count\<close> is positive, as in all calls of this repository, so that
  a send never waits (\<open>resolve_loop_fits\<close>).
\<close>

fun resolve_loop :: "('a, 'cid, 'e) router \<Rightarrow> bool \<Rightarrow> 'a AddrInfo list \<Rightarrow> bool \<times> 'e \<Rightarrow> PeerInfo list \<times> bool \<times> 'e" where
  "resolve_loop r allowSelf [] w = ([], w)"
| "resolve_loop r allowSelf (info # infos) w =
     (if \<not> allowSelf \<and> ai_ID info = ro_hostID r then resolve_loop r allowSelf infos w
      else if length (ai_Addrs info) \<noteq> 1 then resolve_loop r allowSelf infos w
      else (case ro_ip4 r (ai_Addrs info ! 0) of
              Inl e \<Rightarrow> resolve_loop r allowSelf infos w
            | Inr v \<Rightarrow>
                (let p = \<lparr>pi_ID = ai_ID info, pi_HttpHost = ''https://'' @ v @ '':'' @ ro_peerRegistryPort r\<rparr>;
                     (ps, w') = resolve_loop r allowSelf infos (report_active r w)
                 in (p # ps, w'))))"

definition Resolve :: "('a, 'cid, 'e) router \<Rightarrow> string \<Rightarrow> bool \<Rightarrow> int64 \<Rightarrow> bool \<times> 'e \<Rightarrow>
    select_event list result \<times> bool \<times> 'e" where
  "Resolve r key allowSelf count w =
     (case createContentId r key of
        Inl e \<Rightarrow> (Inl e, w)
      | Inr contentId \<Rightarrow>
          (let (infos, env) = ro_findProviders r contentId count (snd w);
               (peers, w') = resolve_loop r allowSelf infos (fst w, env)
           in (Inr (map Peer peers), w')))"

definition ResolveWithNegativeCacheCallback :: "('a, 'cid, 'e) router \<Rightarrow> string \<Rightarrow> bool \<Rightarrow> int64 \<Rightarrow> bool \<times> 'e \<Rightarrow>
    (select_event list \<times> (bool \<times> 'e \<Rightarrow> bool \<times> 'e)) result \<times> bool \<times> 'e" where
  "ResolveWithNegativeCacheCallback r key allowSelf count w =
     (let (val, env) = ro_lookupGet r key (snd w); w1 = (fst w, env) in
      if val = Some strPeerNotFound
      then (Inl (WrapErr ''ContentNotFoundError'' (Errorf ''(cached) peer not found for key'')), w1)
      else (case Resolve r key allowSelf count w1 of
              (Inl e, w2) \<Rightarrow> (Inl e, w2)
            | (Inr peerCh, w2) \<Rightarrow>
                (Inr (peerCh, \<lambda>v. (fst v, ro_lookupSetWithTTL r key strPeerNotFound 1 negCacheTtl (snd v))), w2)))"

fun Provide_keys :: "('a, 'cid, 'e) router \<Rightarrow> string list \<Rightarrow> bool \<times> 'e \<Rightarrow> go_error option \<times> bool \<times> 'e" where
  "Provide_keys r [] w = (None, w)"
| "Provide_keys r (key # keys) w =
     (case createContentId r key of
        Inl e \<Rightarrow> (Some e, w)
      | Inr contentId \<Rightarrow>
          (case ro_provide r contentId (snd w) of
             (Some e, env) \<Rightarrow> (Some e, (fst w, env))
           | (None, env) \<Rightarrow> Provide_keys r keys (fst w, env)))"

text \<open>The interface value: the deadline of the context is already in what the DHT delivers.\<close>

definition router_iface :: "('a, 'cid, 'e) router \<Rightarrow> (bool \<times> 'e) Router" where
  "router_iface r = \<lparr>rt_Net = ro_net r,
     rt_Resolve = (\<lambda>timeout. Resolve r),
     rt_ResolveWithNegativeCacheCallback = (\<lambda>timeout. ResolveWithNegativeCacheCallback r),
     rt_Provide = Provide_keys r\<rparr>"

text \<open>The address of this host: \<open>net.SplitHostPort\<close>, and the filter that picks one address.\<close>

fun IndexByte :: "string \<Rightarrow> char \<Rightarrow> nat option" where
  "IndexByte [] b = None"
| "IndexByte (c # s) b = (if c = b then Some 0 else map_option Suc (IndexByte s b))"

definition SplitHostPort :: "string \<Rightarrow> (string \<times> string) result" where
  "SplitHostPort hostport =
     (case LastIndexByte hostport CHR '':'' of
        None \<Rightarrow> Inl (Errorf ''missing port in address'')
      | Some i \<Rightarrow>
          (let check = (\<lambda>host j k.
                 if CHR ''['' \<in> set (drop j hostport) then Inl (Errorf ''unexpected bracket in address'')
                 else if CHR '']'' \<in> set (drop k hostport) then Inl (Errorf ''unexpected bracket in address'')
                 else Inr (host, drop (Suc i) hostport))
           in if hd hostport = CHR ''['' then
                (case IndexByte hostport CHR '']'' of
                   None \<Rightarrow> Inl (Errorf ''missing bracket in address'')
                 | Some e \<Rightarrow>
                     (if Suc e = length hostport then Inl (Errorf ''missing port in address'')
                      else if Suc e = i then check (drop 1 (take e hostport)) 1 (Suc e)
                      else if hostport ! Suc e = CHR '':'' then Inl (Errorf ''too many colons in address'')
                      else Inl (Errorf ''missing port in address'')))
              else if CHR '':'' \<in> set (take i hostport) then Inl (Errorf ''too many colons in address'')
              else check (take i hostport) 0 0))"

definition host_multiaddr :: "string \<Rightarrow> string result" where
  "host_multiaddr addr =
     (case SplitHostPort addr of Inl e \<Rightarrow> Inl e | Inr (h, p) \<Rightarrow> Inr (''/ip4/'' @ h @ ''/tcp/'' @ p))"

fun addrs_factory :: "('a \<Rightarrow> string result) \<Rightarrow> 'a list \<Rightarrow> 'a list" where
  "addrs_factory ip4 [] = []"
| "addrs_factory ip4 (addr # addrs) =
     (case ip4 addr of
        Inl e \<Rightarrow> addrs_factory ip4 addrs
      | Inr v \<Rightarrow> if v = [] \<or> v = ''127.0.0.1'' then addrs_factory ip4 addrs else [addr])"

definition newHost :: "(string \<Rightarrow> 'a result) \<Rightarrow> ('a \<Rightarrow> ('a list \<Rightarrow> 'a list) \<Rightarrow> 'h result) \<Rightarrow> ('a \<Rightarrow> string result) \<Rightarrow>
    string \<Rightarrow> 'h result" where
  "newHost newMultiaddr libp2pNew ip4 addr =
     (case host_multiaddr addr of
        Inl e \<Rightarrow> Inl e
      | Inr s \<Rightarrow>
          (case newMultiaddr s of
             Inl e \<Rightarrow> Inl (WrapErr ''could not create host multi address'' e)
           | Inr hostAddr \<Rightarrow> libp2pNew hostAddr (addrs_factory ip4)))"

text \<open>The bootstrap function of the DHT: the leader, unless this host is the leader itself.\<close>

datatype node_event = Connected | Disconnected

definition bootstrap_peers :: "('m \<Rightarrow> 'a AddrInfo result) \<Rightarrow> string \<Rightarrow> 'm result \<Rightarrow> 'a AddrInfo list \<times> node_event list" where
  "bootstrap_peers addrInfoFromP2pAddr selfID leader =
     (case leader of
        Inl e \<Rightarrow> ([], [Disconnected])
      | Inr addr \<Rightarrow>
          (case addrInfoFromP2pAddr addr of
             Inl e \<Rightarrow> ([], [])
           | Inr addrInfo \<Rightarrow> (if ai_ID addrInfo = selfID then [] else [addrInfo], [Connected])))"

subsection \<open>The mock: \<open>mocks/router.go\<close>\<close>

record MockRouter =
  mk_resolver :: "(string \<times> string list) list"
  mk_negCache :: "string list"

definition mock_Resolve :: "string \<Rightarrow> MockRouter \<Rightarrow> select_event list result \<times> MockRouter" where
  "mock_Resolve key m =
     (case map_of (mk_resolver m) key of
        None \<Rightarrow> (Inr [], m)
      | Some peers \<Rightarrow> (Inr (map (\<lambda>p. Peer \<lparr>pi_ID = p, pi_HttpHost = p\<rparr>) peers @ [Closed]), m))"

definition mock_ResolveNeg :: "string \<Rightarrow> MockRouter \<Rightarrow> (select_event list \<times> (MockRouter \<Rightarrow> MockRouter)) result \<times> MockRouter" where
  "mock_ResolveNeg key m =
     (case mock_Resolve key m of
        (Inl e, m') \<Rightarrow> (Inl e, m')
      | (Inr evs, m') \<Rightarrow> (Inr (evs, \<lambda>n. n\<lparr>mk_negCache := key # mk_negCache n\<rparr>), m'))"

definition mock_Provide :: "string list \<Rightarrow> MockRouter \<Rightarrow> go_error option \<times> MockRouter" where
  "mock_Provide keys m = (None, m\<lparr>mk_resolver := fold (\<lambda>key. AList.update key [''localhost'']) keys (mk_resolver m)\<rparr>)"

definition LookupKey :: "MockRouter \<Rightarrow> string \<Rightarrow> string list option" where
  "LookupKey m key = map_of (mk_resolver m) key"

definition mock_iface :: "MockRouter Network \<Rightarrow> MockRouter Router" where
  "mock_iface net = \<lparr>rt_Net = net,
     rt_Resolve = (\<lambda>timeout key allowSelf count. mock_Resolve key),
     rt_ResolveWithNegativeCacheCallback = (\<lambda>timeout key allowSelf count. mock_ResolveNeg key),
     rt_Provide = mock_Provide\<rparr>"

subsection \<open>Properties\<close>

text \<open>
  What the goroutine of \<open>Resolve\<close> promises: of the providers, the ones that are not this host (unless
  allowed), have exactly one address and this address has an IPv4 component, in the order found.
\<close>

definition peer_of :: "('a, 'cid, 'e) router \<Rightarrow> bool \<Rightarrow> 'a AddrInfo \<Rightarrow> PeerInfo option" where
  "peer_of r allowSelf info =
     (case ai_Addrs info of
        [a] \<Rightarrow> (case ro_ip4 r a of
                 Inr v \<Rightarrow> if \<not> allowSelf \<and> ai_ID info = ro_hostID r then None
                          else Some \<lparr>pi_ID = ai_ID info, pi_HttpHost = ''https://'' @ v @ '':'' @ ro_peerRegistryPort r\<rparr>
               | Inl e \<Rightarrow> None)
      | _ \<Rightarrow> None)"

lemma resolve_loop_peers: "fst (resolve_loop r allowSelf infos w) = List.map_filter (peer_of r allowSelf) infos"
proof (induction infos arbitrary: w)
  case (Cons info infos)
  show ?case
  proof (cases "length (ai_Addrs info) = 1")
    case True
    then obtain a where a: "ai_Addrs info = [a]" by (auto simp: length_Suc_conv)
    show ?thesis
    proof (cases "ro_ip4 r a")
      case (Inl e)
      have "peer_of r allowSelf info = None" using a Inl by (simp add: peer_of_def)
      then show ?thesis using Cons [of w] a Inl by (auto simp: map_filter_simps)
    next
      case (Inr v)
      obtain ps w' where "resolve_loop r allowSelf infos (report_active r w) = (ps, w')"
        by (cases "resolve_loop r allowSelf infos (report_active r w)")
      then show ?thesis
        using Cons [of "report_active r w"] Cons [of w] a Inr peer_of_def [of r allowSelf info]
        by (auto simp: map_filter_simps)
    qed
  next
    case False
    then have "peer_of r allowSelf info = None" by (auto simp: peer_of_def split: list.splits)
    then show ?thesis using Cons [of w] False by (auto simp: map_filter_simps)
  qed
qed (simp add: map_filter_simps)

lemma peer_of_not_self: "peer_of r False info = Some p \<Longrightarrow> pi_ID p \<noteq> ro_hostID r"
  by (auto simp: peer_of_def split: list.splits sum.splits if_splits)

lemma in_map_filter: "y \<in> set (List.map_filter f xs) \<Longrightarrow> \<exists>x \<in> set xs. f x = Some y"
  by (induction xs) (auto simp: map_filter_simps split: option.splits)

lemma length_map_filter: "length (List.map_filter f xs) \<le> length xs"
  by (induction xs) (simp_all add: map_filter_simps split: option.split)

lemma resolve_loop_fits: "int (length infos) \<le> count \<Longrightarrow> int (length (fst (resolve_loop r allowSelf infos w))) \<le> count"
  using length_map_filter [of "peer_of r allowSelf" infos] by (simp add: resolve_loop_peers)

lemma resolve_loop_active: "fst w \<Longrightarrow> snd (resolve_loop r allowSelf infos w) = w"
  by (induction infos) (auto simp: report_active_def split: sum.splits prod.splits)

text \<open>
  C18: \<open>Resolve\<close> delivers exactly the usable providers, in the order in which the DHT finds them, with
  the address \<open>https://ip:port\<close> of their registry; this host itself is left out unless it is allowed.
  The channel is never closed: a caller learns that there are no more peers only from its deadline.
\<close>

theorem Resolve_delivers_usable_providers:
  assumes "Resolve r key allowSelf count w = (Inr evs, w')"
  shows "\<exists>cid infos env. createContentId r key = Inr cid \<and> ro_findProviders r cid count (snd w) = (infos, env)
    \<and> evs = map Peer (List.map_filter (peer_of r allowSelf) infos)
    \<and> Closed \<notin> set evs
    \<and> (\<not> allowSelf \<longrightarrow> (\<forall>p. Peer p \<in> set evs \<longrightarrow> pi_ID p \<noteq> ro_hostID r))"
proof -
  obtain cid infos env where c: "createContentId r key = Inr cid" "ro_findProviders r cid count (snd w) = (infos, env)"
    and evs: "evs = map Peer (fst (resolve_loop r allowSelf infos (fst w, env)))"
    using assms by (auto simp: Resolve_def split: sum.splits prod.splits)
  have "pi_ID p \<noteq> ro_hostID r" if "\<not> allowSelf" "p \<in> set (List.map_filter (peer_of r allowSelf) infos)" for p
    using that by (auto dest!: in_map_filter peer_of_not_self)
  then show ?thesis using c evs by (auto simp: resolve_loop_peers)
qed

text \<open>An environment without state, in which the DHT knows the given providers.\<close>

definition demo_dht :: "string AddrInfo list \<Rightarrow> (string, bytes, unit) router" where
  "demo_dht infos = \<lparr>ro_hostID = ''self'',
     ro_net = \<lparr>nw_HTTPClientFor = (\<lambda>_ _ w. (Inl (NetError ''down''), w)), nw_RoundTripperFor = (\<lambda>_ _ w. (Inl (NetError ''down''), w))\<rparr>,
     ro_peerRegistryPort = ''5001'', ro_findProviders = (\<lambda>_ _ e. (infos, e)), ro_provide = (\<lambda>_ e. (None, e)),
     ro_lookupGet = (\<lambda>_ e. (None, e)), ro_lookupSetWithTTL = (\<lambda>_ _ _ _ e. e), ro_newRecorder = (\<lambda>e. (None, e)),
     ro_reportActive = (\<lambda>e. e), ro_prefixSum = (\<lambda>p k. Inr k), ro_ip4 = (\<lambda>a. Inr a)\<rparr>"

theorem Resolve_delivers_usable_providers_witness:
  "\<exists>evs w'. Resolve (demo_dht [\<lparr>ai_ID = ''self'', ai_Addrs = [''10.0.0.1'']\<rparr>, \<lparr>ai_ID = ''p'', ai_Addrs = [''10.0.0.2'']\<rparr>])
      ''d_0'' False 3 (False, ()) = (Inr evs, w')
    \<and> evs = [Peer \<lparr>pi_ID = ''p'', pi_HttpHost = ''https://10.0.0.2:5001''\<rparr>]"
proof -
  let ?r = "demo_dht [\<lparr>ai_ID = ''self'', ai_Addrs = [''10.0.0.1'']\<rparr>, \<lparr>ai_ID = ''p'', ai_Addrs = [''10.0.0.2'']\<rparr>]"
  obtain evs w' where r: "Resolve ?r ''d_0'' False 3 (False, ()) = (Inr evs, w')"
    by (cases "Resolve ?r ''d_0'' False 3 (False, ())") (auto simp: Resolve_def createContentId_def demo_dht_def Let_def split: prod.splits)
  then show ?thesis
    using Resolve_delivers_usable_providers [OF r]
    by (intro exI [of _ evs] exI [of _ w']) (auto simp: demo_dht_def createContentId_def peer_of_def Let_def map_filter_simps)
qed

text \<open>
  The negative cache. Once the callback of a lookup for a key has run, further lookups for
  this key answer "not found" from the cache, without asking the DHT, for as long as the cache
  returns the entry.
\<close>

theorem negative_cache_answers:
  assumes "ResolveWithNegativeCacheCallback r key allowSelf count w = (Inr (evs, cb), w1)"
    and "ro_lookupGet r key (ro_lookupSetWithTTL r key strPeerNotFound 1 negCacheTtl (snd v)) = (Some strPeerNotFound, env)"
  shows "ResolveWithNegativeCacheCallback r key allowSelf' count' (cb v)
    = (Inl (WrapErr ''ContentNotFoundError'' (Errorf ''(cached) peer not found for key'')), (fst v, env))"
proof -
  have "cb v = (fst v, ro_lookupSetWithTTL r key strPeerNotFound 1 negCacheTtl (snd v))"
    using assms(1)
    by (auto simp: ResolveWithNegativeCacheCallback_def Let_def split: prod.splits if_splits sum.splits)
  then show ?thesis using assms(2) by (simp add: ResolveWithNegativeCacheCallback_def Let_def)
qed

text \<open>A lookup cache that remembers every entry.\<close>

definition demo_lookup :: "(string, bytes, (string \<times> string) list) router" where
  "demo_lookup = \<lparr>ro_hostID = ''self'',
     ro_net = \<lparr>nw_HTTPClientFor = (\<lambda>_ _ w. (Inl (NetError ''down''), w)), nw_RoundTripperFor = (\<lambda>_ _ w. (Inl (NetError ''down''), w))\<rparr>,
     ro_peerRegistryPort = ''5001'', ro_findProviders = (\<lambda>_ _ e. ([], e)), ro_provide = (\<lambda>_ e. (None, e)),
     ro_lookupGet = (\<lambda>k e. (map_of e k, e)), ro_lookupSetWithTTL = (\<lambda>k v _ _ e. (k, v) # e), ro_newRecorder = (\<lambda>e. (None, e)),
     ro_reportActive = (\<lambda>e. e), ro_prefixSum = (\<lambda>p k. Inr k), ro_ip4 = (\<lambda>a. Inr a)\<rparr>"

theorem negative_cache_answers_witness:
  "\<exists>cb. ResolveWithNegativeCacheCallback demo_lookup ''d_0'' False 3 (False, []) = (Inr ([], cb), (False, []))
    \<and> ResolveWithNegativeCacheCallback demo_lookup ''d_0'' False 3 (cb (False, []))
      = (Inl (WrapErr ''ContentNotFoundError'' (Errorf ''(cached) peer not found for key'')), (False, [(''d_0'', strPeerNotFound)]))"
proof -
  obtain cb where r: "ResolveWithNegativeCacheCallback demo_lookup ''d_0'' False 3 (False, []) = (Inr ([], cb), (False, []))"
    by (simp add: ResolveWithNegativeCacheCallback_def Resolve_def createContentId_def demo_lookup_def)
  show ?thesis
    using negative_cache_answers [OF r, of "(False, [])" "[(''d_0'', strPeerNotFound)]" False 3] r
    by (auto simp: demo_lookup_def)
qed

end
