(* ===== verification/Cluster_Pull.thy ===== *)
theory Cluster_Pull
  imports Http_Server
begin

section \<open>Pulling through the cluster\<close>

text \<open>
  The composition of two nodes: the handler of the distribution API at one node, its mirror, the
  HTTP server of a peer, the peer's registry handler and its store. A container runtime receives the
  content that is stored under the digest it asks for.
\<close>

text \<open>The path of a manifest or of a blob by digest.\<close>

definition digest_path :: "string \<Rightarrow> string \<Rightarrow> string \<Rightarrow> bool" where
  "digest_path path d t \<longleftrightarrow> CHR ''/'' \<notin> set d \<and> CHR '':'' \<in> set d \<and> no_newline d \<and>
     (\<exists>name. name_ok name \<and>
       (t = ReferenceTypeManifest \<and> path = ''/v2/'' @ name @ ''/manifests/'' @ d \<and> occurrences ''/manifests/'' path = 1 \<or>
        t = ReferenceTypeBlob \<and> path = ''/v2/'' @ name @ ''/blobs/'' @ d \<and> occurrences ''/manifests/'' path = 0 \<and> occurrences ''/blobs/'' path = 1))"

lemma digest_path_parse:
  assumes "digest_path path d t"
  shows "ParsePathComponents registry path = Inr ([], d, t)"
proof -
  obtain name where d: "CHR ''/'' \<notin> set d" "CHR '':'' \<in> set d" "no_newline d" and n: "name_ok name"
    "t = ReferenceTypeManifest \<and> path = ''/v2/'' @ name @ ''/manifests/'' @ d \<and> occurrences ''/manifests/'' path = 1 \<or>
     t = ReferenceTypeBlob \<and> path = ''/v2/'' @ name @ ''/blobs/'' @ d \<and> occurrences ''/manifests/'' path = 0 \<and> occurrences ''/blobs/'' path = 1"
    using assms unfolding digest_path_def by blast
  show ?thesis using ParsePathComponents_by_digest [OF n(1) d, of registry] n(2) by blast
qed

lemma set_Join: "x \<in> set xs \<Longrightarrow> set x \<subseteq> set (Join xs sep)"
  by (induction xs sep rule: Join.induct) auto

lemma digest_path_v2:
  assumes "digest_path path d t"
  shows "HasPrefix path ''/v2/''" and "path_Clean path \<notin> {''/v2'', ''/v2/''}"
proof -
  obtain q where p: "path = ''/v2/'' @ q @ ''/'' @ d" and d: "CHR ''/'' \<notin> set d" "CHR '':'' \<in> set d"
    using assms unfolding digest_path_def by (metis append.assoc append_Cons append_Nil)
  show "HasPrefix path ''/v2/''" by (simp add: p HasPrefix_def)
  have "plain_seg d" using d by (auto simp: plain_seg_def)
  moreover have "Split path CHR ''/'' = Split (''/v2/'' @ q) CHR ''/'' @ [d]"
    using Split_append_sep [of "''/v2/'' @ q" "CHR ''/''" d] Split_no_sep [OF d(1)] by (simp only: p append.assoc append_Cons append_Nil)
  ultimately have "d \<in> set (clean_segs True [] (Split path CHR ''/''))"
    using clean_segs_append_plain [of "[d]" True "[]" "Split (''/v2/'' @ q) CHR ''/''"] by simp
  then have "CHR '':'' \<in> set (path_Clean path)"
    using set_Join d(2) by (fastforce simp: path_Clean_def p Let_def)
  then show "path_Clean path \<notin> {''/v2'', ''/v2/''}" by auto
qed


text \<open>Both sides of a pull fill the context with the digest.\<close>

lemma fill_digest_path:
  assumes "digest_path (req_Path (ctx_Request c)) d t"
  obtains c' where "fill_v2 c = (None, c')" and "ctx_Request c' = ctx_Request c" and "GetString c' DigestCtxKey = d"
    and "ctx_Get c' RefTypeCtxKey = Some (CtxRefType t)"
proof
  note filled = fill_v2_Some [OF digest_path_parse [OF assms]]
  show "fill_v2 c = (None, snd (fill_v2 c))" using filled(1) by (metis prod.collapse)
  show "GetString (snd (fill_v2 c)) DigestCtxKey = d" "ctx_Get (snd (fill_v2 c)) RefTypeCtxKey = Some (CtxRefType t)"
    using filled by simp_all
qed simp

text \<open>What a node answers to a request of a peer for content by digest: its registry's response, framed.\<close>

abbreviation peer_client where
  "peer_client gm uuid parseQuery f digestParse node conn h \<equiv> node_client gm uuid parseQuery f (Handle_v2 digestParse node None conn h)"

lemma digest_not_empty: "digest_path path d t \<Longrightarrow> d \<noteq> []"
  by (auto simp: digest_path_def)

lemma digest_kind: "digest_path path d t \<Longrightarrow> t = ''Manifest'' \<or> t = ''Blob''"
  by (auto simp: digest_path_def ReferenceTypeManifest_def ReferenceTypeBlob_def)

lemma peer_client_answer:
  assumes "route_match gm" and "digest_path (u_Path (hr_URL req)) d t" and "hr_Method req = ''GET''"
    and "Header_Get (hr_Header req) P2PHeaderKey = ''true''" and "digestParse d = Inr d" and "vh_registry h = NewRegistry st"
  obtains w' c' where "peer_client gm uuid parseQuery f digestParse node conn h req w =
      (Inr (http_reply ''GET'' (respond (if t = ''Manifest'' then handleManifest conn (NewRegistry st) c' d else handleBlob conn (NewRegistry st) c' d))), w')"
    and "req_Method (ctx_Request c') = ''GET''"
proof -
  let ?inc = "incoming parseQuery req"
  let ?c = "ctx_Set LoggerCtxKey CtxLogger (FillCorrelationId uuid (?inc\<lparr>ctx_Params := [(''ref'', drop 3 (u_Path (hr_URL req)))]\<rparr>))"
  have req: "ctx_Request ?c = ctx_Request ?inc" "ctx_Request ?inc = \<lparr>req_Method = ''GET'', req_Path = u_Path (hr_URL req),
      req_RawQuery = u_RawQuery (hr_URL req), req_Header = hr_Header req\<rparr>"
    using assms(3) by (simp_all add: FillCorrelationId_def Let_def incoming_def)
  note path = digest_path_v2 [OF assms(2)]
  have route: "find_route gm registerRoutes ''GET'' (u_Path (hr_URL req)) = Some (V2Route, [(''ref'', drop 3 (u_Path (hr_URL req)))])"
    by (rule find_route_v2 [OF assms(1) _ path(1)]) simp
  have "digest_path (req_Path (ctx_Request ?c)) d t" using assms(2) req by simp
  then obtain c' where c': "fill_v2 ?c = (None, c')" "ctx_Request c' = ctx_Request ?c" "GetString c' DigestCtxKey = d"
      "ctx_Get c' RefTypeCtxKey = Some (CtxRefType t)" by (rule fill_digest_path)
  have peer: "IsRequestFromAPeer ?c" using assms(4) req by (simp add: IsRequestFromAPeer_def)
  have v2: "Handle_v2 digestParse node None conn h ?c w =
      (Handle_registry digestParse conn (NewRegistry st) c', mt_RecordRequest (vh_metricsRecorder h) ''GET'' ''oci'' w)"
    using Handle_v2_peer [of ?c c' digestParse node None conn h w] path(2) req c'(1) peer assms(6) by simp
  have reg: "Handle_registry digestParse conn (NewRegistry st) c' =
      (if t = ''Manifest'' then handleManifest conn (NewRegistry st) c' d else handleBlob conn (NewRegistry st) c' d, Ret ())"
    using digest_not_empty [OF assms(2)] digest_kind [OF assms(2)] assms(5) c'(3,4) by (auto simp: Handle_registry_def)
  have mp: "req_Method (ctx_Request ?inc) = ''GET''" "req_Path (ctx_Request ?inc) = u_Path (hr_URL req)" using req(2) by simp_all
  have serve: "engine_serve gm uuid f (Handle_v2 digestParse node None conn h) ?inc w =
      (recovered (Handle_registry digestParse conn (NewRegistry st) c'), mt_RecordRequest (vh_metricsRecorder h) ''GET'' ''oci'' w)"
    unfolding engine_serve_def dispatched_def mp route option.map option.case prod.case Let_def route.case v2 by (rule refl)
  show ?thesis
  proof (rule that)
    show "peer_client gm uuid parseQuery f digestParse node conn h req w =
      (Inr (http_reply ''GET'' (respond (if t = ''Manifest'' then handleManifest conn (NewRegistry st) c' d else handleBlob conn (NewRegistry st) c' d))),
       mt_RecordRequest (vh_metricsRecorder h) ''GET'' ''oci'' w)"
      unfolding node_client_def serve assms(3) by (simp add: reg recovered_def)
    show "req_Method (ctx_Request c') = ''GET''" using c'(2) req by simp
  qed
qed

text \<open>A complete reply carries the stored content.\<close>

lemma promised_reply:
  assumes "promises c d b r" and "req_Method (ctx_Request c) = ''GET''" and "in_int64 (int (length b))"
  shows "prefix (hs_Body (http_reply ''GET'' r)) b" and "hs_BodyErr (http_reply ''GET'' r) = None \<longleftrightarrow> rsp_body r = b"
proof -
  have cl: "Header_Get (rsp_header r) ''Content-Length'' = FormatInt (int (length b))" and pre: "prefix (rsp_body r) b"
    using assms(1) by (simp_all add: promises_def contentLengthHeader_def)
  show "prefix (hs_Body (http_reply ''GET'' r)) b" using pre by (simp add: http_reply_def Let_def)
  show "hs_BodyErr (http_reply ''GET'' r) = None \<longleftrightarrow> rsp_body r = b"
    using cl pre ParseInt_FormatInt [OF assms(3)] by (auto simp: http_reply_def Let_def FormatInt_nonempty prefix_def)
qed

lemma peer_reply_content:
  assumes "route_match gm" and "digest_path (u_Path (hr_URL req)) d t" and "hr_Method req = ''GET''"
    and "Header_Get (hr_Header req) P2PHeaderKey = ''true''" and "digestParse d = Inr d" and "vh_registry h = NewRegistry st"
    and "blob_store st blob" and "blob d = Some b" and "writer_ok conn" and "in_int64 (int (length b))"
    and "peer_client gm uuid parseQuery f digestParse node conn h req w = (Inr resp, w')" and "hs_StatusCode resp = 200"
  shows "prefix (hs_Body resp) b" and "hs_BodyErr resp = None \<Longrightarrow> hs_Body resp = b"
proof -
  obtain w1 c' where ans: "peer_client gm uuid parseQuery f digestParse node conn h req w =
      (Inr (http_reply ''GET'' (respond (if t = ''Manifest'' then handleManifest conn (NewRegistry st) c' d else handleBlob conn (NewRegistry st) c' d))), w1)"
    and get: "req_Method (ctx_Request c') = ''GET''" by (rule peer_client_answer [where digestParse = digestParse, OF assms(1-6)])
  let ?r = "respond (if t = ''Manifest'' then handleManifest conn (NewRegistry st) c' d else handleBlob conn (NewRegistry st) c' d)"
  have resp: "resp = http_reply ''GET'' ?r" using ans assms(11) by simp
  then have st: "rsp_status ?r = 200" using assms(12) by (simp add: http_reply_def Let_def)
  have "promises c' d b ?r"
  proof (cases "t = ''Manifest''")
    case True
    then show ?thesis using blob_store.handleManifest_promises [OF assms(7-9) digest_not_empty [OF assms(2)], of c'] st by (simp add: NewRegistry_def)
  next
    case False
    then show ?thesis using blob_store.handleBlob_promises [OF assms(7-9) digest_not_empty [OF assms(2)], of c'] st by (simp add: NewRegistry_def)
  qed
  note reply = promised_reply [OF this get assms(10)]
  show "prefix (hs_Body resp) b" using reply(1) resp by simp
  show "hs_Body resp = b" if "hs_BodyErr resp = None" using reply(2) that resp by (simp add: http_reply_def Let_def)
qed


text \<open>The request that the mirror forwards.\<close>

lemma outbound_simps [simp]:
  "hr_Method (outbound NodeName clientIP c u) = req_Method (ctx_Request c)"
  "u_Path (hr_URL (outbound NodeName clientIP c u)) = req_Path (ctx_Request c)"
  by (simp_all add: outbound_def)

lemma Handle_v2_pull:
  assumes "digest_path (req_Path (ctx_Request c)) d t" and "\<not> IsRequestFromAPeer c"
  obtains c' where "ctx_Request c' = ctx_Request c" and "mirror_key c' = d"
    and "\<And>w. fst (Handle_v2 digestParse NodeName clientIP conn h c w) = fst (Handle_mirror NodeName clientIP conn (vh_proxy h) c' w)"
proof -
  obtain c' where c': "fill_v2 c = (None, c')" "ctx_Request c' = ctx_Request c" "GetString c' DigestCtxKey = d"
    using fill_digest_path [OF assms(1)] by metis
  show ?thesis
  proof (rule that [OF c'(2)])
    show "mirror_key c' = d" using c'(3) digest_not_empty [OF assms(1)] by (simp add: mirror_key_def)
    show "fst (Handle_v2 digestParse NodeName clientIP conn h c w) = fst (Handle_mirror NodeName clientIP conn (vh_proxy h) c' w)" for w
      unfolding Handle_v2_runtime [OF digest_path_v2(2) [OF assms(1)] c'(1) assms(2)] by (simp split: prod.split)
  qed
qed

text \<open>
  A cluster: whoever the router names is a peerd node, over a store with the same content, whose
  connection to the asking node may break off.
\<close>

definition cluster :: "(string \<Rightarrow> string \<Rightarrow> (string \<times> string) list option) \<Rightarrow> (string \<Rightarrow> string result) \<Rightarrow> (string \<Rightarrow> bytes option) \<Rightarrow>
    'w Network \<Rightarrow> (string \<Rightarrow> Store) \<Rightarrow> (string \<Rightarrow> writer) \<Rightarrow> bool" where
  "cluster gm digestParse blob net stores conns \<longleftrightarrow> route_match gm \<and>
     (\<forall>pid. blob_store (stores pid) blob \<and> writer_ok (conns pid) \<and>
       (\<exists>uuid parseQuery f node h. vh_registry h = NewRegistry (stores pid) \<and>
          nw_RoundTripperFor net pid = peer_client gm uuid parseQuery f digestParse node (conns pid) h))"

lemma clusterD:
  assumes "cluster gm digestParse blob net stores conns"
  obtains uuid parseQuery f node h where "route_match gm" and "blob_store (stores pid) blob" and "writer_ok (conns pid)"
    and "vh_registry h = NewRegistry (stores pid)" and "nw_RoundTripperFor net pid = peer_client gm uuid parseQuery f digestParse node (conns pid) h"
  using assms unfolding cluster_def by metis

definition keeps_mark :: "Header \<Rightarrow> bool" where
  "keeps_mark h \<longleftrightarrow> CanonicalHeaderKey P2PHeaderKey \<notin> set (map CanonicalHeaderKey (connection_names h))"

lemma outbound_from_peer: "keeps_mark (req_Header (ctx_Request c)) \<Longrightarrow> Header_Get (hr_Header (outbound NodeName clientIP c u)) P2PHeaderKey = ''true''"
  using outbound_mark [of NodeName clientIP c u] by (simp add: keeps_mark_def)

text \<open>
  C1: a container runtime receives the content it asks for. In a cluster, a runtime that pulls a
  manifest or blob by digest from its node and is answered 200 receives the content stored under
  that digest, or a beginning of it when a transfer breaks off, and then the handler does not return
  normally: never other bytes, whichever peers the router names and whatever they answer.
\<close>

theorem runtime_receives_the_content:
  assumes "cluster gm digestParse blob (mi_n (vh_proxy h)) stores conns" and "digest_path (req_Path (ctx_Request c)) d t"
    and "req_Method (ctx_Request c) = ''GET''" and "\<not> IsRequestFromAPeer c" and "keeps_mark (req_Header (ctx_Request c))"
    and "digestParse d = Inr d" and "blob d = Some b" and "in_int64 (int (length b))" and "writer_ok conn"
    and "Handle_v2 digestParse NodeName clientIP conn h c w = ((calls, out), w')" and "rsp_status (respond calls) = 200"
  shows "prefix (rsp_body (respond calls)) b \<and> (out = Ret () \<longrightarrow> rsp_body (respond calls) = b)"
proof -
  obtain c' where c': "ctx_Request c' = ctx_Request c" "mirror_key c' = d"
    and run: "\<And>w. fst (Handle_v2 digestParse NodeName clientIP conn h c w) = fst (Handle_mirror NodeName clientIP conn (vh_proxy h) c' w)"
    using Handle_v2_pull [OF assms(2,4)] by metis
  obtain w1 where mir: "Handle_mirror NodeName clientIP conn (vh_proxy h) c' w = ((calls, out), w1)"
    using run [of w] assms(10) by (metis fst_conv prod.collapse)
  obtain events where "relayed NodeName clientIP (vh_proxy h) c' events (calls, out)"
    using mirror_relays [OF assms(9) mir] assms(11) by auto
  then obtain peer :: PeerInfo and u resp v v' where rt: "nw_RoundTripperFor (mi_n (vh_proxy h)) (pi_ID peer) (outbound NodeName clientIP c' u) v = (Inr resp, v')"
    and ok: "hs_StatusCode resp = 200" and body: "prefix (rsp_body (respond calls)) (hs_Body resp)"
      "out = Ret () \<longrightarrow> rsp_body (respond calls) = hs_Body resp \<and> hs_BodyErr resp = None"
    unfolding relayed_def fst_conv snd_conv by blast
  obtain uuid parseQuery f node g where peer: "route_match gm" "blob_store (stores (pi_ID peer)) blob" "writer_ok (conns (pi_ID peer))"
    "vh_registry g = NewRegistry (stores (pi_ID peer))"
    "nw_RoundTripperFor (mi_n (vh_proxy h)) (pi_ID peer) = peer_client gm uuid parseQuery f digestParse node (conns (pi_ID peer)) g"
    using clusterD [OF assms(1)] by metis
  have mark: "Header_Get (hr_Header (outbound NodeName clientIP c' u)) P2PHeaderKey = ''true''" using outbound_from_peer assms(5) c'(1) by metis
  have "prefix (hs_Body resp) b" and "hs_BodyErr resp = None \<Longrightarrow> hs_Body resp = b"
    using peer_reply_content [where digestParse = digestParse and d = d, OF peer(1) _ _ mark assms(6) peer(4,2) assms(7) peer(3) assms(8) rt [unfolded peer(5)] ok]
      assms(2,3) c'(1) by simp_all
  then show ?thesis using body prefix_order.trans by blast
qed

lemma handleBlob_method: "req_Method (ctx_Request c) = req_Method (ctx_Request c') \<Longrightarrow> handleBlob conn r c d = handleBlob conn r c' d"
  by (simp add: handleBlob_def)

lemma pull_succeeds:
  assumes "cluster gm digestParse blob (mi_n (vh_proxy h)) stores conns" and "digest_path (req_Path (ctx_Request c)) d ReferenceTypeBlob"
    and "req_Method (ctx_Request c) = ''GET''" and "\<not> IsRequestFromAPeer c" and "keeps_mark (req_Header (ctx_Request c))"
    and "digestParse d = Inr d" and "blob d = Some b" and "in_int64 (int (length b))" and "conn b = (b, None)"
    and "rt_Resolve (mi_router (vh_proxy h)) (mi_resolveTimeout (vh_proxy h)) d False (mi_resolveRetries (vh_proxy h)) w =
      (Inr (map Peer bad @ Peer good # rest), w1)"
    and "\<forall>p \<in> set (good # bad). \<exists>u. url_Parse (pi_HttpHost p) = Inr u"
    and "\<forall>p \<in> set bad. \<exists>e. sm_Size (stores (pi_ID p)) d = Inl e"
    and "sm_Size (stores (pi_ID good)) d = Inr n" and "sm_Write (stores (pi_ID good)) (conns (pi_ID good)) d = (out, None)"
  shows "\<exists>calls w'. Handle_v2 digestParse NodeName clientIP conn h c w = ((calls, Ret ()), w')
    \<and> rsp_status (respond calls) = 200 \<and> rsp_body (respond calls) = b"
proof -
  obtain c' where c': "ctx_Request c' = ctx_Request c" "mirror_key c' = d"
    and run: "\<And>w. fst (Handle_v2 digestParse NodeName clientIP conn h c w) = fst (Handle_mirror NodeName clientIP conn (vh_proxy h) c' w)"
    using Handle_v2_pull [OF assms(2,4)] by metis
  have t: "ReferenceTypeBlob \<noteq> ''Manifest''" by (simp add: ReferenceTypeBlob_def)
  have path: "digest_path (u_Path (hr_URL (outbound NodeName clientIP c' u))) d ReferenceTypeBlob" "hr_Method (outbound NodeName clientIP c' u) = ''GET''"
    "Header_Get (hr_Header (outbound NodeName clientIP c' u)) P2PHeaderKey = ''true''" for u
    using assms(2,3,5) c'(1) outbound_from_peer by simp_all
  let ?reply = "\<lambda>pid. http_reply ''GET'' (respond (handleBlob (conns pid) (NewRegistry (stores pid)) c d))"
  have answer: "fst (nw_RoundTripperFor (mi_n (vh_proxy h)) pid (outbound NodeName clientIP c' u) v) = Inr (?reply pid)" for pid u v
  proof -
    obtain uuid parseQuery f node g where peer: "route_match gm" "vh_registry g = NewRegistry (stores pid)"
      "nw_RoundTripperFor (mi_n (vh_proxy h)) pid = peer_client gm uuid parseQuery f digestParse node (conns pid) g"
      using clusterD [OF assms(1)] by metis
    obtain v' c'' where ans: "peer_client gm uuid parseQuery f digestParse node (conns pid) g (outbound NodeName clientIP c' u) v =
        (Inr (http_reply ''GET'' (respond (if ReferenceTypeBlob = ''Manifest'' then handleManifest (conns pid) (NewRegistry (stores pid)) c'' d
          else handleBlob (conns pid) (NewRegistry (stores pid)) c'' d))), v')" and get: "req_Method (ctx_Request c'') = ''GET''"
      by (rule peer_client_answer [where digestParse = digestParse, OF peer(1) path [of u] assms(6) peer(2)])
    have "handleBlob (conns pid) (NewRegistry (stores pid)) c'' d = handleBlob (conns pid) (NewRegistry (stores pid)) c d"
      by (rule handleBlob_method) (simp add: get assms(3))
    then show ?thesis using ans t by (simp only: peer(3) fst_conv if_False)
  qed
  have refuse: "\<exists>u. url_Parse (pi_HttpHost p) = Inr u \<and> (\<forall>w r w'. nw_RoundTripperFor (mi_n (vh_proxy h)) (pi_ID p)
      (outbound NodeName clientIP c' u) w = (Inr r, w') \<longrightarrow> hs_StatusCode r \<noteq> 200)" if p: "p \<in> set bad" for p
  proof -
    obtain e where "sm_Size (stores (pi_ID p)) d = Inl e" using assms(12) p by blast
    then have "hs_StatusCode (?reply (pi_ID p)) \<noteq> 200" by (simp add: handleBlob_def NewRegistry_def http_reply_def respond_defs Let_def)
    then show ?thesis using assms(11) p answer [of "pi_ID p"] by (metis fst_conv list.set_intros(2) sum.inject(2))
  qed
  obtain u where u: "url_Parse (pi_HttpHost good) = Inr u" using assms(11) by auto
  obtain pst: "blob_store (stores (pi_ID good)) blob" "writer_ok (conns (pi_ID good))" using clusterD [OF assms(1)] by metis
  let ?r = "respond (handleBlob (conns (pi_ID good)) (NewRegistry (stores (pi_ID good))) c d)"
  have st: "rsp_status ?r = 200" "rsp_errors ?r = []"
    using assms(3,13,14) digest_not_empty [OF assms(2)] by (simp_all add: handleBlob_def NewRegistry_def response_simps split: option.splits)
  have "promises c d b ?r"
    using blob_store.handleBlob_promises [OF pst(1) assms(7) pst(2) digest_not_empty [OF assms(2)]] st(1) by (simp add: NewRegistry_def)
  note reply = promised_reply [OF this assms(3,8)] and body = this [unfolded promises_def]
  have b: "rsp_body ?r = b" using body st(2) assms(3) by simp
  have "\<exists>calls w'. Handle_mirror NodeName clientIP conn (vh_proxy h) c' w = ((calls, Ret ()), w')
    \<and> rsp_status (respond calls) = 200 \<and> rsp_body (respond calls) = hs_Body (?reply (pi_ID good))"
  proof (rule Handle_mirror_first_good [OF _ _ refuse u answer])
    show "mirror_key c' \<noteq> []" using c'(2) digest_not_empty [OF assms(2)] by simp
    show "rt_Resolve (mi_router (vh_proxy h)) (mi_resolveTimeout (vh_proxy h)) (mirror_key c') False (mi_resolveRetries (vh_proxy h)) w =
      (Inr (map Peer bad @ Peer good # rest), w1)" using assms(10) c'(2) by simp
    show "hs_StatusCode (?reply (pi_ID good)) = 200" using st(1) by (simp add: http_reply_def Let_def)
    show "hs_BodyErr (?reply (pi_ID good)) = None" using reply(2) b by simp
    show "conn (hs_Body (?reply (pi_ID good))) = (hs_Body (?reply (pi_ID good)), None)" using assms(9) b by (simp add: http_reply_def Let_def)
  qed
  moreover have "hs_Body (?reply (pi_ID good)) = b" using b by (simp add: http_reply_def Let_def)
  ultimately show ?thesis using run [of w] by (metis fst_conv prod.collapse)
qed

text \<open>
  C4: a pull finds the content. When the peers that the router names before the first holder of a blob
  do not have it and the holder's store and the connections work, the runtime is answered 200 with the
  whole blob.
\<close>

theorem runtime_pull_succeeds:
  assumes "cluster gm digestParse blob (mi_n (vh_proxy h)) stores conns" and "digest_path (req_Path (ctx_Request c)) d ReferenceTypeBlob"
    and "req_Method (ctx_Request c) = ''GET''" and "\<not> IsRequestFromAPeer c" and "keeps_mark (req_Header (ctx_Request c))"
    and "digestParse d = Inr d" and "blob d = Some b" and "in_int64 (int (length b))" and "conn b = (b, None)"
    and "rt_Resolve (mi_router (vh_proxy h)) (mi_resolveTimeout (vh_proxy h)) d False (mi_resolveRetries (vh_proxy h)) w =
      (Inr (map Peer bad @ Peer good # rest), w1)"
    and "\<forall>p \<in> set (good # bad). \<exists>u. url_Parse (pi_HttpHost p) = Inr u"
    and "\<forall>p \<in> set bad. \<exists>e. sm_Size (stores (pi_ID p)) d = Inl e"
    and "sm_Size (stores (pi_ID good)) d = Inr n" and "sm_Write (stores (pi_ID good)) (conns (pi_ID good)) d = (out, None)"
  shows "\<exists>calls w'. Handle_v2 digestParse NodeName clientIP conn h c w = ((calls, Ret ()), w')
    \<and> rsp_status (respond calls) = 200 \<and> rsp_body (respond calls) = b"
  using assms by (rule pull_succeeds)

definition demo_peer_node :: "unit V2Handler" where
  "demo_peer_node = \<lparr>vh_proxy = demo_mirror, vh_registry = NewRegistry (NewMockContainerdStore [demo_ref]), vh_metricsRecorder = mi_metricsRecorder demo_mirror\<rparr>"

definition demo_net :: "unit Network" where
  "demo_net = \<lparr>nw_HTTPClientFor = (\<lambda>p. answering 404 []),
     nw_RoundTripperFor = (\<lambda>p. peer_client doc_match ''u'' (\<lambda>q. []) (\<lambda>c s. (([], Ret ()), s)) Inr ''peer'' (\<lambda>b. (b, None)) demo_peer_node)\<rparr>"

definition demo_puller :: "unit V2Handler" where
  "demo_puller = New_v2 (mi_metricsRecorder demo_mirror) ((mi_router demo_mirror)\<lparr>rt_Net := demo_net\<rparr>) (NewMockContainerdStore [])"

definition demo_pull :: Context where
  "demo_pull = mirror_context\<lparr>ctx_Request := \<lparr>req_Method = ''GET'', req_Path = ''/v2/r/blobs/sha256:i'', req_RawQuery = [], req_Header = []\<rparr>, ctx_Keys := []\<rparr>"

lemma demo_cluster: "cluster doc_match Inr (mock_blob [demo_ref]) (mi_n (vh_proxy demo_puller)) (\<lambda>pid. NewMockContainerdStore [demo_ref]) (\<lambda>pid b. (b, None))"
  unfolding cluster_def
proof (intro conjI allI)
  show "route_match doc_match" by (rule doc_match_ok)
  fix pid
  show "blob_store (NewMockContainerdStore [demo_ref]) (mock_blob [demo_ref])" by (rule mock_store.blob_store_axioms)
  show "writer_ok (\<lambda>b. (b, None))" by (simp add: writer_ok_def)
  have "vh_registry demo_peer_node = NewRegistry (NewMockContainerdStore [demo_ref])" by (simp add: demo_peer_node_def)
  moreover have "nw_RoundTripperFor (mi_n (vh_proxy demo_puller)) pid =
      peer_client doc_match ''u'' (\<lambda>q. []) (\<lambda>c s. (([], Ret ()), s)) Inr ''peer'' (\<lambda>b. (b, None)) demo_peer_node"
    by (simp add: demo_puller_def New_v2_def New_mirror_def demo_net_def)
  ultimately show "\<exists>uuid parseQuery f node h. vh_registry h = NewRegistry (NewMockContainerdStore [demo_ref]) \<and>
      nw_RoundTripperFor (mi_n (vh_proxy demo_puller)) pid = peer_client doc_match uuid parseQuery f Inr node (\<lambda>b. (b, None)) h" by blast
qed

lemma demo_pull_path: "digest_path (req_Path (ctx_Request demo_pull)) ''sha256:i'' ReferenceTypeBlob"
proof -
  have "name_ok ''r''" "no_newline ''sha256:i''" "occurrences ''/manifests/'' ''/v2/r/blobs/sha256:i'' = 0" "occurrences ''/blobs/'' ''/v2/r/blobs/sha256:i'' = 1"
    by code_simp+
  then show ?thesis by (auto simp: digest_path_def demo_pull_def intro!: exI [of _ "''r''"])
qed

lemma demo_pull_simps:
  "req_Method (ctx_Request demo_pull) = ''GET''" "\<not> IsRequestFromAPeer demo_pull" "keeps_mark (req_Header (ctx_Request demo_pull))"
  "mock_blob [demo_ref] ''sha256:i'' = Some test_bytes" "in_int64 (int (length test_bytes))"
  by (simp_all add: demo_pull_def IsRequestFromAPeer_def Header_Get_def keeps_mark_def connection_names_def mock_blob_def demo_ref_def test_bytes_def in_int64_def)

lemma demo_puller_Resolve:
  "rt_Resolve (mi_router (vh_proxy demo_puller)) (mi_resolveTimeout (vh_proxy demo_puller)) ''sha256:i'' False (mi_resolveRetries (vh_proxy demo_puller)) () =
    (Inr (map Peer [] @ Peer (demo_peer ''bad'') # [Peer (demo_peer ''good''), Closed]), ())"
  by (simp add: demo_puller_def New_v2_def New_mirror_def demo_mirror_def)

lemma demo_store_holds:
  "sm_Size (NewMockContainerdStore [demo_ref]) ''sha256:i'' = Inr 4" "sm_Write (NewMockContainerdStore [demo_ref]) (\<lambda>b. (b, None)) ''sha256:i'' = (Some test_bytes, None)"
  by (simp_all add: NewMockContainerdStore_def demo_ref_def)

theorem runtime_pull_succeeds_witness:
  "\<exists>calls w'. Handle_v2 Inr ''n'' None (\<lambda>b. (b, None)) demo_puller demo_pull () = ((calls, Ret ()), w')
    \<and> rsp_status (respond calls) = 200 \<and> rsp_body (respond calls) = test_bytes"
  by (rule runtime_pull_succeeds [where digestParse = Inr and conn = "\<lambda>b. (b, None)" and stores = "\<lambda>pid. NewMockContainerdStore [demo_ref]" and
        conns = "\<lambda>pid b. (b, None)", OF demo_cluster demo_pull_path demo_pull_simps(1-3) refl demo_pull_simps(4,5) refl
        demo_puller_Resolve _ _ demo_store_holds]) (simp_all add: demo_peer_url)

theorem runtime_receives_the_content_witness:
  "\<exists>calls out w'. Handle_v2 Inr ''n'' None (\<lambda>b. (b, None)) demo_puller demo_pull () = ((calls, out), w')
    \<and> prefix (rsp_body (respond calls)) test_bytes \<and> (out = Ret () \<longrightarrow> rsp_body (respond calls) = test_bytes)"
proof -
  have "\<exists>calls w'. Handle_v2 Inr ''n'' None (\<lambda>b. (b, None)) demo_puller demo_pull () = ((calls, Ret ()), w')
    \<and> rsp_status (respond calls) = 200 \<and> rsp_body (respond calls) = test_bytes"
  by (rule pull_succeeds [where digestParse = Inr and conn = "\<lambda>b. (b, None)" and stores = "\<lambda>pid. NewMockContainerdStore [demo_ref]" and
        conns = "\<lambda>pid b. (b, None)", OF demo_cluster demo_pull_path demo_pull_simps(1-3) refl demo_pull_simps(4,5) refl
        demo_puller_Resolve _ _ demo_store_holds]) (simp_all add: demo_peer_url)
  then obtain calls w' where run: "Handle_v2 Inr ''n'' None (\<lambda>b. (b, None)) demo_puller demo_pull () = ((calls, Ret ()), w')" "rsp_status (respond calls) = 200"
    by blast
  have "writer_ok (\<lambda>b. (b, None))" by (simp add: writer_ok_def)
  from runtime_receives_the_content [where digestParse = Inr, OF demo_cluster demo_pull_path demo_pull_simps(1-3) refl demo_pull_simps(4,5) this run] run(1)
  show ?thesis by blast
qed
end
