(* ===== verification/Leader_Election.thy ===== *)
theory Leader_Election
  imports Prelude
begin

section \<open>Leader election: \<open>src/pkg/k8s/election/election.go\<close>\<close>

text \<open>
  The state that \<open>leaderElection\<close> keeps is the identity of the leader and the channel \<open>initChan\<close>, which
  is closed when the first leader is known. The client library calls \<open>onNewLeader\<close> in a goroutine of
  its own for every change, so that calls may overlap, with each other and with \<open>Leader\<close>. The model
  is a step relation on the shared state and the program counters of the calls; one step is what is
  atomic in the code: the non-blocking receive of the \<open>select\<close>, the \<open>close\<close>, and the assignment
  under the mutex. Multiaddresses are parsed by an external package, the argument \<open>newMultiaddr\<close>.
\<close>

subsection \<open>State and steps\<close>

record leaderElection =
  le_id :: string
  le_initClosed :: bool

text \<open>\<open>resourcelock.UnknownLeader\<close> is the empty string.\<close>

definition UnknownLeader :: string where "UnknownLeader = []"

definition New_election :: leaderElection where
  "New_election = \<lparr>le_id = [], le_initClosed = False\<rparr>"

text \<open>
  The configuration for the client library: the lock is a lease, durations are in seconds, and the
  callback for a new leader is \<open>onNewLeader\<close>. \<open>RunOrDie\<close> starts the library's goroutine with it
  unless the lock cannot be made.
\<close>

record 'l leaderElectionConfig =
  lc_Lock :: 'l
  lc_ReleaseOnCancel :: bool
  lc_LeaseDuration :: int64
  lc_RenewDeadline :: int64
  lc_RetryPeriod :: int64

definition election_config :: "'l \<Rightarrow> 'l leaderElectionConfig" where
  "election_config rl = \<lparr>lc_Lock = rl, lc_ReleaseOnCancel = True, lc_LeaseDuration = 10, lc_RenewDeadline = 5, lc_RetryPeriod = 2\<rparr>"

definition RunOrDie :: "(string \<Rightarrow> string \<Rightarrow> string \<Rightarrow> 'l result) \<Rightarrow> string \<Rightarrow> string \<Rightarrow> string \<Rightarrow> 'l leaderElectionConfig result" where
  "RunOrDie newLock ns name identity = (case newLock ns name identity of Inl e \<Rightarrow> Inl e | Inr rl \<Rightarrow> Inr (election_config rl))"

text \<open>
  The client library refuses a configuration whose lease does not outlast the deadline for renewals,
  or whose deadline does not exceed the retry period with its jitter (a factor of 1.2).
\<close>

lemma RunOrDie_config_accepted:
  "RunOrDie newLock ns name identity = Inr cfg \<Longrightarrow>
    lc_RenewDeadline cfg < lc_LeaseDuration cfg \<and> 12 * lc_RetryPeriod cfg < 10 * lc_RenewDeadline cfg \<and> 0 < lc_RetryPeriod cfg"
  by (auto simp: RunOrDie_def election_config_def split: sum.splits)

text \<open>Where a call of \<open>onNewLeader\<close> is: before the \<open>select\<close>, before the \<open>close\<close>, before the lock, done.\<close>

datatype pc = AtSelect string | AtClose string | AtLock string | Done

definition call_onNewLeader :: "string \<Rightarrow> pc" where
  "call_onNewLeader identity = (if identity = UnknownLeader then Done else AtSelect identity)"

text \<open>One atomic step of a call; closing a closed channel panics.\<close>

fun pc_step :: "pc \<Rightarrow> leaderElection \<Rightarrow> (pc \<times> leaderElection) outcome" where
  "pc_step (AtSelect i) le = Ret (if le_initClosed le then AtLock i else AtClose i, le)"
| "pc_step (AtClose i) le = (if le_initClosed le then Panic CloseOfClosedChannel else Ret (AtLock i, le\<lparr>le_initClosed := True\<rparr>))"
| "pc_step (AtLock i) le = Ret (Done, le\<lparr>le_id := i\<rparr>)"
| "pc_step Done le = Ret (Done, le)"

text \<open>\<open>Leader\<close>: waits for the channel, then parses the identity it reads under the lock.\<close>

definition Leader :: "(string \<Rightarrow> 'a result) \<Rightarrow> leaderElection \<Rightarrow> 'a result outcome" where
  "Leader newMultiaddr le = (if \<not> le_initClosed le then Blocked else Ret (newMultiaddr (le_id le)))"

text \<open>A system: the shared state, the calls that were started (in order), and whether it has crashed.\<close>

record system =
  sys_le :: leaderElection
  sys_calls :: "pc list"
  sys_started :: "string list"
  sys_crashed :: bool

definition init_system :: system where
  "init_system = \<lparr>sys_le = New_election, sys_calls = [], sys_started = [], sys_crashed = False\<rparr>"

inductive sys_step :: "system \<Rightarrow> system \<Rightarrow> bool" where
  start: "\<not> sys_crashed s \<Longrightarrow>
    sys_step s (s\<lparr>sys_calls := sys_calls s @ [call_onNewLeader identity], sys_started := sys_started s @ [identity]\<rparr>)"
| run: "\<lbrakk>\<not> sys_crashed s; k < length (sys_calls s); pc_step (sys_calls s ! k) (sys_le s) = Ret (p, le)\<rbrakk> \<Longrightarrow>
    sys_step s (s\<lparr>sys_le := le, sys_calls := (sys_calls s)[k := p]\<rparr>)"
| crash: "\<lbrakk>\<not> sys_crashed s; k < length (sys_calls s); pc_step (sys_calls s ! k) (sys_le s) = Panic x\<rbrakk> \<Longrightarrow>
    sys_step s (s\<lparr>sys_crashed := True\<rparr>)"

inductive reachable_sys :: "system \<Rightarrow> bool" where
  init: "reachable_sys init_system"
| step: "reachable_sys s \<Longrightarrow> sys_step s s' \<Longrightarrow> reachable_sys s'"

text \<open>A call that runs on its own.\<close>

definition onNewLeader :: "string \<Rightarrow> leaderElection \<Rightarrow> leaderElection outcome" where
  "onNewLeader identity le =
     (if identity = UnknownLeader then Ret le
      else obind (pc_step (AtSelect identity) le) (\<lambda>(p, le). obind (pc_step p le) (\<lambda>(p, le).
        obind (pc_step p le) (\<lambda>(p, le). Ret le))))"

fun onNewLeaders :: "string list \<Rightarrow> leaderElection \<Rightarrow> leaderElection outcome" where
  "onNewLeaders [] le = Ret le"
| "onNewLeaders (i # is) le = obind (onNewLeader i le) (onNewLeaders is)"

subsection \<open>Calls that do not overlap\<close>

text \<open>The abstract specification: the last leader that was announced, if any.\<close>

definition spec_leader :: "string list \<Rightarrow> string option" where
  "spec_leader is = (let ls = filter (\<lambda>i. i \<noteq> UnknownLeader) is in if ls = [] then None else Some (last ls))"

definition abs_leader :: "leaderElection \<Rightarrow> string option" where
  "abs_leader le = (if le_initClosed le then Some (le_id le) else None)"

lemma onNewLeader_run:
  "onNewLeader i le = Ret (if i = UnknownLeader then le else \<lparr>le_id = i, le_initClosed = True\<rparr>)"
  by (cases le) (simp add: onNewLeader_def)

lemma spec_leader_snoc: "spec_leader (is @ [i]) = (if i = UnknownLeader then spec_leader is else Some i)"
  by (simp add: spec_leader_def Let_def)

lemma onNewLeaders_append: "onNewLeaders (xs @ ys) le = obind (onNewLeaders xs le) (onNewLeaders ys)"
  by (induction xs arbitrary: le) (simp_all add: onNewLeader_run)

lemma onNewLeaders_spec: "\<exists>le. onNewLeaders is New_election = Ret le \<and> abs_leader le = spec_leader is"
proof (induction "is" rule: rev_induct)
  case Nil
  show ?case by (simp add: New_election_def abs_leader_def spec_leader_def)
next
  case (snoc i xs)
  then show ?case by (auto simp: onNewLeaders_append onNewLeader_run spec_leader_snoc abs_leader_def)
qed

text \<open>
  C30: calls that do not overlap implement the specification: after any sequence of announcements,
  including unknown leaders, none of which panics, \<open>Leader\<close> waits if no leader was ever announced
  and otherwise parses the identity announced last.
\<close>

theorem election_refines_spec:
  "\<exists>le. onNewLeaders is New_election = Ret le \<and> abs_leader le = spec_leader is
    \<and> Leader newMultiaddr le = (case spec_leader is of None \<Rightarrow> Blocked | Some i \<Rightarrow> Ret (newMultiaddr i))"
proof -
  obtain le where "onNewLeaders is New_election = Ret le" "abs_leader le = spec_leader is" using onNewLeaders_spec by blast
  then show ?thesis by (cases "spec_leader is") (auto simp: abs_leader_def Leader_def split: if_splits)
qed

subsection \<open>Calls that overlap\<close>

inductive_cases sys_stepE: "sys_step s s'"

fun pc_ok :: "string list \<Rightarrow> bool \<Rightarrow> pc \<Rightarrow> bool" where
  "pc_ok started closed (AtSelect i) \<longleftrightarrow> i \<noteq> [] \<and> i \<in> set started"
| "pc_ok started closed (AtClose i) \<longleftrightarrow> i \<noteq> [] \<and> i \<in> set started"
| "pc_ok started closed (AtLock i) \<longleftrightarrow> i \<noteq> [] \<and> i \<in> set started \<and> closed"
| "pc_ok started closed Done \<longleftrightarrow> True"

definition sys_inv :: "system \<Rightarrow> bool" where
  "sys_inv s \<longleftrightarrow>
     (le_id (sys_le s) = [] \<or> le_id (sys_le s) \<in> set (sys_started s)) \<and>
     (le_id (sys_le s) \<noteq> [] \<longrightarrow> le_initClosed (sys_le s)) \<and>
     (\<forall>p \<in> set (sys_calls s). pc_ok (sys_started s) (le_initClosed (sys_le s)) p) \<and>
     (le_initClosed (sys_le s) \<and> le_id (sys_le s) = [] \<longrightarrow> (\<exists>i. AtLock i \<in> set (sys_calls s)))"

lemma sys_inv_init: "sys_inv init_system"
  by (simp add: sys_inv_def init_system_def New_election_def)

lemma set_list_update_other: "x \<in> set xs \<Longrightarrow> xs ! k \<noteq> x \<Longrightarrow> x \<in> set (xs[k := y])"
  by (metis in_set_conv_nth length_list_update nth_list_update_neq)

lemma pc_ok_mono: "pc_ok started closed p \<Longrightarrow> set started \<subseteq> set started' \<Longrightarrow> (closed \<longrightarrow> closed') \<Longrightarrow> pc_ok started' closed' p"
  by (cases p) auto

lemma sys_inv_step:
  assumes "sys_step s s'" and "sys_inv s"
  shows "sys_inv s'"
  using assms(1)
proof cases
  case (start identity)
  have new: "pc_ok (sys_started s @ [identity]) (le_initClosed (sys_le s)) (call_onNewLeader identity)"
    by (simp add: call_onNewLeader_def UnknownLeader_def)
  have old: "pc_ok (sys_started s @ [identity]) (le_initClosed (sys_le s)) p" if "p \<in> set (sys_calls s)" for p
    by (rule pc_ok_mono [of "sys_started s" "le_initClosed (sys_le s)"]) (use that assms(2) in \<open>auto simp: sys_inv_def\<close>)
  have "\<forall>p \<in> set (sys_calls s @ [call_onNewLeader identity]). pc_ok (sys_started s @ [identity]) (le_initClosed (sys_le s)) p"
    using new old by simp
  then show ?thesis using assms(2) start by (auto simp: sys_inv_def)
next
  case (run k p le)
  let ?q = "sys_calls s ! k"
  have q: "pc_ok (sys_started s) (le_initClosed (sys_le s)) ?q" using assms(2) run(3) by (simp add: sys_inv_def)
  have mono: "le_initClosed (sys_le s) \<longrightarrow> le_initClosed le" using run(4) by (cases ?q) (auto split: if_splits)
  have p: "pc_ok (sys_started s) (le_initClosed le) p" using run(4) q by (cases ?q) (auto split: if_splits)
  have all: "pc_ok (sys_started s) (le_initClosed le) x" if "x \<in> set ((sys_calls s)[k := p])" for x
    using that set_update_subset_insert [of "sys_calls s" k p] p assms(2) pc_ok_mono mono unfolding sys_inv_def by blast
  have lock: "\<exists>i. AtLock i \<in> set ((sys_calls s)[k := p])" if "le_initClosed le" "le_id le = []"
  proof (cases ?q)
    case (AtSelect j)
    then have "\<exists>i. AtLock i \<in> set (sys_calls s)" using assms(2) that run(4) by (auto simp: sys_inv_def)
    then show ?thesis using set_list_update_other [of _ "sys_calls s" k p] AtSelect by force
  next
    case (AtClose j)
    then have "p = AtLock j" using run(4) by (auto split: if_splits)
    then show ?thesis using set_update_memI [OF run(3)] by auto
  next
    case (AtLock j)
    then show ?thesis using run(4) that q by auto
  next
    case Done
    then have "\<exists>i. AtLock i \<in> set (sys_calls s)" using assms(2) that run(4) by (auto simp: sys_inv_def)
    then show ?thesis using set_list_update_other [of _ "sys_calls s" k p] Done by force
  qed
  have ids: "(le_id le = [] \<or> le_id le \<in> set (sys_started s)) \<and> (le_id le \<noteq> [] \<longrightarrow> le_initClosed le)"
    using run(4) q assms(2) by (cases ?q) (auto simp: sys_inv_def split: if_splits)
  show ?thesis unfolding sys_inv_def using all lock ids run(1) by auto
next
  case (crash k x)
  then show ?thesis using assms(2) by (simp add: sys_inv_def)
qed

lemma reachable_inv: "reachable_sys s \<Longrightarrow> sys_inv s"
  by (induction rule: reachable_sys.induct) (auto intro: sys_inv_init sys_inv_step)

text \<open>
  C31: the state of the election under any interleaving. The identity is empty or one of the
  announced leaders; once it is set, \<open>initChan\<close> is closed, so that \<open>Leader\<close> does not wait; and when
  the channel is closed before an identity is set, some call is still about to set it.
\<close>

theorem election_invariant:
  assumes "reachable_sys s"
  shows "(le_id (sys_le s) = [] \<or> le_id (sys_le s) \<in> set (sys_started s))
    \<and> (le_id (sys_le s) \<noteq> [] \<longrightarrow> Leader newMultiaddr (sys_le s) = Ret (newMultiaddr (le_id (sys_le s))))
    \<and> (le_initClosed (sys_le s) \<and> le_id (sys_le s) = [] \<longrightarrow> (\<exists>i. i \<noteq> [] \<and> AtLock i \<in> set (sys_calls s)))"
  using reachable_inv [OF assms] by (fastforce simp: sys_inv_def Leader_def)

lemma sys_run_from_init:
  "reachable_sys \<lparr>sys_le = New_election, sys_calls = [AtClose ''a'', AtClose ''b''], sys_started = [''a'', ''b''], sys_crashed = False\<rparr>"
proof -
  let ?s1 = "init_system\<lparr>sys_calls := sys_calls init_system @ [call_onNewLeader ''a''], sys_started := sys_started init_system @ [''a'']\<rparr>"
  let ?s2 = "?s1\<lparr>sys_calls := sys_calls ?s1 @ [call_onNewLeader ''b''], sys_started := sys_started ?s1 @ [''b'']\<rparr>"
  let ?s3 = "?s2\<lparr>sys_le := New_election, sys_calls := (sys_calls ?s2)[0 := AtClose ''a'']\<rparr>"
  let ?s4 = "?s3\<lparr>sys_le := New_election, sys_calls := (sys_calls ?s3)[1 := AtClose ''b'']\<rparr>"
  have r1: "reachable_sys ?s1" by (rule reachable_sys.step [OF reachable_sys.init sys_step.start]) (simp add: init_system_def)
  have r2: "reachable_sys ?s2" by (rule reachable_sys.step [OF r1 sys_step.start]) (simp add: init_system_def)
  have r3: "reachable_sys ?s3" by (rule reachable_sys.step [OF r2 sys_step.run])
      (simp_all add: init_system_def call_onNewLeader_def UnknownLeader_def New_election_def)
  have r4: "reachable_sys ?s4" by (rule reachable_sys.step [OF r3 sys_step.run])
      (simp_all add: init_system_def call_onNewLeader_def UnknownLeader_def New_election_def)
  show ?thesis using r4 by (simp add: init_system_def New_election_def call_onNewLeader_def UnknownLeader_def)
qed

lemma sys_after_close:
  "reachable_sys \<lparr>sys_le = \<lparr>le_id = [], le_initClosed = True\<rparr>, sys_calls = [AtLock ''a'', AtClose ''b''],
     sys_started = [''a'', ''b''], sys_crashed = False\<rparr>"
proof -
  let ?s = "\<lparr>sys_le = New_election, sys_calls = [AtClose ''a'', AtClose ''b''], sys_started = [''a'', ''b''], sys_crashed = False\<rparr>"
  have "reachable_sys (?s\<lparr>sys_le := \<lparr>le_id = [], le_initClosed = True\<rparr>, sys_calls := (sys_calls ?s)[0 := AtLock ''a'']\<rparr>)"
    by (rule reachable_sys.step [OF sys_run_from_init sys_step.run]) (simp_all add: New_election_def)
  then show ?thesis by simp
qed

theorem election_invariant_witness:
  "\<exists>i. i \<noteq> [] \<and> AtLock i \<in> set [AtLock ''a'', AtClose ''b'']"
  using election_invariant [OF sys_after_close] by simp

text \<open>
  C32: two announcements that overlap crash the process: both find \<open>initChan\<close> open in the \<open>select\<close>
  and both close it. And because the channel is closed before the identity is set, \<open>Leader\<close> may
  return with the empty identity although a leader was announced.
\<close>

theorem election_races:
  "(\<exists>s. reachable_sys s \<and> sys_crashed s \<and> length (sys_started s) = 2)
   \<and> (\<exists>s. reachable_sys s \<and> \<not> sys_crashed s \<and> Leader newMultiaddr (sys_le s) = Ret (newMultiaddr []) \<and> list_all (\<lambda>i. i \<noteq> []) (sys_started s))"
proof
  let ?s = "\<lparr>sys_le = \<lparr>le_id = [], le_initClosed = True\<rparr>, sys_calls = [AtLock ''a'', AtClose ''b''],
     sys_started = [''a'', ''b''], sys_crashed = False\<rparr>"
  have "reachable_sys (?s\<lparr>sys_crashed := True\<rparr>)"
    by (rule reachable_sys.step [OF sys_after_close sys_step.crash [of _ 1 CloseOfClosedChannel]]) simp_all
  then show "\<exists>s. reachable_sys s \<and> sys_crashed s \<and> length (sys_started s) = 2" by (intro exI conjI) auto
  show "\<exists>s. reachable_sys s \<and> \<not> sys_crashed s \<and> Leader newMultiaddr (sys_le s) = Ret (newMultiaddr []) \<and> list_all (\<lambda>i. i \<noteq> []) (sys_started s)"
    by (rule exI [of _ ?s]) (simp add: sys_after_close Leader_def)
qed

end
