(* ===== verification/Containerd_Hosts.thy ===== *)
theory Containerd_Hosts
  imports Go_Url "HOL-Library.AList" "HOL-Library.Sublist"
begin

section \<open>Containerd host configuration: \<open>src/pkg/containerd/hosts.go\<close>\<close>

text \<open>
  Model of the configuration that makes containerd use peerd as a mirror: the existing configuration
  is moved into \<open>_backup\<close> (once), the directory is emptied, and a \<open>hosts.toml\<close> is written per registry.
  The file system (\<open>afero.Fs\<close> and its helpers) and the encoding of TOML are external packages: the
  methods are a record over a world, the encoding is the argument \<open>marshal\<close>.
\<close>

subsection \<open>Model\<close>

record 'w Fs =
  af_DirExists :: "string \<Rightarrow> 'w \<Rightarrow> bool result \<times> 'w"
  af_MkdirAll :: "string \<Rightarrow> 'w \<Rightarrow> go_error option \<times> 'w"
  af_Stat :: "string \<Rightarrow> 'w \<Rightarrow> go_error option \<times> 'w"
  af_ReadDir :: "string \<Rightarrow> 'w \<Rightarrow> string list result \<times> 'w"
  af_Rename :: "string \<Rightarrow> string \<Rightarrow> 'w \<Rightarrow> go_error option \<times> 'w"
  af_RemoveAll :: "string \<Rightarrow> 'w \<Rightarrow> go_error option \<times> 'w"
  af_WriteFile :: "string \<Rightarrow> bytes \<Rightarrow> 'w \<Rightarrow> go_error option \<times> 'w"

record hostConfig =
  hc_Capabilities :: "string list"
  hc_SkipVerify :: bool

record hostFile =
  hf_Server :: string
  hf_HostConfigs :: "(string \<times> hostConfig) list"

definition backupDir :: string where "backupDir = ''_backup''"

definition validate_url :: "URL \<Rightarrow> go_error list" where
  "validate_url u =
     (if u_Scheme u \<noteq> ''http'' \<and> u_Scheme u \<noteq> ''https'' then [Errorf ''invalid registry url, scheme must be http or https''] else [])
     @ (if u_Path u \<noteq> [] then [Errorf ''invalid registry url, path has to be empty''] else [])
     @ (if \<not> Query_empty u then [Errorf ''invalid registry url, query has to be empty''] else [])
     @ (if u_User u \<noteq> None then [Errorf ''invalid registry url, user has to be empty''] else [])"

definition validate :: "URL list \<Rightarrow> go_error option" where
  "validate urls = (let errs = concat (map validate_url urls) in if errs = [] then None else Some (JoinedErrors errs))"

text \<open>The steps may fail; the first error is returned, with the world as it is then.\<close>

definition and_then :: "go_error option \<times> 'w \<Rightarrow> ('w \<Rightarrow> go_error option \<times> 'w) \<Rightarrow> go_error option \<times> 'w" where
  "and_then r f = (case r of (Some e, w) \<Rightarrow> (Some e, w) | (None, w) \<Rightarrow> f w)"

fun backup_files :: "'w Fs \<Rightarrow> string \<Rightarrow> string list \<Rightarrow> 'w \<Rightarrow> go_error option \<times> 'w" where
  "backup_files fs configPath [] w = (None, w)"
| "backup_files fs configPath (name # names) w =
     and_then (af_Rename fs (path_Join [configPath, name]) (path_Join [path_Join [configPath, backupDir], name]) w)
       (backup_files fs configPath names)"

definition backup :: "'w Fs \<Rightarrow> string \<Rightarrow> 'w \<Rightarrow> go_error option \<times> 'w" where
  "backup fs configPath w =
     (case af_Stat fs (path_Join [configPath, backupDir]) w of
        (err, w1) \<Rightarrow>
          if err = Some ErrNotExist then
            (case af_ReadDir fs configPath w1 of
               (Inl e, w2) \<Rightarrow> (Some e, w2)
             | (Inr files, w2) \<Rightarrow>
                 if length files > 0 then and_then (af_MkdirAll fs (path_Join [configPath, backupDir]) w2) (backup_files fs configPath files)
                 else (None, w2))
          else (None, w1))"

fun remove_files :: "'w Fs \<Rightarrow> string \<Rightarrow> string list \<Rightarrow> 'w \<Rightarrow> go_error option \<times> 'w" where
  "remove_files fs configPath [] w = (None, w)"
| "remove_files fs configPath (name # names) w =
     (if name = backupDir then remove_files fs configPath names w
      else and_then (af_RemoveAll fs (path_Join [configPath, name]) w) (remove_files fs configPath names))"

definition clean :: "'w Fs \<Rightarrow> string \<Rightarrow> 'w \<Rightarrow> go_error option \<times> 'w" where
  "clean fs configPath w =
     (case af_ReadDir fs configPath w of (Inl e, w1) \<Rightarrow> (Some e, w1) | (Inr files, w1) \<Rightarrow> remove_files fs configPath files w1)"

definition host_file :: "URL list \<Rightarrow> bool \<Rightarrow> URL \<Rightarrow> hostFile" where
  "host_file mirrorURLs resolveTags registryURL =
     \<lparr>hf_Server = (if url_String registryURL = ''https://docker.io'' then ''https://registry-1.docker.io'' else url_String registryURL),
      hf_HostConfigs = fold (\<lambda>u m. AList.update (url_String u)
        \<lparr>hc_Capabilities = [''pull''] @ (if resolveTags then [''resolve''] else []), hc_SkipVerify = True\<rparr> m) mirrorURLs []\<rparr>"

text \<open>\<open>path.Dir\<close> of a joined path: what precedes its last slash.\<close>

definition path_Dir :: "string \<Rightarrow> string" where
  "path_Dir p = path_Clean (case LastIndexByte p CHR ''/'' of None \<Rightarrow> [] | Some i \<Rightarrow> take (Suc i) p)"

fun write_hosts :: "(hostFile \<Rightarrow> bytes result) \<Rightarrow> 'w Fs \<Rightarrow> string \<Rightarrow> URL list \<Rightarrow> bool \<Rightarrow> URL list \<Rightarrow> 'w \<Rightarrow> go_error option \<times> 'w" where
  "write_hosts marshal fs configPath mirrorURLs resolveTags [] w = (None, w)"
| "write_hosts marshal fs configPath mirrorURLs resolveTags (r # rs) w =
     (case marshal (host_file mirrorURLs resolveTags r) of
        Inl e \<Rightarrow> (Some e, w)
      | Inr b \<Rightarrow>
          (let fp = path_Join [configPath, u_Host r, ''hosts.toml''] in
           and_then (af_MkdirAll fs (path_Dir fp) w) (\<lambda>w. and_then (af_WriteFile fs fp b w)
             (write_hosts marshal fs configPath mirrorURLs resolveTags rs))))"

definition ensure_dir :: "'w Fs \<Rightarrow> string \<Rightarrow> 'w \<Rightarrow> go_error option \<times> 'w" where
  "ensure_dir fs configPath w =
     (case af_DirExists fs configPath w of
        (Inl e, w1) \<Rightarrow> (Some e, w1)
      | (Inr ok, w1) \<Rightarrow> if \<not> ok then af_MkdirAll fs configPath w1 else (None, w1))"

definition AddHostsConfiguration :: "(hostFile \<Rightarrow> bytes result) \<Rightarrow> 'w Fs \<Rightarrow> string \<Rightarrow> URL list \<Rightarrow> URL list \<Rightarrow> bool \<Rightarrow> 'w \<Rightarrow>
    go_error option \<times> 'w" where
  "AddHostsConfiguration marshal fs configPath registryURLs mirrorURLs resolveTags w =
     (case validate registryURLs of
        Some e \<Rightarrow> (Some e, w)
      | None \<Rightarrow>
          and_then (ensure_dir fs configPath w) (\<lambda>w2.
            and_then (backup fs configPath w2) (\<lambda>w3.
              and_then (clean fs configPath w3)
                (write_hosts marshal fs configPath mirrorURLs resolveTags registryURLs))))"

subsection \<open>The contract of the file system\<close>

text \<open>
  Absolute paths as lists of segments, and the files of a world. What the documentation of
  \<open>afero.Fs\<close> promises of calls that succeed: queries and the creation of directories change no
  file, a rename moves a subtree, \<open>RemoveAll\<close> removes one, a write sets one file; a path that does
  not exist has no files below it and is not listed, and a listing names every entry once.
\<close>

definition dir_path :: "string list \<Rightarrow> string" where
  "dir_path segs = CHR ''/'' # Join segs ''/''"

locale config_fs =
  fixes fs :: "'w Fs" and files :: "'w \<Rightarrow> string list \<Rightarrow> bytes option"
  assumes dirExists_frame: "af_DirExists fs a w = (x, w') \<Longrightarrow> files w' = files w"
    and mkdir_frame: "af_MkdirAll fs a w = (err, w') \<Longrightarrow> files w' = files w"
    and stat_frame: "af_Stat fs a w = (err, w') \<Longrightarrow> files w' = files w"
    and readDir_frame: "af_ReadDir fs a w = (r, w') \<Longrightarrow> files w' = files w"
    and not_exist: "list_all plain_seg p \<Longrightarrow> af_Stat fs (dir_path p) w = (Some ErrNotExist, w') \<Longrightarrow> prefix p s \<Longrightarrow> files w s = None"
    and not_listed: "list_all plain_seg (p @ [n]) \<Longrightarrow> af_Stat fs (dir_path (p @ [n])) w = (Some ErrNotExist, w') \<Longrightarrow>
      af_ReadDir fs (dir_path p) w' = (Inr names, w'') \<Longrightarrow> n \<notin> set names"
    and listing: "list_all plain_seg p \<Longrightarrow> af_ReadDir fs (dir_path p) w = (Inr names, w') \<Longrightarrow>
      distinct names \<and> list_all plain_seg names \<and> (\<forall>n s. files w (p @ n # s) \<noteq> None \<longrightarrow> n \<in> set names)"
    and rename_moves: "list_all plain_seg (p @ q) \<Longrightarrow> af_Rename fs (dir_path p) (dir_path q) w = (None, w') \<Longrightarrow> \<not> prefix p q \<Longrightarrow>
      files w' s = (if prefix q s then files w (p @ drop (length q) s) else if prefix p s then None else files w s)"
    and removeAll_removes: "list_all plain_seg p \<Longrightarrow> af_RemoveAll fs (dir_path p) w = (None, w') \<Longrightarrow> files w' s = (if prefix p s then None else files w s)"
    and write_sets: "list_all plain_seg p \<Longrightarrow> af_WriteFile fs (dir_path p) b w = (None, w') \<Longrightarrow> files w' = (files w)(p \<mapsto> b)"

lemma path_Join_dir:
  assumes "list_all plain_seg (segs @ ns)" and "segs \<noteq> []"
  shows "path_Join (dir_path segs # ns) = dir_path (segs @ ns)"
proof -
  have J: "Join (xs @ ys) sep = (if ys = [] then Join xs sep else Join xs sep @ sep @ Join ys sep)" if "xs \<noteq> []" for xs ys sep
    using that by (induction xs sep rule: Join.induct) (auto simp: neq_Nil_conv)
  have eq: "Join (dir_path segs # ns) ''/'' = dir_path (segs @ ns)"
    using J [OF assms(2)] by (cases ns) (simp_all add: dir_path_def)
  have "Split (dir_path (segs @ ns)) CHR ''/'' = [] # segs @ ns"
    using assms Split_Join_id [of "segs @ ns" "CHR ''/''"] by (auto simp: dir_path_def list_all_iff plain_seg_def)
  then have "path_Clean (dir_path (segs @ ns)) = dir_path (segs @ ns)"
    using clean_segs_plain [OF assms(1)] by (simp add: path_Clean_def dir_path_def Let_def)
  then show ?thesis using eq by (simp add: path_Join_def dir_path_def)
qed

lemma plain_backupDir [simp]: "plain_seg backupDir"
  by (simp add: plain_seg_def backupDir_def)

lemma and_then_None: "and_then r f = (None, w') \<longleftrightarrow> (\<exists>w. r = (None, w) \<and> f w = (None, w'))"
  by (auto simp: and_then_def split: prod.splits option.splits)

subsection \<open>The phases\<close>

context config_fs
begin

lemma backup_files_ok:
  assumes "list_all plain_seg p" and "p \<noteq> []"
    and "backup_files fs (dir_path p) names w = (None, w')" and "distinct names" and "list_all plain_seg names" and "backupDir \<notin> set names"
  shows "files w' (p @ backupDir # n # r) = (if n \<in> set names then files w (p @ n # r) else files w (p @ backupDir # n # r))"
  using assms(3-6)
proof (induction names arbitrary: w)
  case (Cons a names)
  have paths: "path_Join [dir_path p, a] = dir_path (p @ [a])"
    "path_Join [path_Join [dir_path p, backupDir], a] = dir_path (p @ [backupDir, a])"
    using path_Join_dir [of p "[a]"] path_Join_dir [of p "[backupDir]"] path_Join_dir [of "p @ [backupDir]" "[a]"] assms(1,2) Cons.prems(3) by auto
  obtain w1 where ren: "af_Rename fs (dir_path (p @ [a])) (dir_path (p @ [backupDir, a])) w = (None, w1)"
    and rest: "backup_files fs (dir_path p) names w1 = (None, w')"
    using Cons.prems(1) unfolding backup_files.simps paths and_then_None by blast
  have "\<not> prefix (p @ [a]) (p @ [backupDir, a])" using Cons.prems(4) by auto
  note w1 = rename_moves [OF _ ren this]
  have pl: "list_all plain_seg ((p @ [a]) @ p @ [backupDir, a])" using assms(1) Cons.prems(3) by simp
  have IH: "files w' (p @ backupDir # n # r) = (if n \<in> set names then files w1 (p @ n # r) else files w1 (p @ backupDir # n # r))"
    using Cons.IH [OF rest] Cons.prems by simp
  show ?case
  proof (cases "n = a")
    case True
    then show ?thesis using IH Cons.prems(2) w1 [of "p @ backupDir # a # r"] pl by simp
  next
    case False
    have "files w1 (p @ n # r) = files w (p @ n # r)" if "n \<in> set names"
      using w1 [of "p @ n # r"] pl False that Cons.prems(4) by auto
    moreover have "files w1 (p @ backupDir # n # r) = files w (p @ backupDir # n # r)"
      using w1 [of "p @ backupDir # n # r"] pl False Cons.prems(4) by auto
    ultimately show ?thesis using IH False by simp
  qed
qed simp

lemma remove_files_ok:
  assumes "list_all plain_seg p" and "p \<noteq> []"
    and "remove_files fs (dir_path p) names w = (None, w')" and "list_all plain_seg names"
  shows "files w' (p @ n # r) = (if n \<in> set names \<and> n \<noteq> backupDir then None else files w (p @ n # r))"
  using assms(3,4)
proof (induction names arbitrary: w)
  case (Cons a names)
  show ?case
  proof (cases "a = backupDir")
    case True
    then show ?thesis using Cons by auto
  next
    case False
    have path: "path_Join [dir_path p, a] = dir_path (p @ [a])" using path_Join_dir [of p "[a]"] assms(1,2) Cons.prems(2) by simp
    obtain w1 where rem: "af_RemoveAll fs (dir_path (p @ [a])) w = (None, w1)"
      and rest: "remove_files fs (dir_path p) names w1 = (None, w')"
      using Cons.prems(1) False unfolding remove_files.simps path by (auto simp: and_then_None)
    show ?thesis using Cons.IH [OF rest] Cons.prems(2) removeAll_removes [OF _ rem, of "p @ n # r"] assms(1) False by auto
  qed
qed simp

lemma write_hosts_ok:
  assumes "list_all plain_seg p" and "p \<noteq> []"
    and "write_hosts marshal fs (dir_path p) mirrors tags regs w = (None, w')"
    and "distinct (map u_Host regs)" and "\<And>r. r \<in> set regs \<Longrightarrow> plain_seg (u_Host r)"
  shows "(\<forall>r \<in> set regs. \<exists>b. marshal (host_file mirrors tags r) = Inr b \<and> files w' (p @ [u_Host r, ''hosts.toml'']) = Some b)
    \<and> (\<forall>s. (\<forall>r \<in> set regs. s \<noteq> p @ [u_Host r, ''hosts.toml'']) \<longrightarrow> files w' s = files w s)"
  using assms(3-5)
proof (induction regs arbitrary: w)
  case (Cons r regs)
  have path: "path_Join [dir_path p, u_Host r, ''hosts.toml''] = dir_path (p @ [u_Host r, ''hosts.toml''])"
    using path_Join_dir [of p "[u_Host r, ''hosts.toml'']"] assms(1,2) Cons.prems(3) [of r] by (simp add: plain_seg_def)
  obtain b w1 w2 where b: "marshal (host_file mirrors tags r) = Inr b" and mk: "fst (af_MkdirAll fs (path_Dir (dir_path (p @ [u_Host r, ''hosts.toml'']))) w) = None"
    "w1 = snd (af_MkdirAll fs (path_Dir (dir_path (p @ [u_Host r, ''hosts.toml'']))) w)"
    and wr: "af_WriteFile fs (dir_path (p @ [u_Host r, ''hosts.toml''])) b w1 = (None, w2)"
    and rest: "write_hosts marshal fs (dir_path p) mirrors tags regs w2 = (None, w')"
    using Cons.prems(1) unfolding write_hosts.simps path Let_def by (auto simp: and_then_None split: sum.splits)
  have w1: "files w1 = files w" using mkdir_frame mk(2) by (metis prod.collapse)
  have "list_all plain_seg (p @ [u_Host r, ''hosts.toml''])" using assms(1) Cons.prems(3) [of r] by (simp add: plain_seg_def)
  note w2 = write_sets [OF this wr]
  have IH: "(\<forall>r \<in> set regs. \<exists>b. marshal (host_file mirrors tags r) = Inr b \<and> files w' (p @ [u_Host r, ''hosts.toml'']) = Some b)
      \<and> (\<forall>s. (\<forall>r \<in> set regs. s \<noteq> p @ [u_Host r, ''hosts.toml'']) \<longrightarrow> files w' s = files w2 s)"
    using Cons.IH [OF rest] Cons.prems by simp
  have "files w' (p @ [u_Host r, ''hosts.toml'']) = files w2 (p @ [u_Host r, ''hosts.toml''])"
  proof -
    have "\<forall>r' \<in> set regs. p @ [u_Host r, ''hosts.toml''] \<noteq> p @ [u_Host r', ''hosts.toml'']" using Cons.prems(2) by force
    then show ?thesis using IH by blast
  qed
  then show ?case using IH b w1 w2 by auto
qed simp

lemma backup_ok:
  assumes "list_all plain_seg p" and "p \<noteq> []" and "backup fs (dir_path p) w = (None, w')"
  shows "if fst (af_Stat fs (dir_path (p @ [backupDir])) w) = Some ErrNotExist
    then \<forall>n s. files w' (p @ backupDir # n # s) = files w (p @ n # s)
    else files w' = files w"
proof -
  have path: "path_Join [dir_path p, backupDir] = dir_path (p @ [backupDir])" using path_Join_dir [of p "[backupDir]"] assms(1,2) by simp
  obtain err w1 where st: "af_Stat fs (dir_path (p @ [backupDir])) w = (err, w1)" by fastforce
  have w1: "files w1 = files w" by (rule stat_frame [OF st])
  show ?thesis
  proof (cases "err = Some ErrNotExist")
    case False
    then show ?thesis using assms(3) st w1 by (simp add: backup_def path)
  next
    case True
    have pb: "list_all plain_seg (p @ [backupDir])" using assms(1) by simp
    obtain names w2 where rd: "af_ReadDir fs (dir_path p) w1 = (Inr names, w2)"
      and rest: "if names \<noteq> [] then and_then (af_MkdirAll fs (dir_path (p @ [backupDir])) w2) (backup_files fs (dir_path p) names) = (None, w')
        else w' = w2"
      using assms(3) st True by (auto simp: backup_def path split: prod.splits sum.splits if_splits)
    have none: "files w (p @ backupDir # s) = None" for s using not_exist [OF pb st [unfolded True], of "p @ backupDir # s"] by simp
    have nb: "backupDir \<notin> set names" by (rule not_listed [OF pb st [unfolded True] rd])
    note rdo = listing [OF assms(1) rd]
    have w2: "files w2 = files w" using readDir_frame [OF rd] w1 by simp
    have unlisted: "n \<notin> set names \<Longrightarrow> files w (p @ n # s) = None" for n s using rdo w1 by metis
    have "files w' (p @ backupDir # n # s) = files w (p @ n # s)" for n s
    proof (cases "names = []")
      case True
      then show ?thesis using rest w2 none unlisted [of n s] by simp
    next
      case False
      then obtain w3 where mk: "af_MkdirAll fs (dir_path (p @ [backupDir])) w2 = (None, w3)" and bf: "backup_files fs (dir_path p) names w3 = (None, w')"
        using rest by (auto simp: and_then_None)
      show ?thesis
        using backup_files_ok [OF assms(1,2) bf, of n s] rdo nb mkdir_frame [OF mk] w2 none unlisted [of n s] by auto
    qed
    then show ?thesis using st True by simp
  qed
qed

lemma clean_ok:
  assumes "list_all plain_seg p" and "p \<noteq> []" and "clean fs (dir_path p) w = (None, w')"
  shows "files w' (p @ n # s) = (if n = backupDir then files w (p @ n # s) else None)"
proof -
  obtain names w1 where rd: "af_ReadDir fs (dir_path p) w = (Inr names, w1)" and rm: "remove_files fs (dir_path p) names w1 = (None, w')"
    using assms(3) by (auto simp: clean_def split: prod.splits sum.splits)
  note rdo = listing [OF assms(1) rd]
  have "n \<notin> set names \<Longrightarrow> files w (p @ n # s) = None" using rdo by metis
  then show ?thesis using remove_files_ok [OF assms(1,2) rm, of n s] rdo readDir_frame [OF rd] by auto
qed

lemma ensure_dir_ok:
  assumes "ensure_dir fs a w = (None, w')"
  shows "files w' = files w"
proof -
  obtain ok w1 where d: "af_DirExists fs a w = (Inr ok, w1)" and m: "\<not> ok \<and> af_MkdirAll fs a w1 = (None, w') \<or> ok \<and> w' = w1"
    using assms(1) by (auto simp: ensure_dir_def split: prod.splits sum.splits if_splits)
  show ?thesis using m dirExists_frame [OF d] mkdir_frame [of a w1 None w'] by auto
qed

lemma configuration_ok:
  assumes "list_all plain_seg p" and "p \<noteq> []"
    and "distinct (map u_Host regs)" and "\<forall>r \<in> set regs. plain_seg (u_Host r) \<and> u_Host r \<noteq> backupDir"
    and "AddHostsConfiguration marshal fs (dir_path p) regs mirrors tags w = (None, w')"
  shows "(\<forall>r \<in> set regs. \<exists>b. marshal (host_file mirrors tags r) = Inr b \<and> files w' (p @ [u_Host r, ''hosts.toml'']) = Some b)
    \<and> (\<forall>n s. n \<noteq> backupDir \<longrightarrow> (\<forall>r \<in> set regs. n # s \<noteq> [u_Host r, ''hosts.toml'']) \<longrightarrow> files w' (p @ n # s) = None)
    \<and> (\<exists>w2. ensure_dir fs (dir_path p) w = (None, w2) \<and>
         (if fst (af_Stat fs (dir_path (p @ [backupDir])) w2) = Some ErrNotExist
          then \<forall>n s. files w' (p @ backupDir # n # s) = files w (p @ n # s)
          else \<forall>s. files w' (p @ backupDir # s) = files w (p @ backupDir # s)))"
proof -
  obtain w2 w3 w4 where ens: "ensure_dir fs (dir_path p) w = (None, w2)" and bak: "backup fs (dir_path p) w2 = (None, w3)"
    and cl: "clean fs (dir_path p) w3 = (None, w4)" and wr: "write_hosts marshal fs (dir_path p) mirrors tags regs w4 = (None, w')"
    using assms(5) by (auto simp: AddHostsConfiguration_def and_then_None split: option.splits)
  note ens_ok = ensure_dir_ok [OF ens]
  note cln = clean_ok [OF assms(1,2) cl]
  have W: "(\<forall>r \<in> set regs. \<exists>b. marshal (host_file mirrors tags r) = Inr b \<and> files w' (p @ [u_Host r, ''hosts.toml'']) = Some b)
    \<and> (\<forall>s. (\<forall>r \<in> set regs. s \<noteq> p @ [u_Host r, ''hosts.toml'']) \<longrightarrow> files w' s = files w4 s)"
    by (rule write_hosts_ok [OF assms(1,2) wr assms(3)]) (use assms(4) in blast)
  have keep: "files w' (p @ backupDir # s) = files w3 (p @ backupDir # s)" for s
    using W [THEN conjunct2, THEN spec, of "p @ backupDir # s"] cln [of backupDir s] assms(4) by force
  have rest: "files w' (p @ n # s) = None" if "n \<noteq> backupDir" "\<forall>r \<in> set regs. n # s \<noteq> [u_Host r, ''hosts.toml'']" for n s
    using W [THEN conjunct2, THEN spec, of "p @ n # s"] cln [of n s] that by force
  have "(if fst (af_Stat fs (dir_path (p @ [backupDir])) w2) = Some ErrNotExist
      then \<forall>n s. files w' (p @ backupDir # n # s) = files w (p @ n # s)
      else \<forall>s. files w' (p @ backupDir # s) = files w (p @ backupDir # s))"
    using backup_ok [OF assms(1,2) bak] ens_ok keep by (simp split: if_splits)
  then show ?thesis using W rest ens by blast
qed

end

text \<open>
  C33: When the configuration succeeds, every registry has a \<open>hosts.toml\<close> with its server and the
  mirrors, and nothing else is left in the directory but the backup. If there was no \<open>_backup\<close> at the
  time it was looked for, the backup is exactly the configuration found before; otherwise the backup
  is kept as it was.
\<close>

theorem AddHostsConfiguration_writes_hosts_and_keeps_backup:
  assumes "config_fs fs files" and "list_all plain_seg p" and "p \<noteq> []"
    and "distinct (map u_Host regs)" and "\<forall>r \<in> set regs. plain_seg (u_Host r) \<and> u_Host r \<noteq> backupDir"
    and "AddHostsConfiguration marshal fs (dir_path p) regs mirrors tags w = (None, w')"
  shows "(\<forall>r \<in> set regs. \<exists>b. marshal (host_file mirrors tags r) = Inr b \<and> files w' (p @ [u_Host r, ''hosts.toml'']) = Some b)
    \<and> (\<forall>n s. n \<noteq> backupDir \<longrightarrow> (\<forall>r \<in> set regs. n # s \<noteq> [u_Host r, ''hosts.toml'']) \<longrightarrow> files w' (p @ n # s) = None)
    \<and> (\<exists>w2. ensure_dir fs (dir_path p) w = (None, w2) \<and>
         (if fst (af_Stat fs (dir_path (p @ [backupDir])) w2) = Some ErrNotExist
          then \<forall>n s. files w' (p @ backupDir # n # s) = files w (p @ n # s)
          else \<forall>s. files w' (p @ backupDir # s) = files w (p @ backupDir # s)))"
  using assms by (rule config_fs.configuration_ok)

subsection \<open>An interrupted backup\<close>

text \<open>A file system on which a rename that fails changes nothing, as \<open>rename(2)\<close> promises.\<close>

locale atomic_fs = config_fs +
  assumes rename_fails: "af_Rename fs a b w = (Some e, w') \<Longrightarrow> files w' = files w"
begin

text \<open>When the moving of the entries fails, each of them has been moved or is untouched.\<close>

lemma backup_files_fails:
  assumes "list_all plain_seg p" and "p \<noteq> []"
    and "backup_files fs (dir_path p) names w = (Some e, w')" and "distinct names" and "list_all plain_seg names" and "backupDir \<notin> set names"
    and "n \<noteq> backupDir"
  shows "files w' (p @ n # r) = files w (p @ n # r) \<and> files w' (p @ backupDir # n # r) = files w (p @ backupDir # n # r)
    \<or> n \<in> set names \<and> files w' (p @ n # r) = None \<and> files w' (p @ backupDir # n # r) = files w (p @ n # r)"
  using assms(3-6)
proof (induction names arbitrary: w)
  case (Cons a names)
  have paths: "path_Join [dir_path p, a] = dir_path (p @ [a])"
    "path_Join [path_Join [dir_path p, backupDir], a] = dir_path (p @ [backupDir, a])"
    using path_Join_dir [of p "[a]"] path_Join_dir [of p "[backupDir]"] path_Join_dir [of "p @ [backupDir]" "[a]"] assms(1,2) Cons.prems(3) by auto
  obtain err w1 where ren: "af_Rename fs (dir_path (p @ [a])) (dir_path (p @ [backupDir, a])) w = (err, w1)" by fastforce
  show ?case
  proof (cases err)
    case (Some x)
    then have "w' = w1" using Cons.prems(1) ren by (simp add: paths and_then_def)
    then show ?thesis using rename_fails [OF ren [unfolded Some]] by simp
  next
    case None
    have rest: "backup_files fs (dir_path p) names w1 = (Some e, w')" using Cons.prems(1) ren None by (simp add: paths and_then_def)
    have np: "\<not> prefix (p @ [a]) (p @ [backupDir, a])" using Cons.prems(4) by auto
    have pl: "list_all plain_seg ((p @ [a]) @ p @ [backupDir, a])" using assms(1) Cons.prems(3) by simp
    note w1 = rename_moves [OF pl ren [unfolded None] np]
    have IH: "files w' (p @ n # r) = files w1 (p @ n # r) \<and> files w' (p @ backupDir # n # r) = files w1 (p @ backupDir # n # r)
        \<or> n \<in> set names \<and> files w' (p @ n # r) = None \<and> files w' (p @ backupDir # n # r) = files w1 (p @ n # r)"
      using Cons.IH [OF rest] Cons.prems by simp
    show ?thesis
    proof (cases "n = a")
      case True
      have out: "files w1 (p @ a # r) = None" "files w1 (p @ backupDir # a # r) = files w (p @ a # r)"
        using w1 [of "p @ a # r"] w1 [of "p @ backupDir # a # r"] assms(7) True by auto
      then show ?thesis using IH True Cons.prems(2) by auto
    next
      case False
      have "files w1 (p @ n # r) = files w (p @ n # r)" "files w1 (p @ backupDir # n # r) = files w (p @ backupDir # n # r)"
        using w1 [of "p @ n # r"] w1 [of "p @ backupDir # n # r"] False assms(7) Cons.prems(4) by auto
      then show ?thesis using IH by auto
    qed
  qed
qed simp

lemma backup_fails:
  assumes "list_all plain_seg p" and "p \<noteq> []" and "fst (af_Stat fs (dir_path (p @ [backupDir])) w) = Some ErrNotExist"
    and "backup fs (dir_path p) w = (Some e, w')" and "n \<noteq> backupDir" and "files w' (p @ n # s) = Some b"
  shows "files w (p @ n # s) = Some b" and "files w' (p @ backupDir # n # s) = None"
proof -
  have path: "path_Join [dir_path p, backupDir] = dir_path (p @ [backupDir])" using path_Join_dir [of p "[backupDir]"] assms(1,2) by simp
  have pb: "list_all plain_seg (p @ [backupDir])" using assms(1) by simp
  obtain w1 where st: "af_Stat fs (dir_path (p @ [backupDir])) w = (Some ErrNotExist, w1)" using assms(3) by (metis prod.collapse)
  have w1: "files w1 = files w" by (rule stat_frame [OF st])
  have none: "files w (p @ backupDir # r) = None" for r using not_exist [OF pb st, of "p @ backupDir # r"] by simp
  obtain rd w2 where rd: "af_ReadDir fs (dir_path p) w1 = (rd, w2)" by fastforce
  have w2: "files w2 = files w" using readDir_frame [OF rd] w1 by simp
  have unchanged: "files w (p @ n # s) = Some b \<and> files w' (p @ backupDir # n # s) = None" if "files w' = files w"
    using that assms(6) none by simp
  have "files w (p @ n # s) = Some b \<and> files w' (p @ backupDir # n # s) = None"
  proof (cases rd)
    case (Inl x)
    then show ?thesis using assms(4) st rd w2 by (intro unchanged) (simp add: backup_def path)
  next
    case (Inr names)
    note rdo = listing [OF assms(1) rd [unfolded Inr]]
    have nb: "backupDir \<notin> set names" by (rule not_listed [OF pb st rd [unfolded Inr]])
    obtain err w3 where mk: "af_MkdirAll fs (dir_path (p @ [backupDir])) w2 = (err, w3)" by fastforce
    have w3: "files w3 = files w" using mkdir_frame [OF mk] w2 by simp
    have run: "(case err of None \<Rightarrow> backup_files fs (dir_path p) names w3 | Some x \<Rightarrow> (Some x, w3)) = (Some e, w')"
      using assms(4) st rd Inr mk by (auto simp: backup_def path and_then_def split: if_splits option.splits)
    show ?thesis
    proof (cases err)
      case None
      then have "backup_files fs (dir_path p) names w3 = (Some e, w')" using run by simp
      from backup_files_fails [OF assms(1,2) this _ _ nb assms(5), of s] rdo w3 none assms(6) show ?thesis by auto
    next
      case (Some x)
      then show ?thesis using run w3 by (intro unchanged) simp
    qed
  qed
  then show "files w (p @ n # s) = Some b" and "files w' (p @ backupDir # n # s) = None" by simp_all
qed

end

text \<open>
  C34: an interrupted backup loses configuration. When the first start fails while it moves the old
  configuration into \<open>_backup\<close>, after something has been moved, its error is returned, and a file that
  has not been moved is still in its place; the next start that succeeds finds \<open>_backup\<close>, takes it for
  a complete backup and clears the directory, so that afterwards the file is neither in the backup nor
  in its place (where there is at most a new \<open>hosts.toml\<close> of peerd). This holds on every file system
  that keeps its contract.
\<close>

theorem AddHostsConfiguration_interrupted_backup_loses_files:
  assumes "atomic_fs fs files" and "list_all plain_seg p" and "p \<noteq> []"
    and "distinct (map u_Host regs)" and "\<forall>r \<in> set regs. plain_seg (u_Host r) \<and> u_Host r \<noteq> backupDir"
    and "ensure_dir fs (dir_path p) w = (None, w0)" and "fst (af_Stat fs (dir_path (p @ [backupDir])) w0) = Some ErrNotExist"
    and "backup fs (dir_path p) w0 = (Some e, w1)" and "files w1 (p @ backupDir # moved) \<noteq> None"
    and "n \<noteq> backupDir" and "files w1 (p @ n # s) = Some b"
    and "AddHostsConfiguration marshal fs (dir_path p) regs mirrors tags w1 = (None, w2)"
  shows "AddHostsConfiguration marshal fs (dir_path p) regs mirrors tags w = (Some e, w1)
    \<and> files w (p @ n # s) = Some b
    \<and> files w2 (p @ backupDir # n # s) = None
    \<and> ((\<forall>r \<in> set regs. n # s \<noteq> [u_Host r, ''hosts.toml'']) \<longrightarrow> files w2 (p @ n # s) = None)"
proof -
  have fs: "config_fs fs files" using assms(1) by (simp add: atomic_fs_def)
  note lost = atomic_fs.backup_fails [OF assms(1-3,7,8,10,11)]
  have w0: "files w0 = files w" by (rule config_fs.ensure_dir_ok [OF fs assms(6)])
  have "validate regs = None" using assms(12) by (auto simp: AddHostsConfiguration_def split: option.splits)
  then have first: "AddHostsConfiguration marshal fs (dir_path p) regs mirrors tags w = (Some e, w1)"
    using assms(6,8) by (simp add: AddHostsConfiguration_def and_then_def)
  note ok = config_fs.configuration_ok [OF fs assms(2-5,12)]
  obtain v where v: "ensure_dir fs (dir_path p) w1 = (None, v)"
    "if fst (af_Stat fs (dir_path (p @ [backupDir])) v) = Some ErrNotExist
     then \<forall>n s. files w2 (p @ backupDir # n # s) = files w1 (p @ n # s)
     else \<forall>s. files w2 (p @ backupDir # s) = files w1 (p @ backupDir # s)" using ok by blast
  have pb: "list_all plain_seg (p @ [backupDir])" using assms(2) by simp
  have "fst (af_Stat fs (dir_path (p @ [backupDir])) v) \<noteq> Some ErrNotExist"
  proof
    assume "fst (af_Stat fs (dir_path (p @ [backupDir])) v) = Some ErrNotExist"
    then obtain v' where "af_Stat fs (dir_path (p @ [backupDir])) v = (Some ErrNotExist, v')" by (metis prod.collapse)
    from config_fs.not_exist [OF fs pb this, of "p @ backupDir # moved"] show False
      using config_fs.ensure_dir_ok [OF fs v(1)] assms(9) by simp
  qed
  then show ?thesis using first lost w0 v(2) ok assms(10) by simp
qed


subsection \<open>A file system in memory\<close>

text \<open>Files by their path, directories made, and the faults of the coming calls that change something.\<close>

record memFs =
  mf_files :: "(string list \<times> bytes) list"
  mf_dirs :: "string list list"
  mf_faults :: "bool list"

definition segs_of :: "string \<Rightarrow> string list" where
  "segs_of s = filter (\<lambda>t. t \<noteq> []) (Split s CHR ''/'')"

definition mem_paths :: "memFs \<Rightarrow> string list list" where
  "mem_paths w = filter (list_all plain_seg) (map fst (mf_files w) @ mf_dirs w)"

definition mem_content :: "memFs \<Rightarrow> string list \<Rightarrow> bytes option" where
  "mem_content w s = (if list_all plain_seg s then map_of (mf_files w) s else None)"

definition mem_effect :: "(memFs \<Rightarrow> memFs) \<Rightarrow> memFs \<Rightarrow> go_error option \<times> memFs" where
  "mem_effect f w = (case mf_faults w of True # fts \<Rightarrow> (Some (OsError ''input/output error''), w\<lparr>mf_faults := fts\<rparr>)
     | fts \<Rightarrow> (None, f (w\<lparr>mf_faults := tl fts\<rparr>)))"

definition mem_fs :: "memFs Fs" where
  "mem_fs = \<lparr>
     af_DirExists = (\<lambda>p w. (Inr (list_ex (prefix (segs_of p)) (mem_paths w)), w)),
     af_MkdirAll = (\<lambda>p. mem_effect (\<lambda>w. w\<lparr>mf_dirs := segs_of p # mf_dirs w\<rparr>)),
     af_Stat = (\<lambda>p w. (if list_ex (prefix (segs_of p)) (mem_paths w) then None else Some ErrNotExist, w)),
     af_ReadDir = (\<lambda>p w. (Inr (remdups (map (\<lambda>s. s ! length (segs_of p)) (filter (strict_prefix (segs_of p)) (mem_paths w)))), w)),
     af_Rename = (\<lambda>p q. mem_effect (\<lambda>w. w\<lparr>
       mf_files := map (\<lambda>(s, b). (segs_of q @ drop (length (segs_of p)) s, b)) (filter (prefix (segs_of p) \<circ> fst) (mf_files w))
         @ filter (\<lambda>(s, b). \<not> prefix (segs_of p) s \<and> \<not> prefix (segs_of q) s) (mf_files w),
       mf_dirs := map (\<lambda>s. if prefix (segs_of p) s then segs_of q @ drop (length (segs_of p)) s else s) (mf_dirs w)\<rparr>)),
     af_RemoveAll = (\<lambda>p. mem_effect (\<lambda>w. w\<lparr>
       mf_files := filter (\<lambda>(s, b). \<not> prefix (segs_of p) s) (mf_files w),
       mf_dirs := filter (\<lambda>s. \<not> prefix (segs_of p) s) (mf_dirs w)\<rparr>)),
     af_WriteFile = (\<lambda>p b. mem_effect (\<lambda>w. w\<lparr>mf_files := (segs_of p, b) # mf_files w\<rparr>))\<rparr>"

lemma segs_of_dir_path [simp]:
  assumes "list_all plain_seg p"
  shows "segs_of (dir_path p) = p"
proof (cases "p = []")
  case True
  then show ?thesis by (simp add: segs_of_def dir_path_def)
next
  case False
  then have "Split (Join p ''/'') CHR ''/'' = p" using Split_Join_id [of p "CHR ''/''"] assms by (auto simp: list_all_iff plain_seg_def)
  then show ?thesis using assms by (auto simp: segs_of_def dir_path_def list_all_iff plain_seg_def filter_id_conv)
qed

lemma map_of_filter: "map_of (filter (\<lambda>(k, v). P k) xs) k = (if P k then map_of xs k else None)"
  by (induction xs) auto

lemma map_of_moved:
  "map_of (map (\<lambda>(s, b). (q @ drop (length p) s, b)) (filter (prefix p \<circ> fst) xs)) s =
     (if prefix q s then map_of xs (p @ drop (length q) s) else None)"
  by (induction xs) (auto simp: prefix_def)

lemma mem_content_rename:
  assumes "list_all plain_seg (p @ q)"
    and w': "mf_files w' = map (\<lambda>(s, b). (q @ drop (length p) s, b)) (filter (prefix p \<circ> fst) (mf_files w))
      @ filter (\<lambda>(s, b). \<not> prefix p s \<and> \<not> prefix q s) (mf_files w)"
  shows "mem_content w' = (\<lambda>s. if prefix q s then mem_content w (p @ drop (length q) s) else if prefix p s then None else mem_content w s)"
proof
  fix s
  have f: "map_of (filter (\<lambda>(s, b). \<not> prefix p s \<and> \<not> prefix q s) xs) s =
      (if \<not> prefix p s \<and> \<not> prefix q s then map_of xs s else None)" for xs :: "(string list \<times> bytes) list" and s
    by (rule map_of_filter)
  show "mem_content w' s = (if prefix q s then mem_content w (p @ drop (length q) s) else if prefix p s then None else mem_content w s)"
  proof (cases "prefix q s")
    case True
    then obtain t where "s = q @ t" by (auto simp: prefix_def)
    then show ?thesis using assms(1) by (simp add: mem_content_def w' map_add_def map_of_moved f split: option.splits)
  qed (simp add: mem_content_def w' map_add_def map_of_moved f)
qed

lemma mem_content_simps [simp]:
  "mem_content (w\<lparr>mf_faults := fts\<rparr>) = mem_content w"
  "mem_content (w\<lparr>mf_dirs := ds\<rparr>) = mem_content w"
  by (simp_all add: mem_content_def fun_eq_iff)

lemma mem_content_path: "mem_content w s \<noteq> None \<Longrightarrow> s \<in> set (mem_paths w)"
  by (force simp: mem_content_def mem_paths_def dest: map_of_SomeD split: if_splits)

lemma mem_paths_below: "strict_prefix p s \<Longrightarrow> s \<in> set (mem_paths w) \<Longrightarrow> plain_seg (s ! length p)"
  by (auto simp: mem_paths_def list_all_iff strict_prefix_def prefix_def nth_append dest!: bspec [where x = "s ! length p"])

lemma strict_prefix_next: "strict_prefix p s \<Longrightarrow> prefix (p @ [s ! length p]) s"
  by (auto simp: strict_prefix_def prefix_def nth_append) (metis hd_Cons_tl hd_conv_nth)

interpretation mem: atomic_fs mem_fs mem_content
proof
  fix a w err w'
  assume "af_MkdirAll mem_fs a w = (err, w')"
  then show "mem_content w' = mem_content w"
    by (auto simp: mem_fs_def mem_effect_def split: list.splits bool.splits)
next
  fix p w w' s
  assume "list_all plain_seg p" and "af_Stat mem_fs (dir_path p) w = (Some ErrNotExist, w')" and "prefix p s"
  then show "mem_content w s = None"
    using mem_content_path [of w s] by (cases "mem_content w s") (auto simp: mem_fs_def list_ex_iff split: if_splits)
next
  fix p n w w' names w''
  assume "list_all plain_seg (p @ [n])" and "af_Stat mem_fs (dir_path (p @ [n])) w = (Some ErrNotExist, w')"
    and "af_ReadDir mem_fs (dir_path p) w' = (Inr names, w'')"
  then show "n \<notin> set names"
    by (auto simp: mem_fs_def list_ex_iff split: if_splits dest!: strict_prefix_next)
next
  fix p w names w'
  assume p: "list_all plain_seg p" and rd: "af_ReadDir mem_fs (dir_path p) w = (Inr names, w')"
  have "n \<in> set names" if "mem_content w (p @ n # s) \<noteq> None" for n s
    using mem_content_path [OF that] rd p by (force simp: mem_fs_def strict_prefix_def image_iff)
  moreover have "distinct names" using rd by (auto simp: mem_fs_def)
  moreover have "list_all plain_seg names" using rd p mem_paths_below by (auto simp: mem_fs_def list_all_iff)
  ultimately show "distinct names \<and> list_all plain_seg names \<and> (\<forall>n s. mem_content w (p @ n # s) \<noteq> None \<longrightarrow> n \<in> set names)"
    by blast
next
  fix p q w w' s
  assume pq: "list_all plain_seg (p @ q)" and ok: "af_Rename mem_fs (dir_path p) (dir_path q) w = (None, w')"
  have "mem_content (snd (af_Rename mem_fs (dir_path p) (dir_path q) w)) =
      (\<lambda>s. if prefix q s then mem_content w (p @ drop (length q) s) else if prefix p s then None else mem_content w s)"
    using pq ok by (intro mem_content_rename) (auto simp: mem_fs_def mem_effect_def split: list.splits bool.splits)
  then show "mem_content w' s = (if prefix q s then mem_content w (p @ drop (length q) s) else if prefix p s then None else mem_content w s)"
    by (simp add: ok)
next
  fix p w w' s
  assume "list_all plain_seg p" and "af_RemoveAll mem_fs (dir_path p) w = (None, w')"
  then show "mem_content w' s = (if prefix p s then None else mem_content w s)"
    by (auto simp: mem_fs_def mem_content_def mem_effect_def map_of_filter [of "\<lambda>s. \<not> prefix p s"] split: list.splits bool.splits)
next
  fix p b w w'
  assume "list_all plain_seg p" and "af_WriteFile mem_fs (dir_path p) b w = (None, w')"
  then show "mem_content w' = (mem_content w)(p \<mapsto> b)"
    by (auto simp: mem_fs_def mem_content_def mem_effect_def fun_eq_iff split: list.splits bool.splits)
next
  fix a b w e w'
  assume "af_Rename mem_fs a b w = (Some e, w')"
  then show "mem_content w' = mem_content w" by (auto simp: mem_fs_def mem_effect_def split: list.splits bool.splits)
qed (auto simp: mem_fs_def)

text \<open>A node with the configuration of two registries, and an encoding of the server and the mirrors.\<close>

definition demo_marshal :: "hostFile \<Rightarrow> bytes result" where
  "demo_marshal h = Inr (map (\<lambda>c. of_nat (of_char c)) (hf_Server h @ concat (map fst (hf_HostConfigs h))))"

definition demo_registry :: URL where
  "demo_registry = empty_URL\<lparr>u_Scheme := ''https'', u_Host := ''mcr.io''\<rparr>"

definition demo_config :: "bool list \<Rightarrow> memFs" where
  "demo_config faults = \<lparr>mf_files = [([''certs.d'', ''a.io'', ''hosts.toml''], [1]), ([''certs.d'', ''b.io'', ''hosts.toml''], [2])],
     mf_dirs = [], mf_faults = faults\<rparr>"

definition demo_configure :: "memFs \<Rightarrow> go_error option \<times> memFs" where
  "demo_configure = AddHostsConfiguration demo_marshal mem_fs (dir_path [''certs.d'']) [demo_registry] [demo_registry] False"

theorem AddHostsConfiguration_writes_hosts_and_keeps_backup_witness:
  "\<exists>w' b. demo_configure (demo_config []) = (None, w') \<and> demo_marshal (host_file [demo_registry] False demo_registry) = Inr b
    \<and> mem_content w' [''certs.d'', ''mcr.io'', ''hosts.toml''] = Some b
    \<and> mem_content w' [''certs.d'', ''a.io'', ''hosts.toml''] = None
    \<and> mem_content w' [''certs.d'', ''_backup'', ''a.io'', ''hosts.toml''] = Some [1]"
proof -
  obtain w' where run: "demo_configure (demo_config []) = (None, w')"
  proof
    show "demo_configure (demo_config []) = (None, snd (demo_configure (demo_config [])))" by code_simp
  qed
  have plain: "list_all plain_seg [''certs.d'']" by (simp add: plain_seg_def)
  have hosts: "distinct (map u_Host [demo_registry])" "\<forall>r \<in> set [demo_registry]. plain_seg (u_Host r) \<and> u_Host r \<noteq> backupDir"
    by (simp_all add: demo_registry_def plain_seg_def backupDir_def)
  have st: "ensure_dir mem_fs (dir_path [''certs.d'']) (demo_config []) = (None, demo_config [])"
    "fst (af_Stat mem_fs (dir_path ([''certs.d''] @ [backupDir])) (demo_config [])) = Some ErrNotExist" by code_simp+
  note res = AddHostsConfiguration_writes_hosts_and_keeps_backup
    [OF mem.config_fs_axioms plain _ hosts run [unfolded demo_configure_def]]
  have "mem_content w' ([''certs.d''] @ backupDir # ''a.io'' # [''hosts.toml'']) = mem_content (demo_config []) ([''certs.d''] @ ''a.io'' # [''hosts.toml''])"
  proof -
    obtain w2 where "ensure_dir mem_fs (dir_path [''certs.d'']) (demo_config []) = (None, w2)"
      "if fst (af_Stat mem_fs (dir_path ([''certs.d''] @ [backupDir])) w2) = Some ErrNotExist
       then \<forall>n s. mem_content w' ([''certs.d''] @ backupDir # n # s) = mem_content (demo_config []) ([''certs.d''] @ n # s)
       else \<forall>s. mem_content w' ([''certs.d''] @ backupDir # s) = mem_content (demo_config []) ([''certs.d''] @ backupDir # s)"
      using res by blast
    then show ?thesis using st by (metis prod.inject)
  qed
  moreover have "mem_content (demo_config []) [''certs.d'', ''a.io'', ''hosts.toml''] = Some [1]" by code_simp
  moreover have "mem_content w' ([''certs.d''] @ ''a.io'' # [''hosts.toml'']) = None"
    using res by (auto simp: backupDir_def demo_registry_def)
  moreover have "\<exists>b. demo_marshal (host_file [demo_registry] False demo_registry) = Inr b \<and> mem_content w' ([''certs.d''] @ [''mcr.io'', ''hosts.toml'']) = Some b"
    using res by (auto simp: demo_registry_def)
  ultimately show ?thesis using run by (auto simp: backupDir_def)
qed

theorem AddHostsConfiguration_interrupted_backup_loses_files_witness:
  "\<exists>e w1 w2. demo_configure (demo_config [False, False, True]) = (Some e, w1) \<and> demo_configure w1 = (None, w2)
    \<and> mem_content (demo_config [False, False, True]) [''certs.d'', ''b.io'', ''hosts.toml''] = Some [2]
    \<and> mem_content w2 [''certs.d'', ''_backup'', ''b.io'', ''hosts.toml''] = None
    \<and> mem_content w2 [''certs.d'', ''b.io'', ''hosts.toml''] = None"
proof -
  let ?w = "demo_config [False, False, True]" and ?p = "[''certs.d'']"
  have "case backup mem_fs (dir_path ?p) ?w of (Some e, w1) \<Rightarrow>
      mem_content w1 [''certs.d'', ''_backup'', ''a.io'', ''hosts.toml''] \<noteq> None \<and> mem_content w1 [''certs.d'', ''b.io'', ''hosts.toml''] = Some [2]
      \<and> fst (demo_configure w1) = None | _ \<Rightarrow> False" by code_simp
  then obtain e w1 where b: "backup mem_fs (dir_path ?p) ?w = (Some e, w1)"
    and m: "mem_content w1 (?p @ backupDir # [''a.io'', ''hosts.toml'']) \<noteq> None" "mem_content w1 (?p @ ''b.io'' # [''hosts.toml'']) = Some [2]"
    and "fst (demo_configure w1) = None"
    by (auto simp: backupDir_def split: prod.split_asm option.split_asm)
  then obtain w2 where r: "demo_configure w1 = (None, w2)" by (metis prod.collapse)
  have plain: "list_all plain_seg ?p" "?p \<noteq> []" by (simp_all add: plain_seg_def)
  have hosts: "distinct (map u_Host [demo_registry])" "\<forall>r \<in> set [demo_registry]. plain_seg (u_Host r) \<and> u_Host r \<noteq> backupDir"
    by (simp_all add: demo_registry_def plain_seg_def backupDir_def)
  have st: "ensure_dir mem_fs (dir_path ?p) ?w = (None, ?w)"
    "fst (af_Stat mem_fs (dir_path (?p @ [backupDir])) ?w) = Some ErrNotExist" by code_simp+
  have "''b.io'' \<noteq> backupDir" by (simp add: backupDir_def)
  from AddHostsConfiguration_interrupted_backup_loses_files
    [OF mem.atomic_fs_axioms plain hosts st b m(1) this m(2) r [unfolded demo_configure_def]] r
  show ?thesis by (auto simp: demo_configure_def backupDir_def demo_registry_def)
qed

end
