(* ===== verification/Peer_Network.thy ===== *)
theory Peer_Network
  imports Prelude
begin

section \<open>Transports between peers: \<open>src/pkg/peernet/network.go\<close>\<close>

text \<open>
  Model of the choice of TLS configuration, transport and client for a peer. Certificates and the
  verification callback come from libp2p's identity, an external package: \<open>configForPeer\<close> gives both
  for a peer (the empty identifier stands for any peer). The fields of \<open>tls.Config\<close> and
  \<open>http.Transport\<close> that the code sets are the records; a client without a transport uses the default
  transport of the standard library.
\<close>

datatype clientAuth = NoClientCert | RequireAndVerifyClientCert

record ('cert, 'v) tlsConfig =
  tc_Certificates :: 'cert
  tc_ClientAuth :: clientAuth
  tc_VerifyPeerCertificate :: "'v option"
  tc_InsecureSkipVerify :: bool

record ('cert, 'v) Transport =
  tr_TLSClientConfig :: "('cert, 'v) tlsConfig"
  tr_MaxConnsPerHost :: int64

record ('cert, 'v) http_Client =
  hc_Transport :: "('cert, 'v) Transport option"
  hc_Timeout :: int64

record ('id, 'cert, 'v) network =
  pn_id :: 'id
  pn_defaultTLSConfig :: "('cert, 'v) tlsConfig"
  pn_defaultTransport :: "('cert, 'v) Transport"

definition defaultTimeout :: int64 where "defaultTimeout = 90"

definition defaultHttpClient :: "('cert, 'v) http_Client" where
  "defaultHttpClient = \<lparr>hc_Transport = None, hc_Timeout = defaultTimeout\<rparr>"

definition DefaultTLSConfig :: "('id, 'cert, 'v) network \<Rightarrow> ('cert, 'v) tlsConfig" where
  "DefaultTLSConfig n = pn_defaultTLSConfig n"

definition transportFor :: "('id \<Rightarrow> string \<Rightarrow> 'cert \<times> 'v) \<Rightarrow> ('id, 'cert, 'v) network \<Rightarrow> string \<Rightarrow> ('cert, 'v) Transport" where
  "transportFor configForPeer n pid =
     (if pid = [] then pn_defaultTransport n
      else (case configForPeer (pn_id n) pid of (certs, verify) \<Rightarrow>
        \<lparr>tr_TLSClientConfig = \<lparr>tc_Certificates = certs, tc_ClientAuth = RequireAndVerifyClientCert,
           tc_VerifyPeerCertificate = Some verify, tc_InsecureSkipVerify = True\<rparr>, tr_MaxConnsPerHost = 100\<rparr>))"

definition HTTPClientFor :: "('id \<Rightarrow> string \<Rightarrow> 'cert \<times> 'v) \<Rightarrow> ('id, 'cert, 'v) network \<Rightarrow> string \<Rightarrow> ('cert, 'v) http_Client" where
  "HTTPClientFor configForPeer n pid =
     (if pid = [] then defaultHttpClient else \<lparr>hc_Transport = Some (transportFor configForPeer n pid), hc_Timeout = defaultTimeout\<rparr>)"

definition RoundTripperFor :: "('id \<Rightarrow> string \<Rightarrow> 'cert \<times> 'v) \<Rightarrow> ('id, 'cert, 'v) network \<Rightarrow> string \<Rightarrow> ('cert, 'v) Transport" where
  "RoundTripperFor configForPeer n pid = (if pid = [] then pn_defaultTransport n else transportFor configForPeer n pid)"

definition New_peernet :: "('key \<Rightarrow> 'id result) \<Rightarrow> ('id \<Rightarrow> string \<Rightarrow> 'cert \<times> 'v) \<Rightarrow> 'key \<Rightarrow> ('id, 'cert, 'v) network result" where
  "New_peernet newIdentity configForPeer privKey =
     (case newIdentity privKey of
        Inl e \<Rightarrow> Inl e
      | Inr i \<Rightarrow>
          (let cfg = \<lparr>tc_Certificates = fst (configForPeer i []), tc_ClientAuth = NoClientCert, tc_VerifyPeerCertificate = None, tc_InsecureSkipVerify = False\<rparr>
           in Inr \<lparr>pn_id = i, pn_defaultTLSConfig = cfg, pn_defaultTransport = \<lparr>tr_TLSClientConfig = cfg, tr_MaxConnsPerHost = 100\<rparr>\<rparr>))"

text \<open>
  A transport authenticates a peer when the certificate of the other side is either verified by the
  standard library against the roots of the system, or by the callback for exactly that peer; the
  standard verification is switched off only together with a callback.
\<close>

definition checks_certificate :: "('cert, 'v) tlsConfig \<Rightarrow> bool" where
  "checks_certificate c \<longleftrightarrow> \<not> tc_InsecureSkipVerify c \<or> tc_VerifyPeerCertificate c \<noteq> None"

lemma network_authenticates_peers:
  assumes "New_peernet newIdentity configForPeer privKey = Inr n"
  shows "checks_certificate (tr_TLSClientConfig (RoundTripperFor configForPeer n pid))
    \<and> (\<forall>t. hc_Transport (HTTPClientFor configForPeer n pid) = Some t \<longrightarrow> t = RoundTripperFor configForPeer n pid)
    \<and> (pid \<noteq> [] \<longrightarrow> hc_Transport (HTTPClientFor configForPeer n pid) \<noteq> None
        \<and> (\<exists>i. newIdentity privKey = Inr i \<and> tc_VerifyPeerCertificate (tr_TLSClientConfig (RoundTripperFor configForPeer n pid)) = Some (snd (configForPeer i pid))))"
  using assms
  by (auto simp: New_peernet_def RoundTripperFor_def HTTPClientFor_def transportFor_def checks_certificate_def defaultHttpClient_def Let_def
      split: sum.splits prod.splits)

end
