(* ===== verification/Kubernetes.thy ===== *)
theory Kubernetes
  imports Prelude
begin

section \<open>Kubernetes identity and events: \<open>src/pkg/k8s/k8s.go\<close> and \<open>src/pkg/k8s/events/events.go\<close>\<close>

text \<open>
  Model of how a node finds out what it is (a pod or a host), of the object its events refer to, and
  of the five events it reports. The client library is external: building configurations and
  clients, and fetching the node or pod object, are arguments. An event recorder is the object
  reference; what it sends to the library's recorder is a value of \<open>k8sEvent\<close>.
\<close>

subsection \<open>Client\<close>

record 'i ClientSet =
  k8_Interface :: 'i
  k8_InPod :: bool
  k8_Namespace :: string
  k8_Name :: string

definition peerdDefaultNamespace :: string where "peerdDefaultNamespace = ''peerd-ns''"

definition getPodNamespace :: "(string \<Rightarrow> string) \<Rightarrow> (string \<Rightarrow> string result) \<Rightarrow> string" where
  "getPodNamespace getenv readFile =
     (if getenv ''NAMESPACE'' \<noteq> [] then getenv ''NAMESPACE''
      else (case readFile ''/var/run/secrets/kubernetes.io/serviceaccount/namespace'' of
              Inr namespaceBytes \<Rightarrow> namespaceBytes
            | Inl e \<Rightarrow> peerdDefaultNamespace))"

definition NewKubernetesInterface :: "'cfg result \<Rightarrow> (string \<Rightarrow> 'cfg result) \<Rightarrow> ('cfg \<Rightarrow> 'i result) \<Rightarrow> (string \<Rightarrow> string) \<Rightarrow>
    (string \<Rightarrow> string result) \<Rightarrow> string \<Rightarrow> string \<Rightarrow> 'i ClientSet result" where
  "NewKubernetesInterface inClusterConfig buildConfig newForConfig getenv readFile kubeConfigPath name =
     (let found = (case inClusterConfig of
            Inr config \<Rightarrow> Inr (config, True, getPodNamespace getenv readFile)
          | Inl _ \<Rightarrow> (case buildConfig kubeConfigPath of
                Inl e \<Rightarrow> Inl e
              | Inr config \<Rightarrow> Inr (config, False, peerdDefaultNamespace)))
      in case found of
           Inl e \<Rightarrow> Inl e
         | Inr (config, inPod, ns) \<Rightarrow>
             (case newForConfig config of
                Inl e \<Rightarrow> Inl e
              | Inr clientset \<Rightarrow> Inr \<lparr>k8_Interface = clientset, k8_InPod = inPod, k8_Namespace = ns, k8_Name = name\<rparr>))"

subsection \<open>Events\<close>

record ObjectMeta =
  om_Name :: string
  om_Namespace :: string
  om_UID :: string
  om_APIVersion :: string

record ObjectReference =
  or_Kind :: string
  or_Name :: string
  or_Namespace :: string
  or_UID :: string
  or_APIVersion :: string

text \<open>\<open>getNode name\<close> and \<open>getPod namespace name\<close> are the requests to the API server.\<close>

definition NewRecorder :: "('i \<Rightarrow> string \<Rightarrow> ObjectMeta result) \<Rightarrow> ('i \<Rightarrow> string \<Rightarrow> string \<Rightarrow> ObjectMeta result) \<Rightarrow> 'i ClientSet \<Rightarrow>
    ObjectReference result" where
  "NewRecorder getNode getPod k =
     (if \<not> k8_InPod k then
        (case getNode (k8_Interface k) (k8_Name k) of
           Inl e \<Rightarrow> Inl e
         | Inr node \<Rightarrow> Inr \<lparr>or_Kind = ''Node'', or_Name = om_Name node, or_Namespace = [], or_UID = om_UID node, or_APIVersion = om_APIVersion node\<rparr>)
      else
        (case getPod (k8_Interface k) (k8_Namespace k) (k8_Name k) of
           Inl e \<Rightarrow> Inl e
         | Inr pod \<Rightarrow> Inr \<lparr>or_Kind = ''Pod'', or_Name = om_Name pod, or_Namespace = om_Namespace pod, or_UID = om_UID pod, or_APIVersion = om_APIVersion pod\<rparr>))"

text \<open>The value of a context under the package's key; reading it from a context without it fails in the type assertion.\<close>

definition WithContext_events :: "('i \<Rightarrow> string \<Rightarrow> ObjectMeta result) \<Rightarrow> ('i \<Rightarrow> string \<Rightarrow> string \<Rightarrow> ObjectMeta result) \<Rightarrow> 'i ClientSet \<Rightarrow>
    ObjectReference option result" where
  "WithContext_events getNode getPod clientset =
     (case NewRecorder getNode getPod clientset of Inl e \<Rightarrow> Inl e | Inr er \<Rightarrow> Inr (Some er))"

definition FromContext_events :: "ObjectReference option \<Rightarrow> ObjectReference outcome" where
  "FromContext_events ctx = (case ctx of Some er \<Rightarrow> Ret er | None \<Rightarrow> Panic TypeAssertion)"

datatype eventType = EventTypeNormal | EventTypeWarning

record k8sEvent =
  ev_Object :: ObjectReference
  ev_Type :: eventType
  ev_Reason :: string
  ev_Message :: string

definition Eventf :: "ObjectReference \<Rightarrow> eventType \<Rightarrow> string \<Rightarrow> string \<Rightarrow> k8sEvent" where
  "Eventf objRef ty reason msg = \<lparr>ev_Object = objRef, ev_Type = ty, ev_Reason = reason, ev_Message = msg @ or_Name objRef\<rparr>"

definition Active_event :: "ObjectReference \<Rightarrow> k8sEvent" where
  "Active_event er = Eventf er EventTypeNormal ''P2PActive'' ''P2P proxy is active on instance ''"

definition Connected_event :: "ObjectReference \<Rightarrow> k8sEvent" where
  "Connected_event er = Eventf er EventTypeNormal ''P2PConnected'' ''P2P proxy is connected to cluster on instance ''"

definition Disconnected_event :: "ObjectReference \<Rightarrow> k8sEvent" where
  "Disconnected_event er = Eventf er EventTypeWarning ''P2PDisconnected'' ''P2P proxy is disconnected from cluster on instance ''"

definition Failed_event :: "ObjectReference \<Rightarrow> k8sEvent" where
  "Failed_event er = Eventf er EventTypeWarning ''P2PFailed'' ''P2P proxy failed on instance ''"

definition Initializing_event :: "ObjectReference \<Rightarrow> k8sEvent" where
  "Initializing_event er = Eventf er EventTypeNormal ''P2PInitializing'' ''P2P proxy is initializing on instance ''"

lemmas event_defs = Active_event_def Connected_event_def Disconnected_event_def Failed_event_def Initializing_event_def Eventf_def

text \<open>The object of the events is the one the node runs as: the pod inside a cluster, the host outside.\<close>

lemma recorder_object:
  assumes "NewKubernetesInterface inCluster buildConfig newForConfig getenv readFile path name = Inr k"
    and "NewRecorder getNode getPod k = Inr er"
  shows "k8_Name k = name \<and>
    (case inCluster of
       Inr cfg \<Rightarrow> or_Kind er = ''Pod'' \<and> (\<exists>i pod. newForConfig cfg = Inr i \<and> getPod i (getPodNamespace getenv readFile) name = Inr pod \<and> or_UID er = om_UID pod)
     | Inl e \<Rightarrow> or_Kind er = ''Node'' \<and> (\<exists>i cfg node. buildConfig path = Inr cfg \<and> newForConfig cfg = Inr i \<and> getNode i name = Inr node \<and> or_UID er = om_UID node))"
  using assms by (auto simp: NewKubernetesInterface_def NewRecorder_def Let_def split: sum.splits if_splits)

lemma event_reasons_distinct:
  "distinct (map (\<lambda>f. ev_Reason (f er)) [Initializing_event, Connected_event, Active_event, Disconnected_event, Failed_event])"
  by (simp add: event_defs)

end
