(* ===== verification/Router_Start.thy ===== *)
theory Router_Start
  imports Routing Leader_Election Peer_Network Kubernetes
begin

section \<open>Creating the router: \<open>NewRouter\<close> of \<open>src/pkg/discovery/routing/router.go\<close>\<close>

text \<open>
  Model of how a node joins the network: it creates a host, takes part in the election under its own
  address, creates the DHT whose bootstrap function asks for the leader, and builds the router from
  the DHT, the lookup cache and the network for peers. libp2p, the Kubernetes client and ristretto
  are external: the record \<open>p2p_env\<close> holds what is called of them over a world \<open>'w\<close>, in which the state
  of the DHTs, with handles \<open>'d\<close>, and of the lookup cache lives. The context of the command is what
  \<open>events.FromContext\<close> finds in it. The contract of libp2p is the locale \<open>libp2p\<close>.
\<close>

subsection \<open>Model\<close>

text \<open>The options of the DHT; durations are in minutes.\<close>

definition MaxRecordAge :: int64 where "MaxRecordAge = 30"

record ('m, 'w) dhtOptions =
  dh_server :: bool
  dh_ProtocolPrefix :: string
  dh_DisableValues :: bool
  dh_MaxRecordAge :: int64
  dh_BootstrapPeers :: "leaderElection \<Rightarrow> 'w \<Rightarrow> ('m AddrInfo list \<times> 'w) outcome"

record ('m, 'h, 'd, 'i, 'l, 'id, 'cert, 'v, 'cid, 'w) p2p_env =
  pe_newMultiaddr :: "string \<Rightarrow> 'm result"
  pe_ip4 :: "'m \<Rightarrow> string result"
  pe_String :: "'m \<Rightarrow> string"
  pe_addrInfo :: "'m \<Rightarrow> 'm AddrInfo result"
  pe_libp2pNew :: "'m \<Rightarrow> ('m list \<Rightarrow> 'm list) \<Rightarrow> 'h result"
  pe_Addrs :: "'h \<Rightarrow> 'm list"
  pe_ID :: "'h \<Rightarrow> string"
  pe_newLock :: "'i \<Rightarrow> string \<Rightarrow> string \<Rightarrow> string \<Rightarrow> 'l result"
  pe_goElect :: "'l leaderElectionConfig \<Rightarrow> 'w \<Rightarrow> 'w"
  pe_dhtNew :: "'h \<Rightarrow> ('m, 'w) dhtOptions \<Rightarrow> 'w \<Rightarrow> 'd result \<times> 'w"
  pe_dhtBootstrap :: "'d \<Rightarrow> 'w \<Rightarrow> go_error option \<times> 'w"
  pe_findProviders :: "'d \<Rightarrow> 'cid \<Rightarrow> int64 \<Rightarrow> 'w \<Rightarrow> 'm AddrInfo list \<times> 'w"
  pe_provide :: "'d \<Rightarrow> 'cid \<Rightarrow> 'w \<Rightarrow> go_error option \<times> 'w"
  pe_prefixSum :: "cidPrefix \<Rightarrow> bytes \<Rightarrow> 'cid result"
  pe_newCache :: "'w \<Rightarrow> go_error option \<times> 'w"
  pe_cacheGet :: "string \<Rightarrow> 'w \<Rightarrow> string option \<times> 'w"
  pe_cacheSetWithTTL :: "string \<Rightarrow> string \<Rightarrow> int64 \<Rightarrow> int64 \<Rightarrow> 'w \<Rightarrow> 'w"
  pe_newIdentity :: "'h \<Rightarrow> 'id result"
  pe_configForPeer :: "'id \<Rightarrow> string \<Rightarrow> 'cert \<times> 'v"
  pe_Do :: "('cert, 'v) http_Client \<Rightarrow> (bool \<times> 'w) http_client"
  pe_RoundTrip :: "('cert, 'v) Transport \<Rightarrow> (bool \<times> 'w) http_client"
  pe_getNode :: "'i \<Rightarrow> string \<Rightarrow> ObjectMeta result"
  pe_getPod :: "'i \<Rightarrow> string \<Rightarrow> string \<Rightarrow> ObjectMeta result"
  pe_send :: "k8sEvent \<Rightarrow> 'w \<Rightarrow> 'w"

text \<open>
  The bootstrap function: it waits for the first leader, and reports through the recorder of the
  context of \<open>NewRouter\<close> whether the node is connected.
\<close>

definition node_k8sEvent :: "node_event \<Rightarrow> ObjectReference \<Rightarrow> k8sEvent" where
  "node_k8sEvent ev = (case ev of Connected \<Rightarrow> Connected_event | Disconnected \<Rightarrow> Disconnected_event)"

fun report_events :: "('m, 'h, 'd, 'i, 'l, 'id, 'cert, 'v, 'cid, 'w) p2p_env \<Rightarrow> ObjectReference option \<Rightarrow> node_event list \<Rightarrow> 'w \<Rightarrow> 'w outcome" where
  "report_events env ctx [] w = Ret w"
| "report_events env ctx (ev # evs) w =
     obind (FromContext_events ctx) (\<lambda>er. report_events env ctx evs (pe_send env (node_k8sEvent ev er) w))"

definition dht_bootstrap :: "('m, 'h, 'd, 'i, 'l, 'id, 'cert, 'v, 'cid, 'w) p2p_env \<Rightarrow> ObjectReference option \<Rightarrow> string \<Rightarrow> leaderElection \<Rightarrow> 'w \<Rightarrow>
    ('m AddrInfo list \<times> 'w) outcome" where
  "dht_bootstrap env ctx hostID le w =
     obind (Leader (pe_newMultiaddr env) le) (\<lambda>addr.
       case bootstrap_peers (pe_addrInfo env) hostID addr of
         (peers, evs) \<Rightarrow> obind (report_events env ctx evs w) (\<lambda>w'. Ret (peers, w')))"

definition dhtOpts :: "('m, 'h, 'd, 'i, 'l, 'id, 'cert, 'v, 'cid, 'w) p2p_env \<Rightarrow> ObjectReference option \<Rightarrow> string \<Rightarrow> ('m, 'w) dhtOptions" where
  "dhtOpts env ctx hostID = \<lparr>dh_server = True, dh_ProtocolPrefix = ''/peerd'', dh_DisableValues = True, dh_MaxRecordAge = MaxRecordAge,
     dh_BootstrapPeers = dht_bootstrap env ctx hostID\<rparr>"

definition peer_net :: "('m, 'h, 'd, 'i, 'l, 'id, 'cert, 'v, 'cid, 'w) p2p_env \<Rightarrow> ('id, 'cert, 'v) network \<Rightarrow> (bool \<times> 'w) Network" where
  "peer_net env n = \<lparr>nw_HTTPClientFor = (\<lambda>pid. pe_Do env (HTTPClientFor (pe_configForPeer env) n pid)),
     nw_RoundTripperFor = (\<lambda>pid. pe_RoundTrip env (RoundTripperFor (pe_configForPeer env) n pid))\<rparr>"

definition router_object :: "('m, 'h, 'd, 'i, 'l, 'id, 'cert, 'v, 'cid, 'w) p2p_env \<Rightarrow> 'i ClientSet \<Rightarrow> ('id, 'cert, 'v) network \<Rightarrow> 'h \<Rightarrow> 'd \<Rightarrow>
    string \<Rightarrow> ('m, 'cid, 'w) router" where
  "router_object env clientset n host kdht peerRegistryPort =
     (let recorder = NewRecorder (pe_getNode env) (pe_getPod env) clientset in
      \<lparr>ro_hostID = pe_ID env host, ro_net = peer_net env n, ro_peerRegistryPort = peerRegistryPort,
       ro_findProviders = pe_findProviders env kdht, ro_provide = pe_provide env kdht,
       ro_lookupGet = pe_cacheGet env, ro_lookupSetWithTTL = pe_cacheSetWithTTL env,
       ro_newRecorder = Pair (case recorder of Inl e \<Rightarrow> Some e | Inr er \<Rightarrow> None),
       ro_reportActive = (case recorder of Inl e \<Rightarrow> (\<lambda>w. w) | Inr er \<Rightarrow> pe_send env (Active_event er)),
       ro_prefixSum = pe_prefixSum env, ro_ip4 = pe_ip4 env\<rparr>)"

text \<open>The address under which a host takes part in the election; \<open>host.Addrs()[0]\<close> may be out of range.\<close>

definition self_address :: "('m, 'h, 'd, 'i, 'l, 'id, 'cert, 'v, 'cid, 'w) p2p_env \<Rightarrow> 'h \<Rightarrow> string outcome" where
  "self_address env host =
     (case pe_Addrs env host of
        [] \<Rightarrow> Panic IndexOutOfRange
      | addr # _ \<Rightarrow> Ret (pe_String env addr @ ''/p2p/'' @ pe_ID env host))"

text \<open>The DHT, the lookup cache and the network for peers, in this order.\<close>

definition build_router :: "('m, 'h, 'd, 'i, 'l, 'id, 'cert, 'v, 'cid, 'w) p2p_env \<Rightarrow> ObjectReference option \<Rightarrow> 'i ClientSet \<Rightarrow> 'h \<Rightarrow> string \<Rightarrow> 'w \<Rightarrow>
    ('m, 'cid, 'w) router result \<times> 'w" where
  "build_router env ctx clientset host peerRegistryPort w =
     (case pe_dhtNew env host (dhtOpts env ctx (pe_ID env host)) w of
        (Inl e, w1) \<Rightarrow> (Inl (WrapErr ''could not create distributed hash table'' e), w1)
      | (Inr kdht, w1) \<Rightarrow>
          (case pe_dhtBootstrap env kdht w1 of
             (Some e, w2) \<Rightarrow> (Inl (WrapErr ''could not boostrap distributed hash table'' e), w2)
           | (None, w2) \<Rightarrow>
               (case pe_newCache env w2 of
                  (Some e, w3) \<Rightarrow> (Inl e, w3)
                | (None, w3) \<Rightarrow>
                    (case New_peernet (pe_newIdentity env) (pe_configForPeer env) host of
                       Inl e \<Rightarrow> (Inl e, w3)
                     | Inr n \<Rightarrow> (Inr (router_object env clientset n host kdht peerRegistryPort), w3)))))"

definition NewRouter :: "('m, 'h, 'd, 'i, 'l, 'id, 'cert, 'v, 'cid, 'w) p2p_env \<Rightarrow> ObjectReference option \<Rightarrow> 'i ClientSet \<Rightarrow> string \<Rightarrow> string \<Rightarrow> 'w \<Rightarrow>
    (('m, 'cid, 'w) router result \<times> 'w) outcome" where
  "NewRouter env ctx clientset hostAddr peerRegistryPort w =
     (case newHost (pe_newMultiaddr env) (pe_libp2pNew env) (pe_ip4 env) hostAddr of
        Inl e \<Rightarrow> Ret (Inl (WrapErr ''could not create host'' e), w)
      | Inr host \<Rightarrow>
          obind (self_address env host) (\<lambda>self.
            case RunOrDie (pe_newLock env (k8_Interface clientset)) (k8_Namespace clientset) ''peerd-leader-election'' self of
              Inl e \<Rightarrow> Ret (Inl e, w)
            | Inr cfg \<Rightarrow> Ret (build_router env ctx clientset host peerRegistryPort (pe_goElect env cfg w))))"

subsection \<open>The contract of libp2p\<close>

text \<open>
  A host announces what its address factory makes of the addresses on which it listens, and an
  address with the suffix \<open>/p2p/ID\<close> is parsed into the peer and the address.
\<close>

locale libp2p =
  fixes env :: "('m, 'h, 'd, 'i, 'l, 'id, 'cert, 'v, 'cid, 'w) p2p_env" and listens :: "'m \<Rightarrow> 'm list"
  assumes announced: "pe_libp2pNew env a factory = Inr host \<Longrightarrow> pe_Addrs env host = factory (listens a)"
    and p2p_address: "\<exists>m. pe_newMultiaddr env (pe_String env a @ ''/p2p/'' @ pe_ID env host) = Inr m
      \<and> pe_addrInfo env m = Inr \<lparr>ai_ID = pe_ID env host, ai_Addrs = [a]\<rparr>"
begin

lemma newHost_address:
  assumes "newHost (pe_newMultiaddr env) (pe_libp2pNew env) (pe_ip4 env) hostAddr = Inr host"
  shows "\<exists>a. pe_Addrs env host = addrs_factory (pe_ip4 env) (listens a)"
  using assms announced by (fastforce simp: newHost_def split: sum.splits)

lemma leader_found:
  assumes "self_address env host = Ret self" and "le_initClosed le" and "le_id le = self"
  shows "dht_bootstrap env (Some er) hostID le w =
    Ret (if pe_ID env host = hostID then [] else [\<lparr>ai_ID = pe_ID env host, ai_Addrs = [hd (pe_Addrs env host)]\<rparr>],
      pe_send env (Connected_event er) w)"
proof -
  obtain a as where a: "pe_Addrs env host = a # as" and self: "self = pe_String env a @ ''/p2p/'' @ pe_ID env host"
    using assms(1) by (auto simp: self_address_def split: list.splits)
  obtain m where "pe_newMultiaddr env self = Inr m" "pe_addrInfo env m = Inr \<lparr>ai_ID = pe_ID env host, ai_Addrs = [a]\<rparr>"
    using p2p_address [of a host] self by blast
  then show ?thesis
    using a assms(2,3) by (simp add: dht_bootstrap_def Leader_def bootstrap_peers_def FromContext_events_def node_k8sEvent_def)
qed

end

subsection \<open>What a new router guarantees\<close>

lemma NewRouter_Inr:
  assumes "NewRouter env ctx clientset hostAddr port w = Ret (Inr r, w')"
  obtains host self rl n kdht v v' where "newHost (pe_newMultiaddr env) (pe_libp2pNew env) (pe_ip4 env) hostAddr = Inr host"
    and "self_address env host = Ret self"
    and "pe_newLock env (k8_Interface clientset) (k8_Namespace clientset) ''peerd-leader-election'' self = Inr rl"
    and "pe_dhtNew env host (dhtOpts env ctx (pe_ID env host)) v = (Inr kdht, v')"
    and "New_peernet (pe_newIdentity env) (pe_configForPeer env) host = Inr n" and "r = router_object env clientset n host kdht port"
proof -
  obtain host where host: "newHost (pe_newMultiaddr env) (pe_libp2pNew env) (pe_ip4 env) hostAddr = Inr host"
    using assms by (auto simp: NewRouter_def split: sum.splits)
  obtain self where self: "self_address env host = Ret self" using assms host by (auto simp: NewRouter_def)
  obtain rl where rl: "pe_newLock env (k8_Interface clientset) (k8_Namespace clientset) ''peerd-leader-election'' self = Inr rl"
    using assms host self by (auto simp: NewRouter_def RunOrDie_def split: sum.splits)
  then obtain v where "build_router env ctx clientset host port v = (Inr r, w')"
    using assms host self by (auto simp: NewRouter_def RunOrDie_def)
  then obtain n kdht v' where "pe_dhtNew env host (dhtOpts env ctx (pe_ID env host)) v = (Inr kdht, v')"
      "New_peernet (pe_newIdentity env) (pe_configForPeer env) host = Inr n" "r = router_object env clientset n host kdht port"
    by (auto simp: build_router_def split: prod.splits option.splits sum.splits)
  then show thesis using that host self rl by blast
qed

definition usable :: "('m \<Rightarrow> string result) \<Rightarrow> 'm \<Rightarrow> bool" where
  "usable ip4 a \<longleftrightarrow> (case ip4 a of Inl e \<Rightarrow> False | Inr v \<Rightarrow> v \<noteq> [] \<and> v \<noteq> ''127.0.0.1'')"

lemma addrs_factory_find: "addrs_factory ip4 addrs = (case find (usable ip4) addrs of None \<Rightarrow> [] | Some a \<Rightarrow> [a])"
  by (induction addrs) (auto simp: usable_def split: sum.splits)

text \<open>
  C25: every node bootstraps from the leader. Take two nodes of a network that have created their routers
  (or one node twice). The first takes part in the election under some identity; the second has created
  the DHT in which its router looks up and advertises content with a bootstrap function. Once the
  announcements that the second node has handled, one after another and not overlapping, end with the
  first node's identity, this bootstrap function returns the first node, with an address that is neither
  empty nor the loopback address, or nobody when the two are the same node, and reports that the second
  node is connected.
\<close>

theorem nodes_bootstrap_from_leader:
  assumes "libp2p env listens" and "NewRouter env ctx clientset hostAddr port w = Ret (Inr r, w')"
    and "NewRouter env (Some er) clientset2 hostAddr2 port2 w2 = Ret (Inr r2, w2')"
  shows "\<exists>self rl a host2 opts kdht v v'.
    pe_newLock env (k8_Interface clientset) (k8_Namespace clientset) ''peerd-leader-election'' self = Inr rl
    \<and> usable (pe_ip4 env) a
    \<and> pe_dhtNew env host2 opts v = (Inr kdht, v') \<and> ro_findProviders r2 = pe_findProviders env kdht \<and> ro_provide r2 = pe_provide env kdht
    \<and> (\<forall>is le u. onNewLeaders is New_election = Ret le \<longrightarrow> spec_leader is = Some self \<longrightarrow>
        dh_BootstrapPeers opts le u = Ret (if ro_hostID r = ro_hostID r2 then [] else [\<lparr>ai_ID = ro_hostID r, ai_Addrs = [a]\<rparr>],
          pe_send env (Connected_event er) u))"
proof -
  obtain host self rl n kd where host: "newHost (pe_newMultiaddr env) (pe_libp2pNew env) (pe_ip4 env) hostAddr = Inr host"
    and self: "self_address env host = Ret self"
    and rl: "pe_newLock env (k8_Interface clientset) (k8_Namespace clientset) ''peerd-leader-election'' self = Inr rl"
    and r: "r = router_object env clientset n host kd port"
    using NewRouter_Inr [OF assms(2)] by metis
  obtain host2 n2 kdht v v' where dht: "pe_dhtNew env host2 (dhtOpts env (Some er) (pe_ID env host2)) v = (Inr kdht, v')"
    and r2: "r2 = router_object env clientset2 n2 host2 kdht port2"
    using NewRouter_Inr [OF assms(3)] by metis
  have a: "usable (pe_ip4 env) (hd (pe_Addrs env host))"
    using libp2p.newHost_address [OF assms(1) host] self
    by (auto simp: addrs_factory_find self_address_def find_Some_iff split: option.splits list.splits)
  have ids: "ro_hostID r = pe_ID env host" "ro_hostID r2 = pe_ID env host2" by (simp_all add: r r2 router_object_def Let_def)
  have fns: "ro_findProviders r2 = pe_findProviders env kdht" "ro_provide r2 = pe_provide env kdht"
    by (simp_all add: r2 router_object_def Let_def)
  have "dh_BootstrapPeers (dhtOpts env (Some er) (pe_ID env host2)) le u =
      Ret (if ro_hostID r = ro_hostID r2 then [] else [\<lparr>ai_ID = ro_hostID r, ai_Addrs = [hd (pe_Addrs env host)]\<rparr>], pe_send env (Connected_event er) u)"
    if "onNewLeaders is New_election = Ret le" "spec_leader is = Some self" for "is" le u
  proof -
    have "le_initClosed le" "le_id le = self" using onNewLeaders_spec [of "is"] that by (auto simp: abs_leader_def split: if_splits)
    then show ?thesis using libp2p.leader_found [OF assms(1) self, of le er "pe_ID env host2" u] by (simp add: dhtOpts_def ids)
  qed
  then show ?thesis using rl a dht fns by blast
qed

text \<open>
  C26: peers are authenticated. The clients that a router hands out for a peer verify the certificate
  of the other side with the callback that the node's identity gives for exactly this peer; the
  mirror's round tripper and the reader's client use the same transport.
\<close>

theorem router_authenticates_peers:
  assumes "NewRouter env ctx clientset hostAddr port w = Ret (Inr r, w')" and "pid \<noteq> []"
  shows "\<exists>host i t. newHost (pe_newMultiaddr env) (pe_libp2pNew env) (pe_ip4 env) hostAddr = Inr host \<and> pe_newIdentity env host = Inr i
    \<and> tc_VerifyPeerCertificate (tr_TLSClientConfig t) = Some (snd (pe_configForPeer env i pid))
    \<and> tc_Certificates (tr_TLSClientConfig t) = fst (pe_configForPeer env i pid)
    \<and> nw_RoundTripperFor (ro_net r) pid = pe_RoundTrip env t
    \<and> nw_HTTPClientFor (ro_net r) pid = pe_Do env \<lparr>hc_Transport = Some t, hc_Timeout = defaultTimeout\<rparr>"
proof -
  obtain host n kdht where host: "newHost (pe_newMultiaddr env) (pe_libp2pNew env) (pe_ip4 env) hostAddr = Inr host"
    and n: "New_peernet (pe_newIdentity env) (pe_configForPeer env) host = Inr n" and r: "r = router_object env clientset n host kdht port"
    using NewRouter_Inr [OF assms(1)] by metis
  obtain i where i: "pe_newIdentity env host = Inr i" and "pn_id n = i"
    using n by (auto simp: New_peernet_def Let_def split: sum.splits)
  then have t: "tc_VerifyPeerCertificate (tr_TLSClientConfig (transportFor (pe_configForPeer env) n pid)) = Some (snd (pe_configForPeer env i pid))"
    "tc_Certificates (tr_TLSClientConfig (transportFor (pe_configForPeer env) n pid)) = fst (pe_configForPeer env i pid)"
    using assms(2) by (simp_all add: transportFor_def split: prod.split)
  have "nw_RoundTripperFor (ro_net r) pid = pe_RoundTrip env (transportFor (pe_configForPeer env) n pid)"
    "nw_HTTPClientFor (ro_net r) pid = pe_Do env \<lparr>hc_Transport = Some (transportFor (pe_configForPeer env) n pid), hc_Timeout = defaultTimeout\<rparr>"
    using r assms(2) by (simp_all add: router_object_def peer_net_def HTTPClientFor_def RoundTripperFor_def Let_def)
  then show ?thesis using host i t by blast
qed

text \<open>
  A node that listens on no address with a usable IPv4 component crashes: the address factory leaves
  no address, and \<open>NewRouter\<close> reads the first one.
\<close>

theorem NewRouter_panics_without_address:
  assumes "libp2p env listens" and "\<forall>a. \<forall>x \<in> set (listens a). \<not> usable (pe_ip4 env) x"
    and "newHost (pe_newMultiaddr env) (pe_libp2pNew env) (pe_ip4 env) hostAddr = Inr host"
  shows "NewRouter env ctx clientset hostAddr port w = Panic IndexOutOfRange"
proof -
  obtain a where "pe_Addrs env host = addrs_factory (pe_ip4 env) (listens a)" using libp2p.newHost_address [OF assms(1,3)] by blast
  moreover have "find (usable (pe_ip4 env)) (listens a) = None" using assms(2) by (simp add: find_None_iff)
  ultimately show ?thesis by (simp add: NewRouter_def assms(3) self_address_def addrs_factory_find)
qed

subsection \<open>A host in a network of strings\<close>

text \<open>Multiaddresses are their strings and a host is the list of its announced addresses.\<close>

definition demo_ip4 :: "string \<Rightarrow> string result" where
  "demo_ip4 a = (case Split a CHR ''/'' of _ # p # v # _ \<Rightarrow> if p = ''ip4'' then Inr v else Inl (Errorf ''no ip4'') | _ \<Rightarrow> Inl (Errorf ''no ip4''))"

definition demo_addrInfo :: "string \<Rightarrow> string AddrInfo result" where
  "demo_addrInfo m = (let pid = rev (takeWhile (\<lambda>c. c \<noteq> CHR ''/'') (rev m))
     in Inr \<lparr>ai_ID = pid, ai_Addrs = [take (length m - length pid - 5) m]\<rparr>)"

definition demo_p2p :: "string list \<Rightarrow> (string, string list, unit, unit, string, string, string, string, bytes, k8sEvent list) p2p_env" where
  "demo_p2p listen = \<lparr>pe_newMultiaddr = Inr, pe_ip4 = demo_ip4, pe_String = (\<lambda>a. a), pe_addrInfo = demo_addrInfo,
     pe_libp2pNew = (\<lambda>a factory. Inr (factory listen)), pe_Addrs = (\<lambda>h. h), pe_ID = (\<lambda>h. ''QmA''),
     pe_newLock = (\<lambda>k8s ns name identity. Inr identity), pe_goElect = (\<lambda>cfg w. w), pe_dhtNew = (\<lambda>h opts. Pair (Inr ())), pe_dhtBootstrap = (\<lambda>d. Pair None),
     pe_findProviders = (\<lambda>d c n. Pair []), pe_provide = (\<lambda>d c. Pair None), pe_prefixSum = (\<lambda>p. Inr),
     pe_newCache = Pair None, pe_cacheGet = (\<lambda>k. Pair None), pe_cacheSetWithTTL = (\<lambda>k v c t w. w),
     pe_newIdentity = (\<lambda>h. Inr ''key''), pe_configForPeer = (\<lambda>i pid. (i, pid)),
     pe_Do = (\<lambda>c r w. (Inl EOF, w)), pe_RoundTrip = (\<lambda>t r w. (Inl EOF, w)),
     pe_getNode = (\<lambda>i n. Inr \<lparr>om_Name = n, om_Namespace = [], om_UID = [], om_APIVersion = []\<rparr>),
     pe_getPod = (\<lambda>i ns n. Inr \<lparr>om_Name = n, om_Namespace = ns, om_UID = [], om_APIVersion = []\<rparr>), pe_send = (\<lambda>ev w. w @ [ev])\<rparr>"

interpretation demo: libp2p "demo_p2p listen" "\<lambda>a. listen" for listen
  by unfold_locales (auto simp: demo_p2p_def demo_addrInfo_def)

definition demo_pod :: "unit ClientSet" where
  "demo_pod = \<lparr>k8_Interface = (), k8_InPod = True, k8_Namespace = ''peerd-ns'', k8_Name = ''peerd-0''\<rparr>"

definition demo_listen :: "string list" where
  "demo_listen = [''/ip4/127.0.0.1/tcp/5003'', ''/ip4/10.0.0.7/tcp/5003'']"

definition demo_recorder :: ObjectReference where
  "demo_recorder = \<lparr>or_Kind = ''Pod'', or_Name = ''peerd-0'', or_Namespace = ''peerd-ns'', or_UID = [], or_APIVersion = []\<rparr>"

lemma demo_router_created:
  obtains r where "NewRouter (demo_p2p demo_listen) (Some demo_recorder) demo_pod ''0.0.0.0:5003'' ''5001'' [] = Ret (Inr r, [])" and "ro_hostID r = ''QmA''"
proof -
  have "case NewRouter (demo_p2p demo_listen) (Some demo_recorder) demo_pod ''0.0.0.0:5003'' ''5001'' [] of
      Ret (Inr r, w) \<Rightarrow> ro_hostID r = ''QmA'' \<and> w = [] | _ \<Rightarrow> False" by code_simp
  then show thesis using that by (auto split: outcome.split_asm prod.split_asm sum.split_asm)
qed

theorem nodes_bootstrap_from_leader_witness:
  "\<exists>r self a host2 opts kdht v v'. NewRouter (demo_p2p demo_listen) (Some demo_recorder) demo_pod ''0.0.0.0:5003'' ''5001'' [] = Ret (Inr r, [])
    \<and> usable demo_ip4 a
    \<and> pe_dhtNew (demo_p2p demo_listen) host2 opts v = (Inr kdht, v') \<and> ro_provide r = pe_provide (demo_p2p demo_listen) kdht
    \<and> (\<forall>is le. onNewLeaders is New_election = Ret le \<longrightarrow> spec_leader is = Some self \<longrightarrow>
        dh_BootstrapPeers opts le [] = Ret ([], [Connected_event demo_recorder]))"
proof -
  obtain r where r: "NewRouter (demo_p2p demo_listen) (Some demo_recorder) demo_pod ''0.0.0.0:5003'' ''5001'' [] = Ret (Inr r, [])"
    by (rule demo_router_created)
  have eqs: "pe_ip4 (demo_p2p demo_listen) = demo_ip4" "pe_send (demo_p2p demo_listen) (Connected_event demo_recorder) [] = [Connected_event demo_recorder]"
    by (simp_all add: demo_p2p_def)
  from nodes_bootstrap_from_leader [OF demo.libp2p_axioms r r] obtain self a host2 opts kdht v v' where
    "usable demo_ip4 a" "pe_dhtNew (demo_p2p demo_listen) host2 opts v = (Inr kdht, v')" "ro_provide r = pe_provide (demo_p2p demo_listen) kdht"
    "\<And>is le u. onNewLeaders is New_election = Ret le \<Longrightarrow> spec_leader is = Some self \<Longrightarrow>
        dh_BootstrapPeers opts le u = Ret ([], pe_send (demo_p2p demo_listen) (Connected_event demo_recorder) u)"
    unfolding eqs(1) simp_thms if_True by blast
  then show ?thesis using r eqs(2) by metis
qed

theorem router_authenticates_peers_witness:
  "\<exists>r i t. NewRouter (demo_p2p demo_listen) (Some demo_recorder) demo_pod ''0.0.0.0:5003'' ''5001'' [] = Ret (Inr r, [])
    \<and> tc_VerifyPeerCertificate (tr_TLSClientConfig t) = Some (snd (pe_configForPeer (demo_p2p demo_listen) i ''QmB''))
    \<and> nw_RoundTripperFor (ro_net r) ''QmB'' = pe_RoundTrip (demo_p2p demo_listen) t"
proof -
  obtain r where r: "NewRouter (demo_p2p demo_listen) (Some demo_recorder) demo_pod ''0.0.0.0:5003'' ''5001'' [] = Ret (Inr r, [])"
    by (rule demo_router_created)
  then show ?thesis using router_authenticates_peers [OF r, of "''QmB''"] by blast
qed

theorem NewRouter_panics_without_address_witness:
  "NewRouter (demo_p2p [''/ip4/127.0.0.1/tcp/5003'']) None demo_pod ''0.0.0.0:5003'' ''5001'' [] = Panic IndexOutOfRange"
proof (rule NewRouter_panics_without_address [OF demo.libp2p_axioms])
  have "\<not> usable demo_ip4 ''/ip4/127.0.0.1/tcp/5003''" by code_simp
  then show "\<forall>a. \<forall>x \<in> set [''/ip4/127.0.0.1/tcp/5003'']. \<not> usable (pe_ip4 (demo_p2p [''/ip4/127.0.0.1/tcp/5003''])) x"
    by (simp add: demo_p2p_def)
  show "newHost (pe_newMultiaddr (demo_p2p [''/ip4/127.0.0.1/tcp/5003''])) (pe_libp2pNew (demo_p2p [''/ip4/127.0.0.1/tcp/5003'']))
      (pe_ip4 (demo_p2p [''/ip4/127.0.0.1/tcp/5003''])) ''0.0.0.0:5003'' = Inr []" by code_simp
qed

end
