(* ===== verification/Prometheus_Metrics.thy ===== *)
theory Prometheus_Metrics
  imports Complex_Main Network_Interface
begin

section \<open>Metrics: \<open>src/pkg/metrics/prometheus.go\<close> and \<open>interface.go\<close>\<close>

text \<open>
  Model of the metrics recorder: four histograms with labels, registered once, and the observations
  that the four methods of \<open>Metrics\<close> make. The Prometheus client is an external package: the record
  \<open>registerer\<close> holds the two calls that are made of it, and its documented behaviour (registering a
  second collector of the same name panics, and so does an observation with the wrong number of label
  values or with one that is not UTF-8) is the locale \<open>prometheus\<close>. Values are float64.
\<close>

subsection \<open>float64\<close>

text \<open>
  Finite values are rationals; the two zeros are not told apart, because the code never divides by a
  negative zero (durations are not negative). Rounding is to nearest, ties to even, with gradual
  underflow and overflow to infinity.
\<close>

datatype float64 = Fin rat | PosInf | NegInf | NaN

definition pow2 :: "int \<Rightarrow> rat" where
  "pow2 e = (if 0 \<le> e then 2 ^ nat e else 1 / 2 ^ nat (- e))"

function floor_log2 :: "int \<Rightarrow> nat" where
  "floor_log2 n = (if n < 2 then 0 else Suc (floor_log2 (n div 2)))"
  by pat_completeness auto
termination by (relation "measure nat") auto

declare floor_log2.simps [simp del]

text \<open>The exponent of a positive rational: the largest \<open>e\<close> with \<open>2\<^sup>e \<le> q\<close>.\<close>

definition exponent2 :: "rat \<Rightarrow> int" where
  "exponent2 q =
     (case quotient_of q of (a, b) \<Rightarrow>
       let e = int (floor_log2 a) - int (floor_log2 b) in if pow2 e \<le> q then e else e - 1)"

definition round_even :: "rat \<Rightarrow> int" where
  "round_even q =
     (let n = \<lfloor>q\<rfloor>; r = q - of_int n in if r < 1 / 2 then n else if 1 / 2 < r then n + 1 else if even n then n else n + 1)"

definition round64 :: "rat \<Rightarrow> float64" where
  "round64 q =
     (if q = 0 then Fin 0
      else (let ulp = pow2 (max (exponent2 \<bar>q\<bar>) (- 1022) - 52);
                v = of_int (round_even (\<bar>q\<bar> / ulp)) * ulp
            in if pow2 1024 \<le> v then (if q < 0 then NegInf else PosInf) else Fin (if q < 0 then - v else v)))"

definition float_of_int :: "int64 \<Rightarrow> float64" where
  "float_of_int n = round64 (of_int n)"

fun fdiv :: "float64 \<Rightarrow> float64 \<Rightarrow> float64" where
  "fdiv NaN y = NaN"
| "fdiv x NaN = NaN"
| "fdiv (Fin a) (Fin b) = (if b \<noteq> 0 then round64 (a / b) else if a = 0 then NaN else if 0 < a then PosInf else NegInf)"
| "fdiv (Fin a) y = Fin 0"
| "fdiv PosInf (Fin b) = (if b < 0 then NegInf else PosInf)"
| "fdiv NegInf (Fin b) = (if b < 0 then PosInf else NegInf)"
| "fdiv x y = NaN"

subsection \<open>The recorder\<close>

text \<open>The buckets are the arguments of \<open>prometheus.LinearBuckets\<close>.\<close>

record histogramVec =
  hv_Name :: string
  hv_Help :: string
  hv_Buckets :: "float64 \<times> float64 \<times> nat"
  hv_labels :: "string list"

record 'w registerer =
  pr_MustRegister :: "histogramVec \<Rightarrow> 'w \<Rightarrow> 'w outcome"
  pr_Observe :: "histogramVec \<Rightarrow> string list \<Rightarrow> float64 \<Rightarrow> 'w \<Rightarrow> 'w outcome"

record promMetrics =
  pm_name :: string
  pm_requestDuration :: histogramVec
  pm_peerDiscoveryDuration :: histogramVec
  pm_peerResponseSpeed :: histogramVec
  pm_upstreamResponseSpeed :: histogramVec

definition RecordPeerDiscovery :: "'w registerer \<Rightarrow> promMetrics \<Rightarrow> string \<Rightarrow> float64 \<Rightarrow> 'w \<Rightarrow> 'w outcome" where
  "RecordPeerDiscovery reg m ip duration w = pr_Observe reg (pm_peerDiscoveryDuration m) [pm_name m, ip] duration w"

text \<open>Bytes per second in units of 1024 * 1024.\<close>

definition speed :: "int64 \<Rightarrow> float64 \<Rightarrow> float64" where
  "speed count duration = (let bps = fdiv (float_of_int count) duration in fdiv bps (float_of_int (1024 * 1024)))"

definition RecordPeerResponse :: "'w registerer \<Rightarrow> promMetrics \<Rightarrow> string \<Rightarrow> string \<Rightarrow> string \<Rightarrow> float64 \<Rightarrow> int64 \<Rightarrow> 'w \<Rightarrow> 'w outcome" where
  "RecordPeerResponse reg m ip key op duration count w =
     pr_Observe reg (pm_peerResponseSpeed m) [pm_name m, ip, op] (speed count duration) w"

definition RecordRequest :: "'w registerer \<Rightarrow> promMetrics \<Rightarrow> string \<Rightarrow> string \<Rightarrow> float64 \<Rightarrow> 'w \<Rightarrow> 'w outcome" where
  "RecordRequest reg m method handler duration w =
     pr_Observe reg (pm_requestDuration m) [pm_name m, method, handler] duration w"

definition RecordUpstreamResponse :: "'w registerer \<Rightarrow> promMetrics \<Rightarrow> string \<Rightarrow> string \<Rightarrow> string \<Rightarrow> float64 \<Rightarrow> int64 \<Rightarrow> 'w \<Rightarrow> 'w outcome" where
  "RecordUpstreamResponse reg m hostname key op duration count w =
     pr_Observe reg (pm_upstreamResponseSpeed m) [pm_name m, hostname, op] (speed count duration) w"

definition requestDurationHist :: "string \<Rightarrow> histogramVec" where
  "requestDurationHist pfx = \<lparr>hv_Name = pfx @ ''_request_duration_seconds'', hv_Help = ''Duration of requests in seconds.'',
     hv_Buckets = (round64 (5 / 1000), round64 (25 / 1000), 200), hv_labels = [''self'', ''method'', ''handler'']\<rparr>"

definition peerDiscoveryDurationHist :: "string \<Rightarrow> histogramVec" where
  "peerDiscoveryDurationHist pfx = \<lparr>hv_Name = pfx @ ''_peer_discovery_duration_seconds'', hv_Help = ''Duration of peer discovery in seconds.'',
     hv_Buckets = (round64 (1 / 1000), round64 (2 / 1000), 200), hv_labels = [''self'', ''ip'']\<rparr>"

definition peerResponseDurationHist :: "string \<Rightarrow> histogramVec" where
  "peerResponseDurationHist pfx = \<lparr>hv_Name = pfx @ ''_peer_response_speed_mib_per_second'', hv_Help = ''Speed of peer response in Mib per second.'',
     hv_Buckets = (Fin 1, Fin 15, 200), hv_labels = [''self'', ''ip'', ''op'']\<rparr>"

definition upstreamResponseDurationHist :: "string \<Rightarrow> histogramVec" where
  "upstreamResponseDurationHist pfx = \<lparr>hv_Name = pfx @ ''_upstream_response_speed_mib_per_second'', hv_Help = ''Speed of upstream response in Mib per second.'',
     hv_Buckets = (Fin 1, Fin 15, 200), hv_labels = [''self'', ''hostname'', ''op'']\<rparr>"

definition NewPromMetrics :: "'w registerer \<Rightarrow> string \<Rightarrow> string \<Rightarrow> 'w \<Rightarrow> (promMetrics \<times> 'w) outcome" where
  "NewPromMetrics reg name pfx w =
     obind (pr_MustRegister reg (requestDurationHist pfx) w) (\<lambda>w.
     obind (pr_MustRegister reg (peerDiscoveryDurationHist pfx) w) (\<lambda>w.
     obind (pr_MustRegister reg (peerResponseDurationHist pfx) w) (\<lambda>w.
     obind (pr_MustRegister reg (upstreamResponseDurationHist pfx) w) (\<lambda>w.
       Ret (\<lparr>pm_name = name, pm_requestDuration = requestDurationHist pfx, pm_peerDiscoveryDuration = peerDiscoveryDurationHist pfx,
         pm_peerResponseSpeed = peerResponseDurationHist pfx, pm_upstreamResponseSpeed = upstreamResponseDurationHist pfx\<rparr>, w)))))"

text \<open>
  The value of the context under the package's key; reading it from a context without it fails in the
  type assertion. \<open>WithContext\<close> tests the result of the constructor for nil, which it never is.
\<close>

definition WithContext_metrics :: "'w registerer \<Rightarrow> string \<Rightarrow> string \<Rightarrow> 'w \<Rightarrow> (promMetrics option result \<times> 'w) outcome" where
  "WithContext_metrics reg name pfx w = obind (NewPromMetrics reg name pfx w) (\<lambda>(pm, w'). Ret (Inr (Some pm), w'))"

definition FromContext_metrics :: "promMetrics option \<Rightarrow> promMetrics outcome" where
  "FromContext_metrics ctx = (case ctx of Some pm \<Rightarrow> Ret pm | None \<Rightarrow> Panic TypeAssertion)"

subsection \<open>Rounding\<close>

lemma floor_log2_le: "0 < n \<Longrightarrow> 2 ^ floor_log2 n \<le> n"
proof (induction n rule: floor_log2.induct)
  case (1 n)
  show ?case
  proof (cases "n < 2")
    case False
    then have "2 ^ floor_log2 (n div 2) \<le> n div 2" using 1 by simp
    then show ?thesis using False by (subst floor_log2.simps) simp
  qed (use 1 in \<open>simp add: floor_log2.simps\<close>)
qed

lemma floor_log2_less: "n < 2 ^ Suc (floor_log2 n)"
proof (induction n rule: floor_log2.induct)
  case (1 n)
  show ?case
  proof (cases "n < 2")
    case False
    then have "n div 2 < 2 ^ Suc (floor_log2 (n div 2))" using 1 by simp
    then show ?thesis using False by (subst floor_log2.simps) simp
  qed (simp add: floor_log2.simps)
qed

lemma pow2_pos [simp]: "0 < pow2 e"
  by (simp add: pow2_def)

lemma pow2_powi: "pow2 e = 2 powi e"
  by (simp add: pow2_def power_int_def inverse_eq_divide power_one_over)

lemma pow2_add: "pow2 (a + b) = pow2 a * pow2 b"
  by (simp add: pow2_powi power_int_add)

lemma pow2_mono: "a \<le> b \<Longrightarrow> pow2 a \<le> pow2 b"
  by (simp add: pow2_powi power_int_increasing)

lemma exponent2_le:
  assumes "0 < q"
  shows "pow2 (exponent2 q) \<le> q"
proof -
  obtain a b where ab: "quotient_of q = (a, b)" by fastforce
  then have b: "0 < b" and q: "q = of_int a / of_int b" using quotient_of_denom_pos quotient_of_div by auto
  then have a: "0 < a" using assms by (simp add: zero_less_divide_iff)
  let ?la = "floor_log2 a" and ?lb = "floor_log2 b"
  have "(2::rat) ^ ?la \<le> of_int a" using of_int_le_iff [THEN iffD2, OF floor_log2_le [OF a], where 'a1 = rat] by simp
  moreover have "of_int b \<le> (2::rat) ^ Suc ?lb" using of_int_le_iff [THEN iffD2, OF less_imp_le [OF floor_log2_less [of b]], where 'a1 = rat] by simp
  ultimately have "(2::rat) ^ ?la / 2 ^ Suc ?lb \<le> q" unfolding q using a b by (intro frac_le) auto
  moreover have "pow2 (int ?la - int ?lb - 1) = (2::rat) ^ ?la / 2 ^ Suc ?lb"
    by (simp add: pow2_powi power_int_diff)
  ultimately show ?thesis by (simp add: exponent2_def ab Let_def)
qed

lemma round_even_bounds: "q - 1 / 2 \<le> of_int (round_even q)" "of_int (round_even q) \<le> q + 1 / 2"
proof -
  have "of_int \<lfloor>q\<rfloor> \<le> q" "q < of_int \<lfloor>q\<rfloor> + 1" by linarith+
  then show "q - 1 / 2 \<le> of_int (round_even q)" "of_int (round_even q) \<le> q + 1 / 2"
    unfolding round_even_def Let_def by (auto split: if_splits; linarith)+
qed

lemma round_even_int [simp]: "round_even (of_int n) = n"
  by (simp add: round_even_def)

text \<open>Integers up to 64 bits stay finite, and do not become zero.\<close>

lemma round64_int:
  assumes "in_int64 n"
  obtains v where "float_of_int n = Fin v" and "v = 0 \<longleftrightarrow> n = 0"
proof (cases "n = 0")
  case True
  then show thesis using that [of 0] by (simp add: float_of_int_def round64_def)
next
  case False
  let ?q = "\<bar>of_int n :: rat\<bar>"
  define ulp where "ulp = pow2 (max (exponent2 ?q) (- 1022) - 52)"
  define v where "v = of_int (round_even (?q / ulp)) * ulp"
  have q: "1 \<le> ?q" using False by (simp add: abs_if)
  have le: "pow2 (max (exponent2 ?q) (- 1022)) \<le> ?q"
  proof (cases "exponent2 ?q \<le> - 1022")
    case True
    have "pow2 (- 1022) \<le> pow2 0" by (rule pow2_mono) simp
    then show ?thesis using True q by (simp add: max_def pow2_def)
  next
    case False
    then show ?thesis using exponent2_le [of ?q] q by (simp add: max_def)
  qed
  have "ulp = pow2 (max (exponent2 ?q) (- 1022)) * pow2 (- 52)" unfolding ulp_def by (simp flip: pow2_add)
  also have "\<dots> \<le> ?q * pow2 (- 52)" using le less_imp_le [OF pow2_pos] by (intro mult_right_mono)
  also have "\<dots> \<le> ?q * 1" using q by (intro mult_left_mono) (auto simp: pow2_def)
  finally have ulp: "0 < ulp" "ulp \<le> ?q" by (simp_all add: ulp_def)
  have "1 / 2 \<le> ?q / ulp - 1 / 2" using ulp by (simp add: field_simps)
  then have "0 < of_int (round_even (?q / ulp)) * ulp" using round_even_bounds(1) [of "?q / ulp"] ulp(1)
    by (intro mult_pos_pos) linarith+
  then have pos: "0 < v" by (simp add: v_def)
  have "v \<le> (?q / ulp + 1 / 2) * ulp" unfolding v_def using round_even_bounds(2) ulp(1) by (intro mult_right_mono) auto
  also have "\<dots> \<le> 2 * ?q" using ulp by (simp add: field_simps)
  also have "\<dots> \<le> of_int (2 ^ 64)" using assms unfolding in_int64_def by (simp add: abs_le_iff)
  also have "\<dots> < pow2 1024" by (simp add: pow2_def)
  finally have "\<not> pow2 1024 \<le> v" by simp
  then have "float_of_int n = Fin (if n < 0 then - v else v)"
    using False by (simp add: float_of_int_def round64_def Let_def v_def ulp_def)
  then show thesis using that pos False by (cases "n < 0") auto
qed

lemma round64_not_NaN [simp]: "round64 q \<noteq> NaN"
  by (simp add: round64_def Let_def)

text \<open>
  A speed is not a number exactly when no bytes arrived in no time: a response whose body is empty and
  that takes less than the resolution of the clock.
\<close>

lemma speed_NaN_iff:
  assumes "in_int64 count"
  shows "speed count (Fin d) = NaN \<longleftrightarrow> count = 0 \<and> d = 0"
proof -
  obtain a where a: "float_of_int count = Fin a" "a = 0 \<longleftrightarrow> count = 0" using round64_int [OF assms] by blast
  obtain b where b: "float_of_int (1024 * 1024) = Fin b" "b \<noteq> 0"
    using round64_int [of "1024 * 1024"] by (auto simp: in_int64_def)
  have "fdiv x (Fin b) = NaN \<longleftrightarrow> x = NaN" for x using b(2) by (cases x) auto
  then show ?thesis using a b by (auto simp: speed_def Let_def)
qed

subsection \<open>The contract of the client library\<close>

text \<open>\<open>utf8.ValidString\<close>.\<close>

fun utf8_bytes :: "nat list \<Rightarrow> bool" where
  "utf8_bytes [] = True"
| "utf8_bytes (b # bs) =
     (let cont = (\<lambda>c. 128 \<le> c \<and> c < 192) in
      if b < 128 then utf8_bytes bs
      else if 194 \<le> b \<and> b < 224 then (case bs of c # r \<Rightarrow> cont c \<and> utf8_bytes r | _ \<Rightarrow> False)
      else if 224 \<le> b \<and> b < 240 then
        (case bs of c # d # r \<Rightarrow> (if b = 224 then 160 else 128) \<le> c \<and> c < (if b = 237 then 160 else 192) \<and> cont d \<and> utf8_bytes r | _ \<Rightarrow> False)
      else if 240 \<le> b \<and> b < 245 then
        (case bs of c # d # e # r \<Rightarrow> (if b = 240 then 144 else 128) \<le> c \<and> c < (if b = 244 then 144 else 192) \<and> cont d \<and> cont e \<and> utf8_bytes r
         | _ \<Rightarrow> False)
      else False)"

definition ValidString :: "string \<Rightarrow> bool" where
  "ValidString s \<longleftrightarrow> utf8_bytes (map of_char s)"

locale prometheus =
  fixes reg :: "'w registerer" and registered :: "'w \<Rightarrow> histogramVec list" and observed :: "'w \<Rightarrow> (string \<times> string list \<times> float64) list"
  assumes register: "hv_Name h \<notin> hv_Name ` set (registered w) \<Longrightarrow>
      \<exists>w'. pr_MustRegister reg h w = Ret w' \<and> registered w' = registered w @ [h] \<and> observed w' = observed w"
    and observe: "h \<in> set (registered w) \<Longrightarrow> length vals = length (hv_labels h) \<Longrightarrow> list_all ValidString vals \<Longrightarrow>
      \<exists>w'. pr_Observe reg h vals x w = Ret w' \<and> registered w' = registered w \<and> observed w' = observed w @ [(hv_Name h, vals, x)]"
    and observe_invalid: "h \<in> set (registered w) \<Longrightarrow> \<not> list_all ValidString vals \<Longrightarrow> \<exists>msg. pr_Observe reg h vals x w = Panic (ExplicitPanic msg)"

text \<open>The calls of the interface, and the observation that each of them stands for.\<close>

datatype metrics_call =
    DiscoveryCall string float64
  | PeerCall string string string float64 int64
  | RequestCall string string float64
  | UpstreamCall string string string float64 int64

fun record_call :: "'w registerer \<Rightarrow> promMetrics \<Rightarrow> metrics_call \<Rightarrow> 'w \<Rightarrow> 'w outcome" where
  "record_call reg m (DiscoveryCall ip duration) w = RecordPeerDiscovery reg m ip duration w"
| "record_call reg m (PeerCall ip key op duration count) w = RecordPeerResponse reg m ip key op duration count w"
| "record_call reg m (RequestCall method handler duration) w = RecordRequest reg m method handler duration w"
| "record_call reg m (UpstreamCall hostname key op duration count) w = RecordUpstreamResponse reg m hostname key op duration count w"

fun record_calls :: "'w registerer \<Rightarrow> promMetrics \<Rightarrow> metrics_call list \<Rightarrow> 'w \<Rightarrow> 'w outcome" where
  "record_calls reg m [] w = Ret w"
| "record_calls reg m (call # calls) w = obind (record_call reg m call w) (record_calls reg m calls)"

fun observation :: "string \<Rightarrow> string \<Rightarrow> metrics_call \<Rightarrow> string \<times> string list \<times> float64" where
  "observation self pfx (DiscoveryCall ip duration) = (pfx @ ''_peer_discovery_duration_seconds'', [self, ip], duration)"
| "observation self pfx (PeerCall ip key op duration count) = (pfx @ ''_peer_response_speed_mib_per_second'', [self, ip, op], speed count duration)"
| "observation self pfx (RequestCall method handler duration) = (pfx @ ''_request_duration_seconds'', [self, method, handler], duration)"
| "observation self pfx (UpstreamCall hostname key op duration count) =
     (pfx @ ''_upstream_response_speed_mib_per_second'', [self, hostname, op], speed count duration)"

fun label_values :: "string \<Rightarrow> metrics_call \<Rightarrow> string list" where
  "label_values self (DiscoveryCall ip duration) = [self, ip]"
| "label_values self (PeerCall ip key op duration count) = [self, ip, op]"
| "label_values self (RequestCall method handler duration) = [self, method, handler]"
| "label_values self (UpstreamCall hostname key op duration count) = [self, hostname, op]"

definition histograms :: "string \<Rightarrow> histogramVec list" where
  "histograms pfx = [requestDurationHist pfx, peerDiscoveryDurationHist pfx, peerResponseDurationHist pfx, upstreamResponseDurationHist pfx]"

lemmas histogram_defs = requestDurationHist_def peerDiscoveryDurationHist_def peerResponseDurationHist_def upstreamResponseDurationHist_def

text \<open>The type of a recorder: its histograms are those of its prefix.\<close>

definition typed_metrics :: "string \<Rightarrow> string \<Rightarrow> promMetrics \<Rightarrow> bool" where
  "typed_metrics self pfx m \<longleftrightarrow> pm_name m = self \<and>
     [pm_requestDuration m, pm_peerDiscoveryDuration m, pm_peerResponseSpeed m, pm_upstreamResponseSpeed m] = histograms pfx"

context prometheus
begin

lemma record_call_typed:
  assumes "typed_metrics self pfx m" and "set (histograms pfx) \<subseteq> set (registered w)" and "list_all ValidString (label_values self call)"
  shows "\<exists>w'. record_call reg m call w = Ret w' \<and> registered w' = registered w \<and> observed w' = observed w @ [observation self pfx call]"
proof -
  have m: "pm_name m = self" "pm_requestDuration m = requestDurationHist pfx" "pm_peerDiscoveryDuration m = peerDiscoveryDurationHist pfx"
    "pm_peerResponseSpeed m = peerResponseDurationHist pfx" "pm_upstreamResponseSpeed m = upstreamResponseDurationHist pfx"
    using assms(1) by (simp_all add: typed_metrics_def histograms_def)
  have h: "requestDurationHist pfx \<in> set (registered w)" "peerDiscoveryDurationHist pfx \<in> set (registered w)"
    "peerResponseDurationHist pfx \<in> set (registered w)" "upstreamResponseDurationHist pfx \<in> set (registered w)"
    using assms(2) by (simp_all add: histograms_def)
  note obs = observe [OF h(1)] observe [OF h(2)] observe [OF h(3)] observe [OF h(4)]
  show ?thesis
  proof (cases call)
    case (DiscoveryCall ip d)
    then show ?thesis using assms(3) obs(2) [of "[self, ip]" d] by (simp add: RecordPeerDiscovery_def m) (simp add: histogram_defs)
  next
    case (PeerCall ip key op d n)
    then show ?thesis using assms(3) obs(3) [of "[self, ip, op]" "speed n d"] by (simp add: RecordPeerResponse_def m) (simp add: histogram_defs)
  next
    case (RequestCall verb part d)
    then show ?thesis using assms(3) obs(1) [of "[self, verb, part]" d] by (simp add: RecordRequest_def m) (simp add: histogram_defs)
  next
    case (UpstreamCall hostname key op d n)
    then show ?thesis using assms(3) obs(4) [of "[self, hostname, op]" "speed n d"] by (simp add: RecordUpstreamResponse_def m) (simp add: histogram_defs)
  qed
qed

text \<open>A text that is not UTF-8 makes the call panic.\<close>

lemma record_call_invalid:
  assumes "typed_metrics self pfx m" and "set (histograms pfx) \<subseteq> set (registered w)" and "\<not> list_all ValidString (label_values self call)"
  shows "\<exists>msg. record_call reg m call w = Panic (ExplicitPanic msg)"
  using assms observe_invalid
  by (cases call) (auto simp: typed_metrics_def histograms_def RecordPeerDiscovery_def RecordPeerResponse_def RecordRequest_def RecordUpstreamResponse_def)

lemma record_calls_typed:
  assumes "typed_metrics self pfx m" and "set (histograms pfx) \<subseteq> set (registered w)"
    and "list_all (\<lambda>call. list_all ValidString (label_values self call)) calls"
  shows "\<exists>w'. record_calls reg m calls w = Ret w' \<and> observed w' = observed w @ map (observation self pfx) calls"
  using assms(2,3)
proof (induction calls arbitrary: w)
  case (Cons call calls)
  obtain w1 where w1: "record_call reg m call w = Ret w1" "registered w1 = registered w" "observed w1 = observed w @ [observation self pfx call]"
    using record_call_typed [OF assms(1) Cons.prems(1), of call] Cons.prems(2) by auto
  then show ?case using Cons.IH [of w1] Cons.prems by auto
qed simp

lemma NewPromMetrics_typed:
  assumes "hv_Name ` set (histograms pfx) \<inter> hv_Name ` set (registered w) = {}"
  shows "\<exists>m w'. NewPromMetrics reg self pfx w = Ret (m, w') \<and> typed_metrics self pfx m
    \<and> registered w' = registered w @ histograms pfx \<and> observed w' = observed w"
proof -
  have new: "hv_Name h \<notin> hv_Name ` set (registered w)" if "h \<in> set (histograms pfx)" for h using assms that by auto
  obtain w1 where w1: "pr_MustRegister reg (requestDurationHist pfx) w = Ret w1" "registered w1 = registered w @ [requestDurationHist pfx]" "observed w1 = observed w"
    using register [of "requestDurationHist pfx" w] new by (auto simp: histograms_def)
  obtain w2 where w2: "pr_MustRegister reg (peerDiscoveryDurationHist pfx) w1 = Ret w2" "registered w2 = registered w1 @ [peerDiscoveryDurationHist pfx]" "observed w2 = observed w1"
    using register [of "peerDiscoveryDurationHist pfx" w1] new [of "peerDiscoveryDurationHist pfx"] w1(2) by (auto simp: histograms_def histogram_defs)
  obtain w3 where w3: "pr_MustRegister reg (peerResponseDurationHist pfx) w2 = Ret w3" "registered w3 = registered w2 @ [peerResponseDurationHist pfx]" "observed w3 = observed w2"
    using register [of "peerResponseDurationHist pfx" w2] new [of "peerResponseDurationHist pfx"] w1(2) w2(2) by (auto simp: histograms_def histogram_defs)
  obtain w4 where w4: "pr_MustRegister reg (upstreamResponseDurationHist pfx) w3 = Ret w4" "registered w4 = registered w3 @ [upstreamResponseDurationHist pfx]" "observed w4 = observed w3"
    using register [of "upstreamResponseDurationHist pfx" w3] new [of "upstreamResponseDurationHist pfx"] w1(2) w2(2) w3(2) by (auto simp: histograms_def histogram_defs)
  show ?thesis using w1 w2 w3 w4 by (simp add: NewPromMetrics_def typed_metrics_def histograms_def)
qed

end

text \<open>
  C29: a metrics recorder is well typed. In a process that has not registered its four names before,
  creating the recorder succeeds, and no sequence of calls of its methods panics as long as the
  texts it is given are UTF-8: every call gives as many label values as its histogram has labels, and
  makes exactly one observation, in the histogram of its kind, of the duration or of the speed.
\<close>

theorem metrics_never_panic:
  assumes "prometheus reg registered observed" and "hv_Name ` set (histograms pfx) \<inter> hv_Name ` set (registered w) = {}"
  shows "\<exists>m w'. NewPromMetrics reg self pfx w = Ret (m, w') \<and> observed w' = observed w
    \<and> (\<forall>calls. list_all (\<lambda>call. list_all ValidString (label_values self call)) calls \<longrightarrow>
      (\<exists>w''. record_calls reg m calls w' = Ret w'' \<and> observed w'' = observed w @ map (observation self pfx) calls))"
proof -
  obtain m w' where new: "NewPromMetrics reg self pfx w = Ret (m, w')" "typed_metrics self pfx m" "registered w' = registered w @ histograms pfx" "observed w' = observed w"
    using prometheus.NewPromMetrics_typed [OF assms] by blast
  moreover have "set (histograms pfx) \<subseteq> set (registered w')" using new(3) by simp
  ultimately show ?thesis using prometheus.record_calls_typed [OF assms(1) new(2), of w'] by auto
qed

text \<open>A registry in memory, with the documented panics.\<close>

definition mem_registerer :: "(histogramVec list \<times> (string \<times> string list \<times> float64) list) registerer" where
  "mem_registerer = \<lparr>
     pr_MustRegister = (\<lambda>h (hs, obs). if hv_Name h \<in> hv_Name ` set hs then Panic (ExplicitPanic ''duplicate metrics collector registration attempted'')
       else Ret (hs @ [h], obs)),
     pr_Observe = (\<lambda>h vals x (hs, obs). if length vals \<noteq> length (hv_labels h) then Panic (ExplicitPanic ''inconsistent label cardinality'')
       else if \<not> list_all ValidString vals then Panic (ExplicitPanic ''label value is not valid UTF-8'')
       else Ret (hs, obs @ [(hv_Name h, vals, x)]))\<rparr>"

interpretation memreg: prometheus mem_registerer fst snd
  by unfold_locales (auto simp: mem_registerer_def split: prod.splits)

theorem metrics_never_panic_witness:
  "\<exists>m w'. NewPromMetrics mem_registerer ''node1'' ''peerd'' ([], []) = Ret (m, w') \<and> snd w' = []
    \<and> (\<exists>w''. record_calls mem_registerer m [RequestCall ''GET'' ''files'' (Fin 1), DiscoveryCall ''10.0.0.2'' (Fin 0)] w' = Ret w''
      \<and> snd w'' = [(''peerd_request_duration_seconds'', [''node1'', ''GET'', ''files''], Fin 1),
          (''peerd_peer_discovery_duration_seconds'', [''node1'', ''10.0.0.2''], Fin 0)])"
proof -
  let ?calls = "[RequestCall ''GET'' ''files'' (Fin 1), DiscoveryCall ''10.0.0.2'' (Fin 0)]"
  have v: "list_all (\<lambda>call. list_all ValidString (label_values ''node1'' call)) ?calls" by code_simp
  have "hv_Name ` set (histograms ''peerd'') \<inter> hv_Name ` set (fst ([], [])) = {}" by simp
  from metrics_never_panic [OF memreg.prometheus_axioms this, of "''node1''"] obtain m w' where
    m: "NewPromMetrics mem_registerer ''node1'' ''peerd'' ([], []) = Ret (m, w')" "snd w' = []"
      "\<exists>w''. record_calls mem_registerer m ?calls w' = Ret w'' \<and> snd w'' = snd ([], []) @ map (observation ''node1'' ''peerd'') ?calls"
    using v by (metis snd_conv)
  then show ?thesis by (intro exI [of _ m] exI [of _ w']) simp
qed

text \<open>A second recorder with the same prefix cannot be made.\<close>

lemma NewPromMetrics_twice:
  "\<exists>m w'. NewPromMetrics mem_registerer self pfx ([], []) = Ret (m, w')
    \<and> NewPromMetrics mem_registerer self' pfx w' = Panic (ExplicitPanic ''duplicate metrics collector registration attempted'')"
  by (simp add: NewPromMetrics_def mem_registerer_def histogram_defs)

end
