(* ===== verification/Startup.thy ===== *)
theory Startup
  imports Containerd_Hosts Containerd_Store Router_Start Prometheus_Metrics Files_Store V2_Handler Url_Parser
begin

section \<open>Starting and stopping a node: \<open>src/cmd/proxy/main.go\<close>\<close>

text \<open>
  Model of the command that runs a node. It connects to the cluster, reports that it initializes,
  creates the router, configures containerd, opens the stores, creates the handlers and runs the servers.
  The constructors it calls are those of the other theories; the record \<open>startup_env\<close> holds what is called
  of the client libraries, the file systems and the standard library over a world. Every step may fail;
  creating the router, the metrics or the files store may also panic, and a cache that cannot be created
  ends the process. The goroutines of the error group are modelled by how they end: \<open>Blocked\<close>
  is a goroutine that never ends. \<open>main\<close> is modelled from its parsed arguments to its exit code.
\<close>

subsection \<open>Arguments\<close>

record ServerCmd =
  sc_HttpAddr :: string
  sc_HttpsAddr :: string
  sc_RouterAddr :: string
  sc_PromAddr :: string
  sc_PrefetchWorkers :: int64
  sc_Hosts :: "string list"
  sc_AddMirrorConfiguration :: bool
  sc_Mirrors :: "string list"
  sc_ContainerdHostsConfigPath :: string

record Arguments =
  ar_Server :: "ServerCmd option"
  ar_Version :: bool
  ar_LogLevel :: string

fun toUrls :: "string list \<Rightarrow> URL list result" where
  "toUrls [] = Inr []"
| "toUrls (h # hosts) =
     (case url_Parse h of
        Inl e \<Rightarrow> Inl e
      | Inr u \<Rightarrow> (case toUrls hosts of Inl e \<Rightarrow> Inl e | Inr urls \<Rightarrow> Inr (u # urls)))"

definition urls_or_default :: "string \<Rightarrow> string list \<Rightarrow> URL list result" where
  "urls_or_default d hosts =
     (if length hosts > 0 then toUrls hosts
      else Inr [case url_Parse d of Inr u \<Rightarrow> u | Inl e \<Rightarrow> empty_URL])"

subsection \<open>The goroutines of the servers\<close>

text \<open>
  How the servers fare: an error with which \<open>ListenAndServe\<close> returns by itself, if any; the results of
  \<open>Shutdown\<close>; whether SIGTERM arrives; and the order in which the goroutines end.
\<close>

record servers =
  sv_sigterm :: bool
  sv_https :: "go_error option"
  sv_http :: "go_error option"
  sv_prom :: "go_error option"
  sv_shutdownHttps :: "go_error option"
  sv_shutdownHttp :: "go_error option"
  sv_order :: "nat list"

definition ErrServerClosed :: go_error where "ErrServerClosed = NetError ''http: Server closed''"

definition serve_result :: "go_error \<Rightarrow> go_error option" where
  "serve_result e = (if e = ErrServerClosed then None else Some e)"

text \<open>The context of the group ends with the signal or with the first error of a goroutine.\<close>

definition ctx_done :: "servers \<Rightarrow> bool" where
  "ctx_done s \<longleftrightarrow> sv_sigterm s \<or> list_ex (\<lambda>r. case r of Some e \<Rightarrow> serve_result e \<noteq> None | None \<Rightarrow> False) [sv_https s, sv_http s, sv_prom s]"

definition until_done :: "servers \<Rightarrow> 'a \<Rightarrow> 'a outcome" where
  "until_done s x = (if ctx_done s then Ret x else Blocked)"

text \<open>A server with a goroutine that shuts it down when the context ends; the metrics server has none.\<close>

definition serve_task :: "servers \<Rightarrow> go_error option \<Rightarrow> go_error option outcome" where
  "serve_task s listen = (case listen of Some e \<Rightarrow> Ret (serve_result e) | None \<Rightarrow> until_done s (serve_result ErrServerClosed))"

definition prom_task :: "servers \<Rightarrow> go_error option outcome" where
  "prom_task s = (case sv_prom s of Some e \<Rightarrow> Ret (serve_result e) | None \<Rightarrow> Blocked)"

definition group_tasks :: "servers \<Rightarrow> go_error option outcome list" where
  "group_tasks s = [until_done s None, serve_task s (sv_https s), until_done s (sv_shutdownHttps s),
     serve_task s (sv_http s), until_done s (sv_shutdownHttp s), prom_task s]"

text \<open>\<open>errgroup.Group.Wait\<close>: waits for all goroutines and returns the first error in the order of their ends.\<close>

fun first_error :: "go_error option outcome list \<Rightarrow> nat list \<Rightarrow> go_error option" where
  "first_error ts [] = None"
| "first_error ts (i # is) = (case (if i < length ts then ts ! i else Blocked) of Ret (Some e) \<Rightarrow> Some e | _ \<Rightarrow> first_error ts is)"

definition group_Wait :: "go_error option outcome list \<Rightarrow> nat list \<Rightarrow> go_error option outcome" where
  "group_Wait ts order = (if Blocked \<in> set ts then Blocked else Ret (first_error ts order))"

subsection \<open>The parts of a node\<close>

text \<open>What \<open>handlers.Handler\<close> and \<open>NewFilesStore\<close> build; the servers run on it.\<close>

record ('c, 'w) FilesHandler =
  fh_store :: "('c, 'w) Files_Store.store"
  fh_metricsRecorder :: "'w Metrics"

record ('m, 'cid, 'c, 'w) peerdNode =
  nd_router :: "('m, 'cid, 'w) router"
  nd_containerd :: Store
  nd_cache :: "'c cacheState"
  nd_files :: "('c cacheState, bool \<times> 'w) FilesHandler"
  nd_v2 :: "(bool \<times> 'w) V2Handler"

record ('cfg, 'p, 'c, 'm, 'h, 'd, 'i, 'l, 'id, 'cert, 'v, 'cid, 'w) startup_env =
  se_inClusterConfig :: "'cfg result"
  se_buildConfig :: "string \<Rightarrow> 'cfg result"
  se_newForConfig :: "'cfg \<Rightarrow> 'i result"
  se_getenv :: "string \<Rightarrow> string"
  se_readFile :: "string \<Rightarrow> string result"
  se_KubeConfigPath :: string
  se_NodeName :: string
  se_p2p :: "('m, 'h, 'd, 'i, 'l, 'id, 'cert, 'v, 'cid, 'w) p2p_env"
  se_metrics :: "promMetrics option"
  se_recorder :: "promMetrics \<Rightarrow> (bool \<times> 'w) Metrics"
  se_fs :: "'w Fs"
  se_marshal :: "hostFile \<Rightarrow> bytes result"
  se_containerdNew :: "string \<Rightarrow> string \<Rightarrow> 'p client result"
  se_ristretto :: "'c ristretto result"
  se_disk :: fs
  se_schedule :: "gaps list \<times> string list list"
  se_servers :: "ServerCmd \<Rightarrow> ('m, 'cid, 'c, 'w) peerdNode \<Rightarrow> 'w \<Rightarrow> servers \<times> 'w"

text \<open>
  \<open>cache.New\<close>: when the directory or ristretto cannot be created, the logger's \<open>Fatal\<close> ends the process.
\<close>

definition cache_New :: "'c ristretto result \<Rightarrow> fs \<Rightarrow> 'c fileCache outcome" where
  "cache_New rc fs =
     (case rc of
        Inl e \<Rightarrow> Panic (OsExit 1)
      | Inr c \<Rightarrow> (case New_cache c fs of None \<Rightarrow> Panic (OsExit 1) | Some fc \<Rightarrow> Ret fc))"

text \<open>\<open>NewFilesStore\<close> with the number of workers that the command has set; its channel must not have a negative size.\<close>

definition new_files_store :: "('cfg, 'p, 'c, 'm, 'h, 'd, 'i, 'l, 'id, 'cert, 'v, 'cid, 'w) startup_env \<Rightarrow> ServerCmd \<Rightarrow> ('m, 'cid, 'w) router \<Rightarrow>
    (('c cacheState, bool \<times> 'w) Files_Store.store \<times> 'c cacheState) result outcome" where
  "new_files_store env args r =
     obind (FromContext_metrics (se_metrics env)) (\<lambda>m.
     obind (cache_New (se_ristretto env) (se_disk env)) (\<lambda>fc.
       if sc_PrefetchWorkers args < 0 then Panic MakeChanSize
       else Ret (Inr (NewFilesStore (sc_PrefetchWorkers args) (se_NodeName env) (se_recorder env m) fileCache_ops ParseDigest (router_iface r),
              \<lparr>cs_gaps = fst (se_schedule env), cs_orders = snd (se_schedule env), cs_cache = fc\<rparr>))))"

text \<open>\<open>handlers.Handler\<close>: the handlers of the two families of routes.\<close>

definition Handler :: "('cfg, 'p, 'c, 'm, 'h, 'd, 'i, 'l, 'id, 'cert, 'v, 'cid, 'w) startup_env \<Rightarrow> ('m, 'cid, 'w) router \<Rightarrow> Store \<Rightarrow> ('c cacheState, bool \<times> 'w) Files_Store.store \<Rightarrow>
    (('c cacheState, bool \<times> 'w) FilesHandler \<times> (bool \<times> 'w) V2Handler) result outcome" where
  "Handler env r containerdStore filesStore =
     obind (FromContext_metrics (se_metrics env)) (\<lambda>m.
       Ret (Inr (\<lparr>fh_store = filesStore, fh_metricsRecorder = se_recorder env m\<rparr>,
         New_v2 (se_recorder env m) (router_iface r) containerdStore)))"

subsection \<open>The command\<close>

definition connect_cluster :: "('cfg, 'p, 'c, 'm, 'h, 'd, 'i, 'l, 'id, 'cert, 'v, 'cid, 'w) startup_env \<Rightarrow> ('i ClientSet \<times> ObjectReference) result outcome" where
  "connect_cluster env =
     (case NewKubernetesInterface (se_inClusterConfig env) (se_buildConfig env) (se_newForConfig env) (se_getenv env) (se_readFile env)
             (se_KubeConfigPath env) (se_NodeName env) of
        Inl e \<Rightarrow> Ret (Inl e)
      | Inr clientset \<Rightarrow>
          (case WithContext_events (pe_getNode (se_p2p env)) (pe_getPod (se_p2p env)) clientset of
             Inl e \<Rightarrow> Ret (Inl e)
           | Inr ctx \<Rightarrow> obind (FromContext_events ctx) (\<lambda>eventsRecorder. Ret (Inr (clientset, eventsRecorder)))))"

definition configure_mirrors :: "('cfg, 'p, 'c, 'm, 'h, 'd, 'i, 'l, 'id, 'cert, 'v, 'cid, 'w) startup_env \<Rightarrow> ServerCmd \<Rightarrow> 'w \<Rightarrow> go_error option \<times> 'w" where
  "configure_mirrors env args w =
     (if \<not> sc_AddMirrorConfiguration args then (None, w)
      else (case urls_or_default ''https://mcr.microsoft.com'' (sc_Hosts args) of
              Inl e \<Rightarrow> (Some e, w)
            | Inr hosts \<Rightarrow>
                (case urls_or_default ''https://localhost:30001'' (sc_Mirrors args) of
                   Inl e \<Rightarrow> (Some e, w)
                 | Inr mirrors \<Rightarrow> AddHostsConfiguration (se_marshal env) (se_fs env) (sc_ContainerdHostsConfigPath args) hosts mirrors False w)))"

definition open_containerd :: "('cfg, 'p, 'c, 'm, 'h, 'd, 'i, 'l, 'id, 'cert, 'v, 'cid, 'w) startup_env \<Rightarrow> ServerCmd \<Rightarrow> Store result" where
  "open_containerd env args =
     (case NewDefaultStore (se_containerdNew env) (sc_Hosts args) of
        Inl e \<Rightarrow> Inl e
      | Inr containerdStore \<Rightarrow>
          (case sm_Verify (store_iface containerdStore) of Some e \<Rightarrow> Inl e | None \<Rightarrow> Inr (store_iface containerdStore)))"

text \<open>The files store and the handlers, on a router and a containerd store.\<close>

definition build_node :: "('cfg, 'p, 'c, 'm, 'h, 'd, 'i, 'l, 'id, 'cert, 'v, 'cid, 'w) startup_env \<Rightarrow> ServerCmd \<Rightarrow> ('m, 'cid, 'w) router \<Rightarrow> Store \<Rightarrow> ('m, 'cid, 'c, 'w) peerdNode result outcome" where
  "build_node env args r containerdStore =
     obind (new_files_store env args r) (\<lambda>fs. case fs of
        Inl e \<Rightarrow> Ret (Inl e)
      | Inr (filesStore, cache) \<Rightarrow>
          obind (Handler env r containerdStore filesStore) (\<lambda>h. case h of
             Inl e \<Rightarrow> Ret (Inl e)
           | Inr (fh, v2h) \<Rightarrow>
               Ret (Inr \<lparr>nd_router = r, nd_containerd = containerdStore, nd_cache = cache, nd_files = fh, nd_v2 = v2h\<rparr>)))"

definition start_node :: "('cfg, 'p, 'c, 'm, 'h, 'd, 'i, 'l, 'id, 'cert, 'v, 'cid, 'w) startup_env \<Rightarrow> ServerCmd \<Rightarrow> ObjectReference option \<Rightarrow> 'i ClientSet \<Rightarrow> string \<Rightarrow> 'w \<Rightarrow>
    (('m, 'cid, 'c, 'w) peerdNode result \<times> 'w) outcome" where
  "start_node env args ctx clientset httpsPort w =
     obind (NewRouter (se_p2p env) ctx clientset (sc_RouterAddr args) httpsPort w) (\<lambda>(r, w1). case r of
        Inl e \<Rightarrow> Ret (Inl e, w1)
      | Inr router \<Rightarrow>
          (case configure_mirrors env args w1 of
             (Some e, w2) \<Rightarrow> Ret (Inl e, w2)
           | (None, w2) \<Rightarrow>
               (case open_containerd env args of
                  Inl e \<Rightarrow> Ret (Inl e, w2)
                | Inr containerdStore \<Rightarrow> obind (build_node env args router containerdStore) (\<lambda>nd. Ret (nd, w2)))))"

definition serve_node :: "('cfg, 'p, 'c, 'm, 'h, 'd, 'i, 'l, 'id, 'cert, 'v, 'cid, 'w) startup_env \<Rightarrow> ServerCmd \<Rightarrow> ('m, 'cid, 'c, 'w) peerdNode \<Rightarrow> 'w \<Rightarrow> (go_error option \<times> 'w) outcome" where
  "serve_node env args nd w =
     (case se_servers env args nd w of (s, w') \<Rightarrow> obind (group_Wait (group_tasks s) (sv_order s)) (\<lambda>err. Ret (err, w')))"

text \<open>The deferred function of the command: a failure is reported once the recorder exists.\<close>

definition report_failure :: "('cfg, 'p, 'c, 'm, 'h, 'd, 'i, 'l, 'id, 'cert, 'v, 'cid, 'w) startup_env \<Rightarrow> ObjectReference \<Rightarrow> go_error option \<times> 'w \<Rightarrow> go_error option \<times> 'w" where
  "report_failure env er r = (fst r, if fst r \<noteq> None then pe_send (se_p2p env) (Failed_event er) (snd r) else snd r)"

definition serverCommand :: "('cfg, 'p, 'c, 'm, 'h, 'd, 'i, 'l, 'id, 'cert, 'v, 'cid, 'w) startup_env \<Rightarrow> ServerCmd \<Rightarrow> 'w \<Rightarrow> (go_error option \<times> 'w) outcome" where
  "serverCommand env args w =
     (case SplitHostPort (sc_HttpsAddr args) of
        Inl e \<Rightarrow> Ret (Some e, w)
      | Inr (_, httpsPort) \<Rightarrow>
          obind (connect_cluster env) (\<lambda>c. case c of
             Inl e \<Rightarrow> Ret (Some e, w)
           | Inr (clientset, er) \<Rightarrow>
               obind (start_node env args (Some er) clientset httpsPort (pe_send (se_p2p env) (Initializing_event er) w)) (\<lambda>r.
                 case r of
                   (Inl e, w2) \<Rightarrow> Ret (report_failure env er (Some e, w2))
                 | (Inr nd, w2) \<Rightarrow> obind (serve_node env args nd w2) (\<lambda>r. Ret (report_failure env er r)))))"

definition run_command :: "('cfg, 'p, 'c, 'm, 'h, 'd, 'i, 'l, 'id, 'cert, 'v, 'cid, 'w) startup_env \<Rightarrow> Arguments \<Rightarrow> 'w \<Rightarrow> (go_error option \<times> 'w) outcome" where
  "run_command env args w =
     (if ar_Version args then Ret (None, w)
      else (case ar_Server args of Some sc \<Rightarrow> serverCommand env sc w | None \<Rightarrow> Ret (Some (Errorf ''unknown subcommand''), w)))"

text \<open>
  \<open>main\<close>, after the command line is parsed: the exit code. \<open>zerolog.ParseLevel\<close> and the default registry
  of Prometheus are arguments; the command gets the metrics through its context.
\<close>

definition main_peerd :: "(string \<Rightarrow> 'l result) \<Rightarrow> 'w registerer \<Rightarrow> string \<Rightarrow> ('cfg, 'p, 'c, 'm, 'h, 'd, 'i, 'l, 'id, 'cert, 'v, 'cid, 'w) startup_env \<Rightarrow>
    Arguments \<Rightarrow> 'w \<Rightarrow> (int64 \<times> 'w) outcome" where
  "main_peerd ParseLevel reg NodeName env args w =
     (case ParseLevel (ar_LogLevel args) of
        Inl e \<Rightarrow> Ret (1, w)
      | Inr ll \<Rightarrow>
          obind (WithContext_metrics reg NodeName ''peerd'' w) (\<lambda>(r, w1).
            case r of
              Inl e \<Rightarrow> Ret (1, w1)
            | Inr ctx \<Rightarrow> obind (run_command (env\<lparr>se_metrics := ctx\<rparr>) args w1) (\<lambda>(err, w2). Ret (if err \<noteq> None then 1 else 0, w2))))"


subsection \<open>Reporting\<close>






lemma prom_task_listening: "sv_prom s = None \<Longrightarrow> group_Wait (group_tasks s) order = Blocked"
  by (simp add: group_Wait_def group_tasks_def prom_task_def)

lemma serve_node_blocked: "sv_prom (fst (se_servers env args nd w)) = None \<Longrightarrow> serve_node env args nd w = Blocked"
  using prom_task_listening by (auto simp: serve_node_def split: prod.split)

lemma serverCommand_never_None:
  assumes "\<forall>nd w. sv_prom (fst (se_servers env args nd w)) = None"
  shows "serverCommand env args w \<noteq> Ret (None, w')"
  using assms serve_node_blocked [of env args]
  by (auto simp: serverCommand_def report_failure_def obind_Ret_iff split: sum.splits prod.splits option.splits)


subsection \<open>Stopping\<close>

text \<open>
  C28: a node does not stop. As long as the metrics server listens, the command does not return
  once the servers are started, neither after SIGTERM nor when one of the other servers fails:
  nothing shuts the metrics server down, and the group waits for its goroutine. The command never
  returns without an error.
\<close>

theorem metrics_server_keeps_node_running:
  assumes "\<forall>nd w. sv_prom (fst (se_servers env args nd w)) = None"
  shows "((\<exists>host port clientset er nd w1. SplitHostPort (sc_HttpsAddr args) = Inr (host, port)
        \<and> connect_cluster env = Ret (Inr (clientset, er))
        \<and> start_node env args (Some er) clientset port (pe_send (se_p2p env) (Initializing_event er) w) = Ret (Inr nd, w1))
      \<longrightarrow> serverCommand env args w = Blocked)
    \<and> (\<forall>w'. serverCommand env args w \<noteq> Ret (None, w'))"
proof -
  have "serve_node env args nd v = Blocked" for nd v using assms by (intro serve_node_blocked) blast
  then show ?thesis using serverCommand_never_None [OF assms]
    by (auto simp: serverCommand_def split: sum.splits prod.splits option.splits)
qed

text \<open>So a node that is started does not exit with code 0: only \<open>--version\<close> does.\<close>

lemma main_exit_code:
  assumes "\<forall>args nd w. sv_prom (fst (se_servers env args nd w)) = None"
    and "main_peerd ParseLevel reg NodeName env args w = Ret (code, w')"
  shows "code \<in> {0, 1} \<and> (code = 0 \<longrightarrow> ar_Version args)"
proof -
  have "serverCommand (env\<lparr>se_metrics := ctx\<rparr>) sc v \<noteq> Ret (None, v')" for ctx sc v v'
    by (rule serverCommand_never_None) (use assms(1) in simp)
  then show ?thesis using assms(2)
    by (auto simp: main_peerd_def run_command_def WithContext_metrics_def split: sum.splits prod.splits if_splits option.splits)
qed

text \<open>A pod that starts, or fails to, depending on the address of its router.\<close>

definition quiet_fs :: "'w Fs" where
  "quiet_fs = \<lparr>af_DirExists = (\<lambda>p w. (Inr True, w)), af_MkdirAll = (\<lambda>p w. (None, w)), af_Stat = (\<lambda>p w. (None, w)),
     af_ReadDir = (\<lambda>p w. (Inr [], w)), af_Rename = (\<lambda>p q w. (None, w)), af_RemoveAll = (\<lambda>p w. (None, w)), af_WriteFile = (\<lambda>p b w. (None, w))\<rparr>"

definition demo_metrics :: promMetrics where
  "demo_metrics = (let hist = peerResponseDurationHist ''peerd'' in
     \<lparr>pm_name = ''peerd-0'', pm_requestDuration = hist, pm_peerDiscoveryDuration = hist, pm_peerResponseSpeed = hist, pm_upstreamResponseSpeed = hist\<rparr>)"

definition demo_env :: "(unit, string, (string \<times> nat) list, string, string list, unit, unit, string, string, string, string, bytes, k8sEvent list) startup_env" where
  "demo_env = \<lparr>se_inClusterConfig = Inr (), se_buildConfig = (\<lambda>p. Inl EOF), se_newForConfig = Inr, se_getenv = (\<lambda>v. []),
     se_readFile = (\<lambda>f. Inr ''peers''), se_KubeConfigPath = ''/opt/peerd/kubeconfig'', se_NodeName = ''peerd-0'',
     se_p2p = demo_p2p demo_listen, se_metrics = Some demo_metrics, se_recorder = (\<lambda>m. quiet_metrics), se_fs = quiet_fs, se_marshal = (\<lambda>h. Inr []),
     se_containerdNew = (\<lambda>sock ns. Inr (demo_client [])), se_ristretto = Inr keep_all, se_disk = empty_fs [], se_schedule = ([], []),
     se_servers = (\<lambda>args nd. Pair \<lparr>sv_sigterm = True, sv_https = None, sv_http = None, sv_prom = None, sv_shutdownHttps = None, sv_shutdownHttp = None,
       sv_order = [0, 1, 2, 3, 4, 5]\<rparr>)\<rparr>"

definition demo_args :: "string \<Rightarrow> ServerCmd" where
  "demo_args routerAddr = \<lparr>sc_HttpAddr = ''127.0.0.1:5000'', sc_HttpsAddr = ''0.0.0.0:5001'', sc_RouterAddr = routerAddr, sc_PromAddr = ''0.0.0.0:5004'',
     sc_PrefetchWorkers = 50, sc_Hosts = [], sc_AddMirrorConfiguration = True, sc_Mirrors = [], sc_ContainerdHostsConfigPath = ''/etc/containerd/certs.d''\<rparr>"


definition demo_object :: ObjectReference where
  "demo_object = \<lparr>or_Kind = ''Pod'', or_Name = ''peerd-0'', or_Namespace = ''peers'', or_UID = [], or_APIVersion = []\<rparr>"

lemma demo_connected: "\<exists>clientset. connect_cluster demo_env = Ret (Inr (clientset, demo_object))"
proof -
  have "case connect_cluster demo_env of Ret (Inr (clientset, er)) \<Rightarrow> er = demo_object | _ \<Rightarrow> False" by code_simp
  then show ?thesis by (auto split: outcome.split_asm sum.split_asm prod.split_asm)
qed


theorem metrics_server_keeps_node_running_witness:
  "serverCommand demo_env (demo_args ''0.0.0.0:5003'') [] = Blocked"
proof -
  let ?args = "demo_args ''0.0.0.0:5003''"
  have prom: "\<forall>nd w. sv_prom (fst (se_servers demo_env ?args nd w)) = None" by (simp add: demo_env_def)
  obtain clientset where c: "connect_cluster demo_env = Ret (Inr (clientset, demo_object))" using demo_connected by blast
  have "SplitHostPort (sc_HttpsAddr ?args) = Inr (''0.0.0.0'', ''5001'')" by code_simp
  moreover have "case connect_cluster demo_env of Ret (Inr (cs, er)) \<Rightarrow>
      (case start_node demo_env ?args (Some er) cs ''5001'' (pe_send (se_p2p demo_env) (Initializing_event er) []) of Ret (Inr nd, w1) \<Rightarrow> True | _ \<Rightarrow> False) | _ \<Rightarrow> False"
    by code_simp
  then obtain nd w1 where "start_node demo_env ?args (Some demo_object) clientset ''5001'' (pe_send (se_p2p demo_env) (Initializing_event demo_object) []) = Ret (Inr nd, w1)"
    by (auto simp: c split: outcome.split_asm prod.split_asm sum.split_asm)
  ultimately show ?thesis using metrics_server_keeps_node_running [OF prom, of "[]"] c by metis
qed

end
