(* ===== verification/Spec2Isabelle.thy ===== *)
theory Spec2Isabelle
  imports Cluster_Files Routing Cluster_Pull Provider Leader_Election Containerd_Hosts Startup Kubernetes Peer_Network
begin

text \<open>
  Verification of peerd, the daemon that lets the nodes of a Kubernetes cluster share container
  images and files with each other instead of fetching them from a registry or blob storage.

  \<^bold>\<open>The program.\<close> A node runs an HTTP server with two families of routes. Under \<open>/blobs\<close> the files
  handler serves ranges of a blob: the files store cuts the blob into blocks, the chunk cache keeps
  blocks as files on disk, and the remote reader fetches a missing block from a peer or from the
  origin. Under \<open>/v2\<close> the handler of the OCI distribution API serves images: a request of a peer is
  answered from the local containerd by the registry handler, a request of the container runtime is
  relayed to peers by the mirror. Peers are found through the router (a DHT); the provider advertises
  what the node holds; leader election supplies the first peer to connect to. At start-up the node
  rewrites the host configuration of containerd so that the runtime pulls through it.

  \<^bold>\<open>The theories\<close>, in the order in which they build on each other (paths under \<open>src/\<close>):

  \<^item> \<open>Prelude\<close>: outcomes of Go calls (\<open>Ret\<close>, \<open>Panic\<close>, \<open>Blocked\<close>), errors, 64-bit integers with their
    wrap-around. \<open>Go_Strings\<close>, \<open>Go_Url\<close>, \<open>Go_Regexp\<close>, \<open>Gin_Writer\<close>, \<open>File_System\<close>: what the sources use
    of the standard library and of gin's response writer, with round trips and splitting laws.
  \<^item> \<open>Segments\<close> (\<open>pkg/math\<close>): blocks of a range; they tile it and the loop ends.
  \<^item> \<open>Sync_Map\<close> (\<open>pkg/cache/syncmap.go\<close>): bounded map with eviction, contract \<open>lossy_map\<close>.
  \<^item> \<open>Request_Context\<close> (\<open>pkg/context\<close>): headers, context keys, range header, blob address.
  \<^item> \<open>Cache_Interface\<close>, \<open>File_Cache\<close> (\<open>pkg/cache\<close>): contract \<open>chunk_cache\<close> and its implementation with
    file-system faults, and with evictions and the critical sections of other calls between any two
    critical sections of a call.
  \<^item> \<open>Network_Interface\<close>, \<open>Remote_Reader\<close> (\<open>pkg/discovery/content/reader\<close>, \<open>pkg/metrics/interface.go\<close>,
    \<open>pkg/discovery/routing/interface.go\<close>): contracts \<open>file_reader\<close> and \<open>honest_reader\<close>; peers in turn,
    then the origin.
  \<^item> \<open>Files_Store\<close> (\<open>pkg/files\<close>): keys, opening, stat, read, prefetching, over the contracts of the cache
    and the reader alone. \<open>Url_Parser\<close> (\<open>pkg/urlparser\<close>): digests in blob addresses. \<open>Files_Handler\<close>
    (\<open>pkg/handlers/files\<close>): the handler with \<open>http.ServeContent\<close>, its ranges and conditional requests.
  \<^item> \<open>Routing\<close> (\<open>pkg/discovery/routing\<close>), \<open>Peer_Network\<close> (\<open>pkg/peernet\<close>): resolving, negative cache,
    advertising, bootstrap; clients and TLS configuration per peer.
  \<^item> \<open>Containerd_Reference\<close>, \<open>Containerd_Store\<close>, \<open>Containerd_Registry\<close>, \<open>Containerd_Hosts\<close>
    (\<open>pkg/containerd\<close>): image references, content store with its subscription and mock, registry
    handler over the contract \<open>blob_store\<close>, host configuration over the contracts \<open>config_fs\<close> and
    \<open>atomic_fs\<close>.
  \<^item> \<open>Oci_Path\<close> (\<open>pkg/oci/distribution\<close>), \<open>Registry_Mirror\<close> (\<open>pkg/discovery/content/registry\<close>),
    \<open>V2_Handler\<close> (\<open>pkg/handlers/v2\<close>), \<open>Http_Server\<close> (\<open>pkg/handlers/root.go\<close>): the distribution API.
  \<^item> \<open>Provider\<close> (\<open>pkg/discovery/content/provider\<close>), \<open>Leader_Election\<close> (\<open>pkg/k8s/election\<close>), \<open>Kubernetes\<close>
    (\<open>pkg/k8s\<close>, \<open>pkg/k8s/events\<close>), \<open>Router_Start\<close> (\<open>NewRouter\<close> over the contract \<open>libp2p\<close>), \<open>Startup\<close>
    (\<open>cmd/proxy\<close>, from the parsed arguments and the cluster connection over the constructors of the router,
    the stores and the handlers to the error group of the servers and the exit code). \<open>Prometheus_Metrics\<close> (\<open>pkg/metrics\<close>): the histograms and their observations over
    the contract \<open>prometheus\<close>, with the rounding of float64.
  \<^item> \<open>Node\<close>: the states that a node's cache can reach by opening, reading, prefetching and evicting.
    \<open>Cluster_Files\<close>: a file request from one node to another. \<open>Cluster_Pull\<close>: a pull through two nodes.
    This theory: the files path from handler to disk, and the agreements between nodes on keys and marks.

  \<^bold>\<open>How code becomes definitions.\<close> A struct is a record, a method a function that returns the updated
  state, a Go interface a record of its methods over a world \<open>'w\<close>. Errors are values of \<open>go_error\<close>; a
  run-time panic and a goroutine that waits forever are outcomes of their own. A critical section
  under a mutex is one step; what other goroutines may do between two sections is an argument (the
  evictions and other calls in the windows of \<open>GetOrCreate\<close>) or an interleaving (the calls of \<open>onNewLeader\<close>, the channels of the
  provider, whose runs are a set). A channel is the list of what is sent on it, a \<open>select\<close> loop is a recursion over the list
  of events it receives. Handlers return the calls they make on the response writer.

  \<^bold>\<open>What is shown.\<close> Integrity: after any history of a node in which no write stored only a part of its
  data and every reader returned the content of its file or an error, bytes served for a range are the
  bytes of the blob at that range (\<open>served_bytes_are_origin_bytes\<close>, \<open>files_handler_serves_range\<close>) and the
  cache returns the chunk it was asked for (\<open>File_Cache\<close>, which also shows the zeros that are served after
  partial writes); a runtime that pulls by digest receives the stored content (\<open>Cluster_Pull\<close>). What the
  reader assumes of peers is what nodes with such a history provide: while a node answers a peer it relies
  on the origin only, and its answer carries the range, breaks off or is an error (\<open>peers_answer_honestly\<close>).
  Progress: the copy loop ends, failing peers do not hide a good
  one, failed fetches can be retried, a pull succeeds when a resolved peer holds the blob. Agreement:
  keys computed by the sender and the receiver of a request are equal, the key that the mirror looks
  up is one that the provider advertises, a prefetched chunk is advertised under the key that a request
  starting in its block looks up, requests of peers are never forwarded, the DHT of every router bootstraps
  from the announced leader, and the clients of a router authenticate the peer they are for. Per component:
  parsers and printers are inverse, the host configuration keeps the first backup, election refines
  the last announced leader, every image is advertised
  and no event of the provider is lost, the metrics recorder is well typed and does not panic on text in
  UTF-8, a command that returns has reported how it fared, a started node never exits with success. A group of theorems states where the code
  departs from this: a partly written chunk, an eviction in the window before the read, a stat error
  that leaves a lock held, a key without a digest, overlapping announcements, an interrupted backup, a
  manifest without platform, a host without an address, a metrics label that is not UTF-8, the metrics
  server that outlives the shutdown, a conditional header that is passed on to peers.

  \<^bold>\<open>Parameters and their hypotheses.\<close> Code outside the repository is an argument: ristretto
  (\<open>ristretto_ok\<close>: what is found was set for that key), the HTTP clients (\<open>honest\<close>: the servers honour
  ranges, so that an answer which the reader accepts carries the range; with a server that ignores them
  the reader returns wrong bytes, \<open>PreadRemote_takes_file_start_for_range\<close>), the DHT, identities and multiaddresses
  (fields of \<open>router\<close> and \<open>p2p_env\<close>, contract \<open>libp2p\<close>), containerd (\<open>client_content\<close>: information,
  reader and \<open>ReadBlob\<close> agree), \<open>digest.Parse\<close>, gin's matching of paths (\<open>route_match\<close>), afero (\<open>config_fs\<close>, \<open>atomic_fs\<close>), the parsing of HTTP dates, TOML encoding, the
  Kubernetes client, the Prometheus client (\<open>prometheus\<close>). A concrete instance of each satisfies its hypothesis, and the witnesses use it.

  \<^bold>\<open>Bounds and fuel.\<close> \<open>copy_loop\<close> and \<open>serve_range\<close> take fuel, with \<open>None\<close> for a loop that still runs:
  \<open>serving_ends\<close> shows that one step per byte and one more are enough. The loop of \<open>Segments\<close> is a
  partial function, \<open>None\<close> being a channel that is never closed, and is shown to return. \<open>images.Walk\<close>
  is a parameter; the instance \<open>walk_fuel 2\<close> suffices because the handler descends from an index to a
  manifest only. All other recursions are structural or have a measure.

  \<^bold>\<open>Not modelled.\<close> Log lines and the measuring of durations (the arithmetic on a measured duration is
  modelled); the parsing of arguments, by a third-party package; the multi-range bodies of
  \<open>http.ServeContent\<close>; protocol upgrades in the reverse proxy; accessors that only return or
  store a field; the stubs of third-party interfaces under \<open>mocks\<close>, the generated \<open>api/docs.go\<close> and the
  load generators under \<open>tests\<close>.
\<close>

section \<open>The parts together\<close>

subsection \<open>The files store over the file cache\<close>

text \<open>
  C3: what peerd serves is what the origin has. After any history of the node in which no write stored
  only a part of its data before it failed and every reader returned the content of its file or an
  error, the bytes written to a client for the range \<open>[start, start + n)\<close> of a file are a prefix of the
  file's bytes in that range, and all of them when no error is reported, whether they came from the
  cache, from a peer or from the origin, and whatever other calls and evictions do in between. (After
  partial writes the claim is false: \<open>GetOrCreate_serves_zeros_after_partial_writes\<close>.)
\<close>

theorem served_bytes_are_origin_bytes:
  assumes "node_state TYPE('w) D cs" and "file_of D f" and "0 \<le> start"
    and "start + n \<le> int (length (D (fl_Name f)))"
    and "serve_range fuel fileCache_ops f start n cs (w :: 'w) = Some (Ret ((out, err), f', cs', w'))"
  shows "\<exists>m. out = take m (slice (D (fl_Name f)) start (nat n)) \<and> (err = None \<longrightarrow> m = nat n)"
proof -
  have "file_of D (f\<lparr>fl_cur := start\<rparr>)" using assms(2) by (simp add: file_of_def)
  then show ?thesis
    using fc.copy_loop_ok [OF node_state_ok [OF assms(1)], of "f\<lparr>fl_cur := start\<rparr>" "D (fl_Name f)" n fuel "[]" w out err f' cs' w']
      assms(3-5) by (auto simp: serve_range_def Seek_def)
qed

theorem served_bytes_are_origin_bytes_witness:
  "\<exists>f' cs' w'. serve_range 3 fileCache_ops demo_file 1 2 demo_cs () = Some (Ret (([2, 3], None), f', cs', w'))
    \<and> (\<exists>m. [2, 3] = take m (slice [1, 2, 3, 4] 1 (nat 2)) \<and> ((None :: go_error option) = None \<longrightarrow> m = nat 2))"
proof -
  have "map_option result_of (serve_range 3 fileCache_ops demo_file 1 2 demo_cs ()) = Some (Some ([2, 3], None))"
    by code_simp
  then obtain f' cs' w' where r: "serve_range 3 fileCache_ops demo_file 1 2 demo_cs () = Some (Ret (([2, 3], None), f', cs', w'))"
    by (auto dest: result_ofD)
  show ?thesis
    using served_bytes_are_origin_bytes [OF demo_node demo_file_of _ _ r] r by simp
qed

text \<open>
  C6: serving a range ends: the copy loop makes at most one round per byte, so \<open>n + 1\<close> rounds are
  enough for any range inside the file (a round can wait or panic, but the loop does not run on).
\<close>

theorem serving_ends:
  assumes "node_state TYPE('w) D cs" and "file_of D f" and "0 \<le> start"
    and "start + n \<le> int (length (D (fl_Name f)))"
  shows "serve_range (Suc (nat n)) fileCache_ops f start n cs (w :: 'w) \<noteq> None"
proof -
  have "file_of D (f\<lparr>fl_cur := start\<rparr>)" using assms(2) by (simp add: file_of_def)
  then show ?thesis
    using fc.copy_loop_ends [OF node_state_ok [OF assms(1)], of "f\<lparr>fl_cur := start\<rparr>" n "Suc (nat n)"] assms(3,4)
    by (simp add: serve_range_def Seek_def del: copy_loop.simps)
qed

theorem serving_ends_witness:
  "serve_range (Suc (nat 2)) fileCache_ops demo_file 1 2 demo_cs () \<noteq> None"
  by (rule serving_ends [OF demo_node demo_file_of]) simp_all

subsection \<open>The files handler\<close>

text \<open>
  C2: a client that asks for a range of a blob never receives other bytes. After any history of the node
  in which no write stored only a part of its data and every reader returned the content of its file or
  an error, a GET without conditional headers of the bytes \<open>start\<close> to \<open>stop\<close> of the blob behind an Azure
  endpoint address with digest \<open>h\<close> is answered, if it is answered at all, either with status 206, headers
  that announce exactly that range of the blob and its length, and a body that is that range or, when a
  later read fails, a beginning of it that is shorter than the announced length, or with status 404 or
  500 and no content. The origin and the peers honour the ranges of this request (\<open>honest\<close>).
\<close>

theorem files_handler_serves_range:
  assumes "node_state TYPE('w) D cs" and "st_cache s = fileCache_ops" and "st_parser s = ParseDigest"
    and "req_Method (ctx_Request c) = ''GET''" and "Header_Get (req_Header (ctx_Request c)) ''Range'' = range_header start stop"
    and "0 \<le> start" and "start \<le> stop" and "in_int64 stop" and "start < int (length (D (''sha256:'' @ h)))"
    and "BlobUrl c = url_of e h post" and "endpoint_ok e (url_of e h post)" and "is_hash h"
    and "\<forall>c'. ctx_Request c' = ctx_Request c \<longrightarrow> ctx_Params c' = ctx_Params c \<longrightarrow> GetString c' BlobUrlCtxKey = url_of e h post \<longrightarrow>
      honest (NewReader (st_nodeName s) c' (st_router s) (st_resolveRetries s) (st_resolveTimeout s) (st_metricsRecorder s)) (D (''sha256:'' @ h))"
    and "Handle_files date fuel NodeName s c cs (w :: 'w) = Some (Ret (calls, job, cs', w'))"
    and "unconditional (req_Header (ctx_Request c))"
  shows "range_answer (D (''sha256:'' @ h)) start stop (respond calls)
    \<or> rsp_status (respond calls) \<in> {404, 500} \<and> rsp_body (respond calls) = []"
proof -
  have d: "st_parser s (BlobUrl c) = Inr (''sha256:'' @ h)" using ParseDigest_endpoint [OF assms(11,12)] assms(3,10) by simp
  show ?thesis
    using Handle_files_range [OF node_state_ok [OF assms(1)] assms(2,4-8) d _ _ assms(9) _ assms(14,15)] hash_plain [OF assms(12)] assms(10,13) by metis
qed

definition demo_get :: "string \<Rightarrow> Context" where
  "demo_get rg = \<lparr>ctx_Request = \<lparr>req_Method = ''GET'', req_Path = [], req_RawQuery = ''x=y&d=sha256:'' @ demo_hash, req_Header = [(''Range'', [rg])]\<rparr>,
     ctx_Params = [(''url'', ''https://r.azurecr.io'')], ctx_Query = [], ctx_Keys = []\<rparr>"

definition demo_blob_store :: "(string \<Rightarrow> string result) \<Rightarrow> ((string \<times> nat) list cacheState, unit) Files_Store.store" where
  "demo_blob_store parser = NewFilesStore PrefetchWorkers ''node1'' quiet_metrics fileCache_ops parser (demo_router (\<lambda>_. range_server [1, 2, 3, 4]) [])"

lemma Handle_files_parser:
  assumes "p (BlobUrl c) = q (BlobUrl c)"
  shows "Handle_files date fuel NodeName (demo_blob_store p) c cs w = Handle_files date fuel NodeName (demo_blob_store q) c cs w"
proof -
  have key: "Key (demo_blob_store p) (ctx_Set k v c) = Key (demo_blob_store q) (ctx_Set k v c)" for k v
    using assms by (simp add: Key_def demo_blob_store_def NewFilesStore_def)
  have sel: "st_cache (demo_blob_store p) = st_cache (demo_blob_store q)" "st_prefetchable (demo_blob_store p) = st_prefetchable (demo_blob_store q)"
    "st_metricsRecorder (demo_blob_store p) = st_metricsRecorder (demo_blob_store q)"
    "open_file (demo_blob_store p) = open_file (demo_blob_store q)"
    by (simp_all add: demo_blob_store_def NewFilesStore_def open_file_def fun_eq_iff)
  have op: "Open (demo_blob_store p) c' = Open (demo_blob_store q) c'" for c'
    by (rule ext)+ (simp only: Open_def sel)
  show ?thesis unfolding Handle_files_def fill_files_def Let_def key op sel by (rule refl)
qed

theorem files_handler_serves_range_witness:
  "\<exists>calls job cs' w'. Handle_files (\<lambda>s. None) 5 ''node1'' (demo_blob_store ParseDigest) (demo_get ''bytes=1-2'') demo_cs () = Some (Ret (calls, job, cs', w'))
    \<and> (range_answer [1, 2, 3, 4] 1 2 (respond calls) \<or> rsp_status (respond calls) \<in> {404, 500} \<and> rsp_body (respond calls) = [])
    \<and> rsp_body (respond calls) = [2, 3]"
proof -
  let ?c = "demo_get ''bytes=1-2''" and ?e = "ACR ''r'' ''io'' False ''x=y''" and ?s = "demo_blob_store ParseDigest"
  have url: "BlobUrl ?c = url_of ?e demo_hash []" "endpoint_ok ?e (url_of ?e demo_hash [])" "is_hash demo_hash" by code_simp+
  then have "ParseDigest (BlobUrl ?c) = Inr (''sha256:'' @ demo_hash)" using ParseDigest_endpoint by metis
  then have eq: "Handle_files (\<lambda>s. None) 5 ''node1'' ?s ?c demo_cs () = Handle_files (\<lambda>s. None) 5 ''node1'' (demo_blob_store (\<lambda>_. Inr (''sha256:'' @ demo_hash))) ?c demo_cs ()"
    by (intro Handle_files_parser) simp
  have "case Handle_files (\<lambda>s. None) 5 ''node1'' (demo_blob_store (\<lambda>_. Inr (''sha256:'' @ demo_hash))) ?c demo_cs () of
      Some (Ret (calls, _)) \<Rightarrow> rsp_body (respond calls) = [2, 3] | _ \<Rightarrow> False" by code_simp
  then obtain calls job cs' w' where run: "Handle_files (\<lambda>s. None) 5 ''node1'' ?s ?c demo_cs () = Some (Ret (calls, job, cs', w'))"
    and body: "rsp_body (respond calls) = [2, 3]" unfolding eq by (auto split: option.splits outcome.splits prod.splits)
  have hdr: "req_Method (ctx_Request ?c) = ''GET''" "Header_Get (req_Header (ctx_Request ?c)) ''Range'' = range_header 1 2"
    "unconditional (req_Header (ctx_Request ?c))" by code_simp+
  have st: "st_cache ?s = fileCache_ops" "st_parser ?s = ParseDigest" by (simp_all add: demo_blob_store_def NewFilesStore_def)
  have "honest (NewReader (st_nodeName ?s) c' (st_router ?s) (st_resolveRetries ?s) (st_resolveTimeout ?s) (st_metricsRecorder ?s)) [1, 2, 3, 4]" for c'
    using served.network_honest by (simp add: demo_blob_store_def NewFilesStore_def)
  then show ?thesis
    using files_handler_serves_range [OF demo_node st hdr(1,2) _ _ _ _ url _ run hdr(3), of "\<lambda>_. [1, 2, 3, 4]"] run body by (auto simp: in_int64_def)
qed

subsection \<open>Requests between peers\<close>

text \<open>
  C11: chains of peers are cut after one hop. A request that a reader sends (to a peer or to the
  origin) is recognised by the peerd that receives it, and the reader that is made there to serve it
  refuses to ask other peers, whatever the router would have found.
\<close>

theorem no_peer_chains:
  assumes "remoteRequest r u start stop = Inr req" and "req_Header (ctx_Request c) = hr_Header req"
  shows "IsRequestFromAPeer c
    \<and> doP2p (NewReader node c router retries timeout metrics) key a b op buf w = ((buf, -1, Some errPeerNotFound), w)"
  using remoteRequest_headers(1) [OF assms(1)] assms(2) by (simp add: IsRequestFromAPeer_def doP2p_def NewReader_def)

theorem no_peer_chains_witness:
  "\<exists>req. remoteRequest (demo_reader (\<lambda>_. range_server [1]) [] [] :: unit reader) ''https://10.0.0.1:5001/blobs/x'' 0 0 = Inr req
    \<and> IsRequestFromAPeer (demo_context (hr_Header req))
    \<and> doP2p (NewReader ''n'' (demo_context (hr_Header req)) (demo_router (\<lambda>_. range_server [1]) []) 3 20 quiet_metrics)
        ''d_0'' 0 0 operationPreadRemote [0] () = (([0], -1, Some errPeerNotFound), ())"
proof -
  have "case remoteRequest (demo_reader (\<lambda>_. range_server [1]) [] [] :: unit reader) ''https://10.0.0.1:5001/blobs/x'' 0 0 of
      Inr q \<Rightarrow> True | Inl e \<Rightarrow> False" by code_simp
  then obtain req where req: "remoteRequest (demo_reader (\<lambda>_. range_server [1]) [] [] :: unit reader)
      ''https://10.0.0.1:5001/blobs/x'' 0 0 = Inr req" by (auto split: sum.splits)
  have "req_Header (ctx_Request (demo_context (hr_Header req))) = hr_Header req" by (simp add: demo_context_def)
  then show ?thesis
    using no_peer_chains [OF req, of "demo_context (hr_Header req)" "''n''" "demo_router (\<lambda>_. range_server [1]) []" 3 20
        quiet_metrics "''d_0''" 0 0 operationPreadRemote "[0]" "()"] req by auto
qed

subsection \<open>Metrics of the reader\<close>

text \<open>
  The reader labels its observations with the host name of the address that the client asks for. Such
  a name need not be UTF-8, because a percent-encoded byte of a host is decoded, and then the metrics
  of the request panic.
\<close>

theorem upstream_host_panics:
  assumes "prometheus reg registered observed" and "hv_Name ` set (histograms pfx) \<inter> hv_Name ` set (registered w) = {}"
    and "GetString (rd_context r) BlobUrlCtxKey = ''https://%ff/b?''"
  shows "\<exists>req m w'. originRequest r 0 0 = Inr req \<and> NewPromMetrics reg self pfx w = Ret (m, w')
    \<and> (\<exists>msg. RecordUpstreamResponse reg m (Hostname (hr_URL req)) key op duration count w' = Panic (ExplicitPanic msg))"
proof -
  have "case http_NewRequest ''GET'' ''https://%ff/b?'' of Inr q \<Rightarrow> \<not> ValidString (Hostname (hr_URL q)) | Inl e \<Rightarrow> False" by code_simp
  then obtain q where q: "http_NewRequest ''GET'' ''https://%ff/b?'' = Inr q" "\<not> ValidString (Hostname (hr_URL q))" by (auto split: sum.splits)
  obtain req where req: "originRequest r 0 0 = Inr req" "hr_URL req = hr_URL q"
    using q(1) assms(3) by (simp add: originRequest_def remoteRequest_def SetOutboundHeaders_def)
  obtain m w' where m: "NewPromMetrics reg self pfx w = Ret (m, w')" "typed_metrics self pfx m" "registered w' = registered w @ histograms pfx"
    using prometheus.NewPromMetrics_typed [OF assms(1,2)] by blast
  have "\<exists>msg. record_call reg m (UpstreamCall (Hostname (hr_URL req)) key op duration count) w' = Panic (ExplicitPanic msg)"
    using prometheus.record_call_invalid [OF assms(1) m(2), of w' "UpstreamCall (Hostname (hr_URL req)) key op duration count"] m(3) q(2) req(2) by auto
  then show ?thesis using req(1) m(1) by auto
qed

subsection \<open>Keys of images\<close>

text \<open>
  C7: what a node advertises is what the others look up. For a request of a runtime for the manifest
  of a tag (with the registry in the query, \<open>docker.io\<close> without one), or for a manifest or blob by
  digest, the key that the mirror gives to the router is among the keys that the provider advertises
  for the image with that registry, repository and tag, or with that digest among its contents.
\<close>

theorem resolved_key_is_advertised:
  assumes "ns_of c = ref_host ref" and "ref_host ref \<noteq> []" and "req_Path (ctx_Request c) = path"
    and "name_ok (ref_repo ref) \<and> tag_ok (ref_tag ref) \<and> path = ''/v2/'' @ ref_repo ref @ ''/manifests/'' @ ref_tag ref
      \<or> digest_path path d t \<and> sm_All st ref = Ret (Inr digests) \<and> d \<in> set (ref_dgst ref # digests)"
  shows "\<exists>c'. fill_v2 c = (None, c') \<and> mirror_key c' \<in> set (image_keys st ref)"
proof -
  have filled: "fill_v2 c = (None, snd (fill_v2 c)) \<and> mirror_key (snd (fill_v2 c)) = (if dgst = [] then name else dgst)"
    if "ParsePathComponents (ns_of c) path = Inr (name, dgst, ty)" for name dgst ty
    using fill_v2_Some [OF that [folded assms(3)]] by (simp add: prod_eq_iff mirror_key_def)
  show ?thesis using assms(4)
  proof
    assume tag: "name_ok (ref_repo ref) \<and> tag_ok (ref_tag ref) \<and> path = ''/v2/'' @ ref_repo ref @ ''/manifests/'' @ ref_tag ref"
    then have "ref_String ref = ref_host ref @ ''/'' @ ref_repo ref @ '':'' @ ref_tag ref" "ref_tag ref \<noteq> []"
      by (auto simp: ref_String_def tag_ok_def)
    then show ?thesis using filled ParsePathComponents_by_tag [of "ref_repo ref" "ref_tag ref" "ref_host ref"] tag assms(1,2)
      by (fastforce simp: image_keys_def ref_keys_def)
  next
    assume dig: "digest_path path d t \<and> sm_All st ref = Ret (Inr digests) \<and> d \<in> set (ref_dgst ref # digests)"
    then have "mirror_key (snd (fill_v2 c)) = d" "fill_v2 c = (None, snd (fill_v2 c))"
      using filled [OF digest_path_parse] digest_not_empty by fastforce+
    then show ?thesis using dig by (auto simp: image_keys_def ref_keys_def)
  qed
qed

theorem resolved_key_is_advertised_witness:
  "\<exists>c'. fill_v2 (demo_pull\<lparr>ctx_Query := [(''ns'', ''h'')], ctx_Request := (ctx_Request demo_pull)\<lparr>req_Path := ''/v2/r/manifests/t''\<rparr>\<rparr>) = (None, c')
    \<and> mirror_key c' \<in> set (image_keys (NewMockContainerdStore [demo_ref]) demo_ref)"
proof (rule resolved_key_is_advertised [OF _ _ refl disjI1])
  have "name_ok ''r''" "tag_ok ''t''" by code_simp+
  then show "name_ok (ref_repo demo_ref) \<and> tag_ok (ref_tag demo_ref) \<and> req_Path (ctx_Request (demo_pull\<lparr>ctx_Query := [(''ns'', ''h'')],
      ctx_Request := (ctx_Request demo_pull)\<lparr>req_Path := ''/v2/r/manifests/t''\<rparr>\<rparr>)) = ''/v2/'' @ ref_repo demo_ref @ ''/manifests/'' @ ref_tag demo_ref"
    by (simp add: demo_ref_def)
qed (simp_all add: demo_ref_def ns_of_def Query_def)

end
